(* ===== verification/Prelude.thy ===== *)
theory Prelude
  imports Complex_Main "HOL-Library.AList" "HOL-Library.Sublist"
begin

text \<open>
  Shared vocabulary of the development: Python exceptions as values, results
  that are an exception or a value, Python's string operations on character
  lists, and insertion-ordered dictionaries as association lists. The lemmas
  are collected in \<open>pystr_simps\<close> (strings), \<open>res_simps\<close> (results) and
  \<open>dict_simps\<close> (dictionaries), which the component proofs use.
\<close>

named_theorems pystr_simps "facts about Python string operations"
named_theorems res_simps "facts about results that may be an exception"
named_theorems dict_simps "facts about insertion-ordered dictionaries"

section \<open>Exceptions and results\<close>

text \<open>
  The exception classes that the modelled code raises or tests for. A raised
  exception carries its class and its message; messages are kept up to quoting
  and source positions.
\<close>

datatype exc_class =
    AttributeError | ImportError | ModuleNotFoundError | ValueError | TypeError | KeyError
  | SyntaxError | RuntimeError | OSError | PermissionError | FileExistsError
  | FileNotFoundError | ChildProcessError | EOFError | MemoryError | PicklingError
  | KeyboardInterrupt | SystemExit | UnsupportedOperation | AssertionError | NotImplementedError
  | StError | StTimeout | StCancelled | StTickLimit | StForkUnsafe
  | StPolicyNotPortable | StLostWrite | StValidationError | RpcChannelClosed
  | SandboxObjectError | SpoolClosedError | IsolationUnavailable
  | BaseException | Exception | OtherException string

datatype pyerr = Exc (err_class: exc_class) (err_msg: string)

type_synonym 'a res = "pyerr + 'a"

definition rbind :: "'e + 'a \<Rightarrow> ('a \<Rightarrow> 'e + 'b) \<Rightarrow> 'e + 'b" where
  "rbind m f = (case m of Inl e \<Rightarrow> Inl e | Inr x \<Rightarrow> f x)"

lemma rbind_simps [simp, res_simps]:
  "rbind (Inl e) f = Inl e"
  "rbind (Inr x) f = f x"
  by (simp_all add: rbind_def)

lemma rbind_eq_Inr_iff [res_simps]:
  "rbind m f = Inr y \<longleftrightarrow> (\<exists>x. m = Inr x \<and> f x = Inr y)"
  by (cases m) auto

lemma rbind_InrE:
  "rbind m f = Inr y \<Longrightarrow> (\<And>x. m = Inr x \<Longrightarrow> f x = Inr y \<Longrightarrow> R) \<Longrightarrow> R"
  by (auto simp: rbind_eq_Inr_iff)

lemma rbind_pairE:
  "rbind m (\<lambda>(a, b). f a b) = Inr y \<Longrightarrow> (\<And>a b. m = Inr (a, b) \<Longrightarrow> f a b = Inr y \<Longrightarrow> R) \<Longrightarrow> R"
  by (auto simp: rbind_eq_Inr_iff)

lemma rbind_eq_Inl_iff [res_simps]:
  "rbind m f = Inl e \<longleftrightarrow> m = Inl e \<or> (\<exists>x. m = Inr x \<and> f x = Inl e)"
  by (cases m) auto

lemma rbind_cong [fundef_cong]:
  "m = m' \<Longrightarrow> (\<And>x. m' = Inr x \<Longrightarrow> f x = g x) \<Longrightarrow> rbind m f = rbind m' g"
  by (cases m') auto

text \<open>\<open>try: m except <class test>: handler\<close>.\<close>

definition rcatch :: "'a res \<Rightarrow> (exc_class \<Rightarrow> bool) \<Rightarrow> (pyerr \<Rightarrow> 'a res) \<Rightarrow> 'a res" where
  "rcatch m p h = (case m of Inl e \<Rightarrow> if p (err_class e) then h e else Inl e | Inr x \<Rightarrow> Inr x)"

lemma rcatch_simps [simp, res_simps]:
  "rcatch (Inr x) p h = Inr x"
  "rcatch (Inl e) p h = (if p (err_class e) then h e else Inl e)"
  by (simp_all add: rcatch_def)

text \<open>Doing something to each item in turn, up to the first exception.\<close>

fun rmap :: "('a \<Rightarrow> 'b res) \<Rightarrow> 'a list \<Rightarrow> 'b list res" where
  "rmap f [] = Inr []"
| "rmap f (x # xs) = rbind (f x) (\<lambda>y. rbind (rmap f xs) (\<lambda>ys. Inr (y # ys)))"

lemma rmap_cong [fundef_cong]:
  "xs = ys \<Longrightarrow> (\<And>x. x \<in> set ys \<Longrightarrow> f x = g x) \<Longrightarrow> rmap f xs = rmap g ys"
  by (induction xs arbitrary: ys) (auto intro!: rbind_cong)

lemma rmap_Inr_iff:
  "rmap f xs = Inr ys \<longleftrightarrow> list_all2 (\<lambda>x y. f x = Inr y) xs ys"
  by (induction xs arbitrary: ys) (auto simp: rbind_eq_Inr_iff list_all2_Cons1)

lemma rmap_succeeds: "(\<And>x. x \<in> set xs \<Longrightarrow> \<exists>y. f x = Inr y) \<Longrightarrow> \<exists>ys. rmap f xs = Inr ys"
  by (induction xs) (fastforce simp: rbind_eq_Inr_iff)+

section \<open>Python strings\<close>

definition startswith :: "string \<Rightarrow> string \<Rightarrow> bool" where
  "startswith s p = (take (length p) s = p)"

definition endswith :: "string \<Rightarrow> string \<Rightarrow> bool" where
  "endswith s p = (length p \<le> length s \<and> drop (length s - length p) s = p)"

lemma startswith_iff: "startswith s p \<longleftrightarrow> (\<exists>t. s = p @ t)"
proof
  assume "startswith s p"
  then have "s = p @ drop (length p) s"
    unfolding startswith_def by (metis append_take_drop_id)
  then show "\<exists>t. s = p @ t" ..
qed (auto simp: startswith_def)

lemma endswith_iff: "endswith s p \<longleftrightarrow> (\<exists>t. s = t @ p)"
proof
  assume "endswith s p"
  then have "s = take (length s - length p) s @ p"
    unfolding endswith_def by (metis append_take_drop_id)
  then show "\<exists>t. s = t @ p" ..
qed (auto simp: endswith_def)

lemma startswith_simps [simp, pystr_simps]:
  "startswith s []"
  "startswith (p @ t) p"
  "startswith [] (c # p) \<longleftrightarrow> False"
  "startswith (d # s) (c # p) \<longleftrightarrow> d = c \<and> startswith s p"
  by (auto simp: startswith_def)

lemma startswith_trans: "startswith s p \<Longrightarrow> startswith p q \<Longrightarrow> startswith s q"
  by (auto simp: startswith_iff)

text \<open>\<open>p in s\<close> for strings and byte strings.\<close>

fun str_in :: "'a list \<Rightarrow> 'a list \<Rightarrow> bool" where
  "str_in p [] = (p = [])"
| "str_in p (x # xs) = (take (length p) (x # xs) = p \<or> str_in p xs)"

lemma take_length_eq_iff: "take (length p) s = p \<longleftrightarrow> (\<exists>t. s = p @ t)"
  by (metis append_eq_conv_conj)

lemma str_in_iff: "str_in p s \<longleftrightarrow> (\<exists>a b. s = a @ p @ b)"
proof (induction s)
  case (Cons x xs)
  have "(\<exists>a b. x # xs = a @ p @ b) \<longleftrightarrow> (\<exists>b. x # xs = p @ b) \<or> (\<exists>a b. xs = a @ p @ b)"
    by (metis append_Cons append_Nil append_eq_Cons_conv)
  with Cons.IH take_length_eq_iff [of p "x # xs"] show ?case by simp
qed auto

text \<open>\<open>s.split(sep)\<close> for a one-character separator, and \<open>sep.join(parts)\<close>.\<close>

fun split_on :: "char \<Rightarrow> string \<Rightarrow> string list" where
  "split_on c [] = [[]]"
| "split_on c (x # xs) =
     (if x = c then [] # split_on c xs
      else (case split_on c xs of [] \<Rightarrow> [[x]] | w # ws \<Rightarrow> (x # w) # ws))"

fun join :: "string \<Rightarrow> string list \<Rightarrow> string" where
  "join s [] = []"
| "join s [x] = x"
| "join s (x # y # zs) = x @ s @ join s (y # zs)"

lemma split_on_not_Nil [simp, pystr_simps]: "split_on c s \<noteq> []"
  by (cases s) (auto split: list.splits)

lemma join_Cons_char: "ws \<noteq> [] \<Longrightarrow> join s ((x # w) # tl ws) = x # join s (w # tl ws)"
  by (cases "tl ws") auto

lemma join_split_on [simp, pystr_simps]: "join [c] (split_on c s) = s"
proof (induction s)
  case (Cons x xs)
  obtain w ws where sp: "split_on c xs = w # ws"
    using split_on_not_Nil by (cases "split_on c xs") auto
  show ?case
  proof (cases "x = c")
    case True
    with sp Cons.IH show ?thesis by simp
  next
    case False
    with sp Cons.IH show ?thesis by (cases ws) auto
  qed
qed simp

lemma split_on_no_sep: "p \<in> set (split_on c s) \<Longrightarrow> c \<notin> set p"
proof (induction s arbitrary: p)
  case (Cons x xs)
  obtain w ws where sp: "split_on c xs = w # ws"
    using split_on_not_Nil by (cases "split_on c xs") auto
  with Cons.IH have "\<forall>q \<in> set (w # ws). c \<notin> set q" by simp
  with Cons.prems sp show ?case by (auto split: if_splits)
qed simp

lemma split_on_word [pystr_simps]: "c \<notin> set p \<Longrightarrow> split_on c p = [p]"
  by (induction p) auto

lemma split_on_append_sep [pystr_simps]:
  "c \<notin> set p \<Longrightarrow> split_on c (p @ c # s) = p # split_on c s"
  by (induction p) auto

lemma split_on_join:
  assumes "parts \<noteq> []" and "\<forall>p \<in> set parts. c \<notin> set p"
  shows "split_on c (join [c] parts) = parts"
  using assms
proof (induction "[c]" parts rule: join.induct)
  case (2 x)
  then show ?case by (simp add: split_on_word)
next
  case (3 x y zs)
  then show ?case by (simp add: split_on_append_sep)
qed simp

lemma join_append:
  "xs \<noteq> [] \<Longrightarrow> ys \<noteq> [] \<Longrightarrow> join s (xs @ ys) = join s xs @ s @ join s ys"
proof (induction s xs rule: join.induct)
  case (2 s x)
  then show ?case by (cases ys) auto
qed auto

lemma split_on_append [pystr_simps]: "split_on c (p @ c # q) = split_on c p @ split_on c q"
proof (induction p)
  case (Cons x xs)
  obtain w ws where sp: "split_on c xs = w # ws"
    using split_on_not_Nil by (cases "split_on c xs") auto
  with Cons.IH show ?case by simp
qed simp

lemma later_segment:
  assumes "seg \<in> set (tl (split_on c s))"
  shows "\<exists>a b. s = a @ c # seg @ b"
proof -
  obtain us vs where sp: "split_on c s = us @ seg # vs" "us \<noteq> []"
    using assms by (metis append_Cons hd_Cons_tl list.distinct(1) list.set_cases split_list tl_Nil)
  have s: "s = join [c] (us @ seg # vs)" using sp(1) by (metis join_split_on)
  show ?thesis
  proof (cases vs)
    case Nil
    with s sp(2) have "s = join [c] us @ c # seg @ []" by (simp add: join_append)
    then show ?thesis by blast
  next
    case (Cons v vs')
    with s sp(2) have "s = join [c] us @ c # seg @ (c # join [c] vs)" by (simp add: join_append)
    then show ?thesis by blast
  qed
qed

lemma length_join_take_less:
  assumes "0 < i" "i < j" "j \<le> length parts"
  shows "length (join [c] (take i parts)) < length (join [c] (take j parts))"
proof -
  have "take j parts = take i parts @ take (j - i) (drop i parts)"
    using assms by (metis add.commute le_add_diff_inverse less_imp_le_nat take_add)
  moreover have "take i parts \<noteq> []" "take (j - i) (drop i parts) \<noteq> []" using assms by auto
  ultimately show ?thesis by (simp add: join_append)
qed

text \<open>\<open>s.replace(a, b)\<close> for one character, \<open>s.rstrip(chars)\<close>, \<open>s.lstrip(chars)\<close>.\<close>

definition replace_char :: "char \<Rightarrow> string \<Rightarrow> string \<Rightarrow> string" where
  "replace_char a b s = concat (map (\<lambda>c. if c = a then b else [c]) s)"

definition lstrip :: "char set \<Rightarrow> string \<Rightarrow> string" where
  "lstrip cs s = dropWhile (\<lambda>c. c \<in> cs) s"

definition rstrip :: "char set \<Rightarrow> string \<Rightarrow> string" where
  "rstrip cs s = rev (dropWhile (\<lambda>c. c \<in> cs) (rev s))"

text \<open>\<open>head, _, tail = s.rpartition(c)\<close>: an empty head when \<open>c\<close> is absent.\<close>

definition rpartition :: "char \<Rightarrow> string \<Rightarrow> string \<times> string" where
  "rpartition c s =
     (let parts = split_on c s in (join [c] (butlast parts), last parts))"

lemma rpartition_absent: "c \<notin> set s \<Longrightarrow> rpartition c s = ([], s)"
  by (simp add: rpartition_def split_on_word)

lemma rpartition_dotted:
  assumes "c \<in> set s"
  shows "s = fst (rpartition c s) @ c # snd (rpartition c s)" "c \<notin> set (snd (rpartition c s))"
proof -
  let ?ps = "split_on c s"
  have ps: "?ps = butlast ?ps @ [last ?ps]" by simp
  have "butlast ?ps \<noteq> []"
  proof
    assume "butlast ?ps = []"
    then have "?ps = [last ?ps]" using ps by simp
    then have "s = last ?ps" using join_split_on [of c s] by (metis join.simps(2))
    moreover have "c \<notin> set (last ?ps)" using split_on_no_sep [of "last ?ps" c s] by simp
    ultimately show False using assms by simp
  qed
  then have "join [c] (butlast ?ps @ [last ?ps]) = join [c] (butlast ?ps) @ [c] @ join [c] [last ?ps]"
    by (rule join_append) simp
  then show "s = fst (rpartition c s) @ c # snd (rpartition c s)"
    using ps join_split_on [of c s] by (simp add: rpartition_def Let_def)
  show "c \<notin> set (snd (rpartition c s))"
    using split_on_no_sep [of "last ?ps" c s] by (simp add: rpartition_def Let_def)
qed

text \<open>\<open>posixpath.normpath\<close>, and \<open>os.path.abspath\<close> from a working directory.\<close>

fun norm_comps :: "bool \<Rightarrow> string list \<Rightarrow> string list \<Rightarrow> string list" where
  "norm_comps rooted [] acc = rev acc"
| "norm_comps rooted (c # cs) acc =
     (if c = [] \<or> c = ''.'' then norm_comps rooted cs acc
      else if c \<noteq> ''..'' \<or> \<not> rooted \<and> acc = [] \<or> acc \<noteq> [] \<and> hd acc = ''..''
        then norm_comps rooted cs (c # acc)
      else norm_comps rooted cs (tl acc))"

definition normpath :: "string \<Rightarrow> string" where
  "normpath p =
     (if p = [] then ''.''
      else
        (let rooted = startswith p ''/'';
             slashes = (if startswith p ''//'' \<and> \<not> startswith p ''///'' then ''//''
                        else if rooted then ''/'' else []);
             q = slashes @ join ''/'' (norm_comps rooted (split_on CHR ''/'' p) [])
         in if q = [] then ''.'' else q))"

definition abspath :: "string \<Rightarrow> string \<Rightarrow> string" where
  "abspath cwd p = normpath (if startswith p ''/'' then p else cwd @ ''/'' @ p)"

text \<open>\<open>str(n)\<close> of a natural number.\<close>

fun str_of_nat :: "nat \<Rightarrow> string" where
  "str_of_nat n =
     (if n < 10 then [char_of (48 + n)] else str_of_nat (n div 10) @ [char_of (48 + n mod 10)])"

declare str_of_nat.simps [simp del]

lemma str_of_nat_not_Nil [simp]: "str_of_nat n \<noteq> []"
  by (subst str_of_nat.simps) simp

text \<open>The digits of a number determine it.\<close>

definition nat_of_digits :: "string \<Rightarrow> nat" where
  "nat_of_digits s = foldl (\<lambda>a c. 10 * a + (of_char c - 48)) 0 s"

lemma nat_of_digits_str_of_nat [simp, pystr_simps]: "nat_of_digits (str_of_nat n) = n"
proof (induction n rule: str_of_nat.induct)
  case (1 n)
  show ?case
  proof (cases "n < 10")
    case True
    then show ?thesis by (subst str_of_nat.simps) (simp add: nat_of_digits_def)
  next
    case False
    then have "nat_of_digits (str_of_nat n) = 10 * nat_of_digits (str_of_nat (n div 10)) + n mod 10"
      by (subst str_of_nat.simps) (simp add: nat_of_digits_def)
    with 1 False show ?thesis by simp
  qed
qed

lemma str_of_nat_inj [simp, pystr_simps]: "str_of_nat m = str_of_nat n \<longleftrightarrow> m = n"
  by (metis nat_of_digits_str_of_nat)

section \<open>Dictionaries\<close>

text \<open>
  A Python \<open>dict\<close> iterates in insertion order; assigning to a key that is
  already there keeps its place. \<open>AList.update\<close> on association lists does both.
\<close>

type_synonym ('k, 'v) dict = "('k \<times> 'v) list"

abbreviation dget :: "('k, 'v) dict \<Rightarrow> 'k \<Rightarrow> 'v option" where
  "dget \<equiv> map_of"

abbreviation dset :: "'k \<Rightarrow> 'v \<Rightarrow> ('k, 'v) dict \<Rightarrow> ('k, 'v) dict" where
  "dset \<equiv> AList.update"

abbreviation dpop :: "'k \<Rightarrow> ('k, 'v) dict \<Rightarrow> ('k, 'v) dict" where
  "dpop \<equiv> AList.delete"

definition dmem :: "'k \<Rightarrow> ('k, 'v) dict \<Rightarrow> bool" where
  "dmem k d = (k \<in> set (map fst d))"

text \<open>\<open>d.setdefault(k, v)\<close> and \<open>d.update(e)\<close>.\<close>

definition dsetdefault :: "'k \<Rightarrow> 'v \<Rightarrow> ('k, 'v) dict \<Rightarrow> ('k, 'v) dict" where
  "dsetdefault k v d = (if dmem k d then d else dset k v d)"

definition dupdate :: "('k, 'v) dict \<Rightarrow> ('k, 'v) dict \<Rightarrow> ('k, 'v) dict" where
  "dupdate e d = fold (\<lambda>(k, v). dset k v) e d"

lemma dget_dset [simp, dict_simps]: "dget (dset k v d) k' = (if k' = k then Some v else dget d k')"
  by (simp add: update_conv)

lemma dget_dpop [simp, dict_simps]: "dget (dpop k d) k' = (if k' = k then None else dget d k')"
  by (simp add: AList.delete_conv)

lemma dmem_iff [dict_simps]: "dmem k d \<longleftrightarrow> (\<exists>v. dget d k = Some v)"
  unfolding dmem_def by (metis map_of_eq_None_iff not_Some_eq set_map)

lemma dget_dsetdefault [simp, dict_simps]:
  "dget (dsetdefault k v d) k' =
     (if k' = k \<and> dget d k = None then Some v else dget d k')"
  by (auto simp: dsetdefault_def dmem_iff)

lemma distinct_keys_dset [simp, dict_simps]:
  "distinct (map fst d) \<Longrightarrow> distinct (map fst (dset k v d))"
  by (rule distinct_update)

lemma set_keys_dset [simp, dict_simps]: "fst ` set (dset k v d) = insert k (fst ` set d)"
  using dom_update [of k v d] by auto

lemma dset_new: "k \<notin> fst ` set d \<Longrightarrow> dset k v d = d @ [(k, v)]"
  by (induction d) auto

lemma dget_dupdate [dict_simps]:
  "dget (dupdate e d) k = (case dget (rev e) k of Some v \<Rightarrow> Some v | None \<Rightarrow> dget d k)"
proof (induction e arbitrary: d)
  case (Cons kv e)
  obtain k0 v0 where kv: "kv = (k0, v0)" by (cases kv)
  have "dupdate (kv # e) d = dupdate e (dset k0 v0 d)" by (simp add: dupdate_def kv)
  with Cons.IH [of "dset k0 v0 d"] show ?case by (auto simp: kv map_add_def split: option.splits)
qed (simp add: dupdate_def)

section \<open>Lists\<close>

text \<open>The first element that satisfies a predicate: a \<open>for\<close> loop that returns.\<close>

lemma find_Some_first:
  "find P xs = Some x \<longleftrightarrow> (\<exists>i < length xs. P (xs ! i) \<and> xs ! i = x \<and> (\<forall>j < i. \<not> P (xs ! j)))"
  by (auto simp: find_Some_iff)

section \<open>Scopes\<close>

text \<open>
  The contract of every context manager of the program that sets something for its
  body: once it is left, however the body ended and whatever it did, what was seen
  before is seen again. So it is after any number of scopes, one after another or
  one depending on the result of another.
\<close>

locale restoring =
  fixes scope :: "'b \<Rightarrow> 's \<Rightarrow> 'r \<times> 's"
    and seen :: "'s \<Rightarrow> 'a"
  assumes restores: "seen (snd (scope body s)) = seen s"
begin

lemma one_after_another: "seen (fold (\<lambda>body s. snd (scope body s)) bodies s) = seen s"
  by (induction bodies arbitrary: s) (simp_all add: restores)

lemma continued: "seen (snd (case scope body s of (r, s') \<Rightarrow> scope (next_body r) s')) = seen s"
proof -
  obtain r s' where "scope body s = (r, s')" by fastforce
  with restores [of body s] show ?thesis by (simp add: restores)
qed

end

end
