(* ===== verification/Errors.thy ===== *)
theory Errors
  imports Prelude
begin

text \<open>
  The exception hierarchy, the reports of lost writes, and the stripping of the
  sandbox's own frames from a traceback (\<open>sandtrap/errors.py\<close>).
\<close>

section \<open>The hierarchy\<close>

text \<open>The direct bases of each class: Python's own, and those \<open>errors.py\<close>, \<open>home.py\<close> and \<open>spool.py\<close> declare.\<close>

fun exc_bases :: "exc_class \<Rightarrow> exc_class list" where
  "exc_bases BaseException = []"
| "exc_bases Exception = [BaseException]"
| "exc_bases KeyboardInterrupt = [BaseException]"
| "exc_bases SystemExit = [BaseException]"
| "exc_bases ModuleNotFoundError = [ImportError]"
| "exc_bases PermissionError = [OSError]"
| "exc_bases FileExistsError = [OSError]"
| "exc_bases FileNotFoundError = [OSError]"
| "exc_bases ChildProcessError = [OSError]"
| "exc_bases UnsupportedOperation = [OSError, ValueError]"
| "exc_bases NotImplementedError = [RuntimeError]"
| "exc_bases StError = [Exception]"
| "exc_bases StTimeout = [StError]"
| "exc_bases StCancelled = [StError]"
| "exc_bases StTickLimit = [StError]"
| "exc_bases StForkUnsafe = [StError, RuntimeError]"
| "exc_bases StPolicyNotPortable = [StError, ValueError]"
| "exc_bases StLostWrite = [StError, OSError]"
| "exc_bases StValidationError = [StError]"
| "exc_bases IsolationUnavailable = [RuntimeError]"
| "exc_bases RpcChannelClosed = [RuntimeError]"
| "exc_bases SandboxObjectError = [PicklingError]"
| "exc_bases SpoolClosedError = [RuntimeError]"
| "exc_bases _ = [Exception]"

fun exc_rank :: "exc_class \<Rightarrow> nat" where
  "exc_rank BaseException = 0"
| "exc_rank Exception = 1"
| "exc_rank StError = 2"
| "exc_rank RuntimeError = 2"
| "exc_rank ValueError = 2"
| "exc_rank OSError = 2"
| "exc_rank ImportError = 2"
| "exc_rank PicklingError = 2"
| "exc_rank _ = 3"

lemma exc_rank_bases: "b \<in> set (exc_bases c) \<Longrightarrow> exc_rank b < exc_rank c"
  by (cases c) auto

function exc_mro :: "exc_class \<Rightarrow> exc_class list" where
  "exc_mro c = c # concat (map exc_mro (exc_bases c))"
  by pat_completeness auto
termination
  by (relation "measure exc_rank") (auto intro: exc_rank_bases)

declare exc_mro.simps [simp del]

text \<open>Whether an \<open>except\<close> clause naming \<open>d\<close> catches an exception of class \<open>c\<close>.\<close>

definition exc_caught_by :: "exc_class \<Rightarrow> exc_class \<Rightarrow> bool" where
  "exc_caught_by c d = (d \<in> set (exc_mro c))"

section \<open>Lost writes\<close>

text \<open>The exception a failed save raised, as far as it is reported.\<close>

record cause =
  ca_class :: exc_class
  ca_type_name :: string
  ca_text :: string
  ca_strerror :: "string option"
  ca_errno :: "nat option"

definition EIO :: nat where
  "EIO = 5"

definition reason :: "cause \<Rightarrow> string" where
  "reason c =
     (case ca_strerror c of
        Some s \<Rightarrow> if exc_caught_by (ca_class c) OSError \<and> s \<noteq> [] then s else ca_type_name c @ '': '' @ ca_text c
      | None \<Rightarrow> ca_type_name c @ '': '' @ ca_text c)"

text \<open>An error a host sees, with what \<open>settle\<close> can do to it: it takes notes or it does not.\<close>

record st_error =
  se_class :: exc_class
  se_errno :: "nat option"
  se_text :: string
  se_filename :: "string option"
  se_cause :: "cause option"
  se_notes :: "string list"
  se_takes_notes :: bool

definition lost_write_error :: "string \<Rightarrow> cause \<Rightarrow> st_error" where
  "lost_write_error path c =
     \<lparr>se_class = StLostWrite,
      se_errno = Some (case ca_errno c of Some n \<Rightarrow> if n \<noteq> 0 then n else EIO | None \<Rightarrow> EIO),
      se_text = ''content lost when the file was closed implicitly ('' @ reason c @ '')'',
      se_filename = Some path, se_cause = Some c, se_notes = [], se_takes_notes = True\<rparr>"

definition lost_write_note :: "string \<Rightarrow> cause \<Rightarrow> string" where
  "lost_write_note path c =
     ''content of '' @ path @ '' was lost when the file was closed implicitly ('' @ reason c @ '')''"

text \<open>
  How the error crosses to another process. A pickled exception is its class, its
  arguments and its \<open>__dict__\<close> (the notes), which leaves out the cause;
  \<open>StLostWrite.__reduce__\<close> puts it into the state, from where it is set again.
\<close>

record pickled_error =
  pe_class :: exc_class
  pe_errno :: "nat option"
  pe_text :: string
  pe_filename :: "string option"
  pe_notes :: "string list"
  pe_cause :: "cause option"

definition exception_reduce :: "st_error \<Rightarrow> pickled_error" where
  "exception_reduce e = \<lparr>pe_class = se_class e, pe_errno = se_errno e, pe_text = se_text e,
     pe_filename = se_filename e, pe_notes = se_notes e, pe_cause = None\<rparr>"

definition lost_write_reduce :: "st_error \<Rightarrow> pickled_error" where
  "lost_write_reduce e =
     (case se_cause e of
        Some c \<Rightarrow> (exception_reduce e)\<lparr>pe_cause := Some c\<rparr>
      | None \<Rightarrow> exception_reduce e)"

definition exception_rebuild :: "pickled_error \<Rightarrow> st_error" where
  "exception_rebuild p = \<lparr>se_class = pe_class p, se_errno = pe_errno p, se_text = pe_text p,
     se_filename = pe_filename p, se_cause = pe_cause p, se_notes = pe_notes p, se_takes_notes = True\<rparr>"

text \<open>A lost write arrives as it was, notes and cause included.\<close>

lemma lost_write_crosses:
  assumes "se_takes_notes e"
  shows "exception_rebuild (lost_write_reduce e) = e"
  using assms
  by (cases e) (auto simp: exception_rebuild_def lost_write_reduce_def exception_reduce_def split: option.splits)

section \<open>Tracebacks\<close>

text \<open>A traceback is the file names of its frames, outermost first.\<close>

definition is_internal_frame :: "string \<Rightarrow> string \<Rightarrow> string \<Rightarrow> bool" where
  "is_internal_frame pkg_dir cwd filename =
     (if startswith filename ''<sandtrap:'' then False
      else startswith (abspath cwd filename) pkg_dir)"

fun find_first_user_frame :: "(string \<Rightarrow> bool) \<Rightarrow> string list \<Rightarrow> string list \<Rightarrow> string list" where
  "find_first_user_frame internal tb [] = tb"
| "find_first_user_frame internal tb (f # fs) =
     (if \<not> internal f then f # fs else find_first_user_frame internal tb fs)"

definition strip_internal_frames :: "string \<Rightarrow> string \<Rightarrow> string list \<Rightarrow> string list" where
  "strip_internal_frames pkg_dir cwd tb =
     (if tb = [] then [] else find_first_user_frame (is_internal_frame pkg_dir cwd) tb tb)"

lemma find_first_user_frame_eq:
  "find_first_user_frame internal tb fs =
     (if list_all internal fs then tb else dropWhile internal fs)"
  by (induction fs) auto

section \<open>Properties\<close>

text \<open>
  Stripping a traceback removes exactly its leading internal frames, and none
  when every frame is internal; a frame of sandboxed code is never removed.
\<close>

theorem strip_internal_frames_eq:
  "strip_internal_frames pkg cwd tb =
     (if list_all (is_internal_frame pkg cwd) tb then tb else dropWhile (is_internal_frame pkg cwd) tb)
   \<and> filter (\<lambda>f. startswith f ''<sandtrap:'') (strip_internal_frames pkg cwd tb)
     = filter (\<lambda>f. startswith f ''<sandtrap:'') tb"
proof -
  have eq: "strip_internal_frames pkg cwd tb =
     (if list_all (is_internal_frame pkg cwd) tb then tb else dropWhile (is_internal_frame pkg cwd) tb)"
    by (auto simp: strip_internal_frames_def find_first_user_frame_eq)
  have "filter (\<lambda>f. startswith f ''<sandtrap:'') (dropWhile (is_internal_frame pkg cwd) tb)
     = filter (\<lambda>f. startswith f ''<sandtrap:'') tb"
    by (induction tb) (auto simp: is_internal_frame_def)
  with eq show ?thesis by simp
qed

text \<open>
  The sandbox's control signals are ordinary exceptions: an \<open>except Exception\<close>
  clause, which a bare \<open>except\<close> is rewritten to, catches every one of them.
\<close>

theorem control_signals_are_exceptions:
  "list_all (\<lambda>c. exc_caught_by c Exception) [StTimeout, StCancelled, StTickLimit]
   \<and> \<not> exc_caught_by KeyboardInterrupt Exception \<and> \<not> exc_caught_by SystemExit Exception"
  by code_simp

end
