(* ===== verification/LostWrites.thy ===== *)
theory LostWrites
  imports Errors
begin

text \<open>
  Lost writes charged to the execution that lost them
  (\<open>sandtrap/lost_writes.py\<close>): the collectors, the process-wide hook that routes
  a finalizer's failure to the collector of the current context, the \<open>collecting\<close>
  block, and the settling of an execution's error. Contexts are named by numbers;
  a context's collector is what its context variable holds.
\<close>

section \<open>Collectors\<close>

record lost_writes =
  lw_open :: bool
  lw_lost :: "(string \<times> cause) list"

definition LostWrites_new :: lost_writes where
  "LostWrites_new = \<lparr>lw_open = True, lw_lost = []\<rparr>"

definition lw_offer :: "string \<Rightarrow> cause \<Rightarrow> lost_writes \<Rightarrow> lost_writes \<times> bool" where
  "lw_offer path c l = (if lw_open l then l\<lparr>lw_lost := lw_lost l @ [(path, c)]\<rparr> else l, lw_open l)"

definition lw_close :: "lost_writes \<Rightarrow> lost_writes \<times> (string \<times> cause) list" where
  "lw_close l = (l\<lparr>lw_open := False\<rparr>, lw_lost l)"

section \<open>The hook\<close>

text \<open>An exception raised out of a finalizer: its class, file name, and cause if it has one.\<close>

record unraisable =
  un_class :: exc_class
  un_filename :: string
  un_cause :: "cause option"
  un_self :: cause

record lw_state =
  lw_collectors :: "(nat, lost_writes) dict"
  lw_current :: "nat \<Rightarrow> nat option"
  lw_passed_on :: "unraisable list"

text \<open>\<open>LOST_WRITE_TYPES\<close>: the parameter says whether a class is monkeyfs's own error.\<close>

definition is_lost_write :: "(exc_class \<Rightarrow> bool) \<Rightarrow> exc_class \<Rightarrow> bool" where
  "is_lost_write mfs c = (exc_caught_by c StLostWrite \<or> mfs c)"

definition lw_hook :: "(exc_class \<Rightarrow> bool) \<Rightarrow> nat \<Rightarrow> unraisable \<Rightarrow> lw_state \<Rightarrow> lw_state" where
  "lw_hook mfs ctx u st =
     (let previous = st\<lparr>lw_passed_on := lw_passed_on st @ [u]\<rparr> in
      case lw_current st ctx of
        None \<Rightarrow> previous
      | Some i \<Rightarrow>
          if is_lost_write mfs (un_class u) then
            (case dget (lw_collectors st) i of
               None \<Rightarrow> previous
             | Some l \<Rightarrow>
                 let c = (case un_cause u of Some c \<Rightarrow> c | None \<Rightarrow> un_self u);
                     (l', taken) = lw_offer (un_filename u) c l
                 in if taken then st\<lparr>lw_collectors := dset i l' (lw_collectors st)\<rparr> else previous)
          else previous)"

text \<open>
  \<open>_install\<close>: the hooks in front of each other, outermost first, each sandtrap's own or
  another's. One is put in front unless one is there; nothing is ever taken away.
\<close>

datatype unraisable_hook = OwnHook | OtherHook nat

definition install_hook :: "unraisable_hook list \<Rightarrow> unraisable_hook list" where
  "install_hook hooks = (case hooks of OwnHook # _ \<Rightarrow> hooks | _ \<Rightarrow> OwnHook # hooks)"

lemma install_hook_in_front:
  "List.hd (install_hook hooks) = OwnHook \<and> install_hook (install_hook hooks) = install_hook hooks
   \<and> filter (\<lambda>k. k \<noteq> OwnHook) (install_hook hooks) = filter (\<lambda>k. k \<noteq> OwnHook) hooks"
  by (auto simp: install_hook_def split: list.splits unraisable_hook.splits)

text \<open>\<open>collecting\<close>: a new collector for the context, and at the end its previous one back and the new one closed.\<close>

definition collecting_enter :: "nat \<Rightarrow> nat \<Rightarrow> lw_state \<Rightarrow> lw_state" where
  "collecting_enter ctx i st =
     st\<lparr>lw_collectors := dset i LostWrites_new (lw_collectors st),
        lw_current := (lw_current st)(ctx := Some i)\<rparr>"

definition collecting_exit :: "nat \<Rightarrow> nat \<Rightarrow> nat option \<Rightarrow> lw_state \<Rightarrow> lw_state" where
  "collecting_exit ctx i previous st =
     st\<lparr>lw_current := (lw_current st)(ctx := previous),
        lw_collectors := (case dget (lw_collectors st) i of
                            Some l \<Rightarrow> dset i (fst (lw_close l)) (lw_collectors st)
                          | None \<Rightarrow> lw_collectors st)\<rparr>"

section \<open>Settling\<close>

text \<open>
  \<open>settle\<close>: the execution's error and the lines written to its standard error. On
  Python 3.10 (\<open>has_add_note\<close> false) a note is appended and written as well.
\<close>

definition settle_note :: "bool \<Rightarrow> string \<Rightarrow> st_error \<times> string \<Rightarrow> st_error \<times> string" where
  "settle_note has_add_note note es =
     (case es of (e, err) \<Rightarrow>
        if se_takes_notes e then
          (e\<lparr>se_notes := se_notes e @ [note]\<rparr>, if has_add_note then err else err @ note @ [CHR 0x0A])
        else (e, err @ note @ [CHR 0x0A]))"

definition settle ::
  "bool \<Rightarrow> st_error option \<Rightarrow> (string \<times> cause) list \<Rightarrow> st_error option \<times> string" where
  "settle has_add_note error lost =
     (if lost = [] then (error, [])
      else
        (let (e, rest) =
           (case error of
              None \<Rightarrow> (case lost of (p, c) # r \<Rightarrow> (lost_write_error p c, r))
            | Some e \<Rightarrow> (e, lost))
         in map_prod Some id
              (foldl (\<lambda>es note. settle_note has_add_note note es) (e, [])
                 (map (\<lambda>(p, c). lost_write_note p c) rest))))"

lemma settle_fold:
  "foldl (\<lambda>es note. settle_note b note es) (e, err) ns =
     (if se_takes_notes e
      then (e\<lparr>se_notes := se_notes e @ ns\<rparr>,
            if b then err else err @ concat (map (\<lambda>n. n @ [CHR 0x0A]) ns))
      else (e, err @ concat (map (\<lambda>n. n @ [CHR 0x0A]) ns)))"
  by (induction ns arbitrary: e err) (auto simp: settle_note_def)

section \<open>Properties\<close>

text \<open>
  An execution that lost a write fails and every loss is reported: without an
  error of its own it fails with the first loss and carries a note for each
  further one; with one, its error is kept and carries a note for each; and a
  note the error cannot take, or that Python 3.10 would not show, is a line of
  its standard error.
\<close>

theorem settle_reports_all:
  assumes "lost = (p, c) # rest"
  shows "settle has_add_note error lost =
     (let e = (case error of None \<Rightarrow> lost_write_error p c | Some e \<Rightarrow> e);
          others = map (\<lambda>(p, c). lost_write_note p c) (case error of None \<Rightarrow> rest | Some e \<Rightarrow> lost)
      in (Some (if se_takes_notes e then e\<lparr>se_notes := se_notes e @ others\<rparr> else e),
          if se_takes_notes e \<and> has_add_note then [] else concat (map (\<lambda>n. n @ [CHR 0x0A]) others)))"
  using assms
  by (cases error) (auto simp: settle_def settle_fold Let_def simp del: foldl_Cons list.map)

definition ex_cause :: cause where
  "ex_cause = \<lparr>ca_class = OSError, ca_type_name = ''OSError'', ca_text = ''disk'',
     ca_strerror = Some ''disk full'', ca_errno = Some 28\<rparr>"

theorem settle_reports_all_witness:
  "settle True None [(''/a'', ex_cause)] = (Some (lost_write_error ''/a'' ex_cause\<lparr>se_notes := []\<rparr>), [])"
  using settle_reports_all [of "[(''/a'', ex_cause)]" "''/a''" ex_cause "[]" True None]
  by (simp add: lost_write_error_def Let_def)

text \<open>
  A lost write is charged to the collector of the context that ran the
  finalizer while it is open, and to no other; otherwise it goes on to the
  previous hook, and so does every exception that is not a lost write.
\<close>

theorem lost_write_routed:
  "lw_hook mfs ctx u st =
     (case lw_current st ctx of
        Some i \<Rightarrow>
          (case dget (lw_collectors st) i of
             Some l \<Rightarrow>
               if is_lost_write mfs (un_class u) \<and> lw_open l
               then st\<lparr>lw_collectors := dset i (l\<lparr>lw_lost := lw_lost l @
                      [(un_filename u, case un_cause u of Some c \<Rightarrow> c | None \<Rightarrow> un_self u)]\<rparr>) (lw_collectors st)\<rparr>
               else st\<lparr>lw_passed_on := lw_passed_on st @ [u]\<rparr>
           | None \<Rightarrow> st\<lparr>lw_passed_on := lw_passed_on st @ [u]\<rparr>)
      | None \<Rightarrow> st\<lparr>lw_passed_on := lw_passed_on st @ [u]\<rparr>)"
  by (simp add: lw_hook_def lw_offer_def Let_def split: option.splits)

end
