(* ===== verification/Fnmatch.thy ===== *)
theory Fnmatch
  imports Prelude
begin

text \<open>
  Python's \<open>fnmatch.fnmatch\<close> on a POSIX host (where \<open>os.path.normcase\<close> is the
  identity), which the policy uses for its include and exclude patterns: \<open>*\<close>,
  \<open>?\<close>, \<open>[seq]\<close> and \<open>[!seq]\<close>, a bracket without its closing \<open>]\<close> standing for
  itself. The lemmas give the meaning of the pattern shapes that policies use.
\<close>

datatype gitem = GChar char | GRange char char

datatype gtok = GAny | GOne | GLit char | GSet bool "gitem list"

text \<open>The contents of a bracket: \<open>a-c\<close> is a range, everything else stands for itself.\<close>

fun parse_items :: "string \<Rightarrow> gitem list" where
  "parse_items (a # b # c # cs) =
     (if b = CHR ''-'' then GRange a c # parse_items cs else GChar a # parse_items (b # c # cs))"
| "parse_items (a # cs) = GChar a # parse_items cs"
| "parse_items [] = []"

text \<open>
  After an opening bracket: a leading \<open>!\<close> negates, a first \<open>]\<close> is a member, and
  the set runs to the next \<open>]\<close>. \<open>None\<close> when there is no closing bracket.
\<close>

definition parse_set :: "string \<Rightarrow> (bool \<times> gitem list \<times> string) option" where
  "parse_set r =
     (let neg = (take 1 r = ''!'');
          r1 = (if neg then drop 1 r else r);
          lead = (if take 1 r1 = '']'' then '']'' else []);
          r2 = drop (length lead) r1;
          body = takeWhile (\<lambda>c. c \<noteq> CHR '']'') r2;
          rest = dropWhile (\<lambda>c. c \<noteq> CHR '']'') r2
      in (if rest = [] then None else Some (neg, parse_items (lead @ body), tl rest)))"

lemma parse_set_shorter: "parse_set r = Some (neg, items, rest) \<Longrightarrow> length rest \<le> length r"
proof -
  assume "parse_set r = Some (neg, items, rest)"
  then have "\<exists>n. rest = tl (dropWhile (\<lambda>c. c \<noteq> CHR '']'') (drop n r))"
    by (auto simp: parse_set_def Let_def split: if_splits intro: exI [of _ 0])
  then obtain n where "rest = tl (dropWhile (\<lambda>c. c \<noteq> CHR '']'') (drop n r))" ..
  moreover have "length (dropWhile (\<lambda>c. c \<noteq> CHR '']'') (drop n r)) \<le> length (drop n r)"
    by (rule length_dropWhile_le)
  ultimately show ?thesis by simp
qed

function tokenise :: "string \<Rightarrow> gtok list" where
  "tokenise [] = []"
| "tokenise (c # cs) =
     (if c = CHR ''*'' then GAny # tokenise cs
      else if c = CHR ''?'' then GOne # tokenise cs
      else if c = CHR ''['' then
        (case parse_set cs of
           None \<Rightarrow> GLit c # tokenise cs
         | Some (neg, items, rest) \<Rightarrow> GSet neg items # tokenise rest)
      else GLit c # tokenise cs)"
  by pat_completeness auto
termination
  by (relation "measure length") (auto dest: parse_set_shorter simp: le_imp_less_Suc)

fun item_matches :: "char \<Rightarrow> gitem \<Rightarrow> bool" where
  "item_matches c (GChar d) = (c = d)"
| "item_matches c (GRange a b) = ((of_char a :: nat) \<le> of_char c \<and> (of_char c :: nat) \<le> of_char b)"

fun gmatch :: "gtok list \<Rightarrow> string \<Rightarrow> bool" where
  "gmatch [] s = (s = [])"
| "gmatch (GAny # ts) [] = gmatch ts []"
| "gmatch (GAny # ts) (x # xs) = (gmatch ts (x # xs) \<or> gmatch (GAny # ts) xs)"
| "gmatch (GOne # ts) (x # xs) = gmatch ts xs"
| "gmatch (GLit c # ts) (x # xs) = (x = c \<and> gmatch ts xs)"
| "gmatch (GSet neg items # ts) (x # xs) =
     ((list_ex (item_matches x) items \<noteq> neg) \<and> gmatch ts xs)"
| "gmatch (t # ts) [] = False"

definition fnmatch :: "string \<Rightarrow> string \<Rightarrow> bool" where
  "fnmatch name pat = gmatch (tokenise pat) name"

section \<open>What the patterns of a policy match\<close>

definition plain_chars :: "string \<Rightarrow> bool" where
  "plain_chars p = list_all (\<lambda>c. c \<noteq> CHR ''*'' \<and> c \<noteq> CHR ''?'' \<and> c \<noteq> CHR ''['') p"

lemma tokenise_plain_append:
  "plain_chars p \<Longrightarrow> tokenise (p @ q) = map GLit p @ tokenise q"
  by (induction p) (auto simp: plain_chars_def)

lemma gmatch_lits: "gmatch (map GLit p @ ts) s \<longleftrightarrow> (\<exists>t. s = p @ t \<and> gmatch ts t)"
proof (induction p arbitrary: s)
  case (Cons c p)
  then show ?case by (cases s) auto
qed simp

lemma gmatch_any: "gmatch (GAny # ts) s \<longleftrightarrow> (\<exists>a b. s = a @ b \<and> gmatch ts b)"
proof (induction s)
  case (Cons x xs)
  have "(\<exists>a b. x # xs = a @ b \<and> gmatch ts b) \<longleftrightarrow>
        gmatch ts (x # xs) \<or> (\<exists>a b. xs = a @ b \<and> gmatch ts b)"
    by (metis append_Cons append_Nil append_eq_Cons_conv)
  with Cons.IH show ?case by simp
qed simp

lemma gmatch_any_last [simp]: "gmatch [GAny] s"
  by (induction s) auto

lemma fnmatch_plain: "plain_chars p \<Longrightarrow> fnmatch s p \<longleftrightarrow> s = p"
  using tokenise_plain_append [of p "[]"] gmatch_lits [of p "[]" s] by (auto simp: fnmatch_def)

lemma fnmatch_prefix: "plain_chars p \<Longrightarrow> fnmatch s (p @ ''*'') \<longleftrightarrow> startswith s p"
  using gmatch_lits [of p "[GAny]" s]
  by (auto simp: fnmatch_def tokenise_plain_append startswith_iff)

lemma fnmatch_infix: "plain_chars p \<Longrightarrow> fnmatch s (''*'' @ p @ ''*'') \<longleftrightarrow> str_in p s"
  by (auto simp: fnmatch_def tokenise_plain_append gmatch_any gmatch_lits str_in_iff)

lemma fnmatch_star [simp]: "fnmatch s ''*''"
  by (simp add: fnmatch_def)

lemma fnmatch_private [simp]: "fnmatch s ''_*'' \<longleftrightarrow> startswith s ''_''"
  using fnmatch_prefix [of "''_''" s] by (simp add: plain_chars_def)

lemma fnmatch_private_path [simp]: "fnmatch s ''*._*'' \<longleftrightarrow> str_in ''._'' s"
  using fnmatch_infix [of "''._''" s] by (simp add: plain_chars_def)

end
