(* ===== verification/PyObj.thy ===== *)
theory PyObj
  imports Prelude
begin

text \<open>
  The Python objects that the policy and the gates look at. An object is known
  by its identity; what the code asks of it (its type, whether it is a module,
  its method resolution order, its attributes) is a field of the record
  \<open>pyworld\<close>, over which every definition and theorem quantifies. A read that
  can run host code (\<open>getattr\<close>, \<open>importlib.import_module\<close>) returns a result
  that may be an exception; a static read (\<open>inspect.getattr_static\<close>) does not
  run anything.
\<close>

type_synonym oid = nat

definition py_None :: oid where
  "py_None = 0"

text \<open>
  What a value looks like to the type tests of the code: \<open>None\<close>, an exact
  \<open>str\<close>, a \<open>list\<close> or \<open>tuple\<close> (each item an exact \<open>str\<close> or something else), a
  getset, member or wrapper descriptor with its owning class, or anything else.
\<close>

datatype pyview =
    VNone
  | VStr string
  | VList "string option list"
  | VTuple "string option list"
  | VSlot oid
  | VOther

text \<open>The shapes that \<open>_carries_host_state\<close> distinguishes in a registered callable.\<close>

datatype pyfun =
    FPartial pyfun "pyfun list" "pyfun list"
  | FMethod bool string
  | FPlain
  | FCallable string
  | FValue

text \<open>
  \<open>_ExecModule\<close>: a module the embedder handed to one execution. Its instance
  dictionary holds the mapping it was given, and \<open>_st_exposed\<close> its keys.
\<close>

record exec_module =
  em_name :: string
  em_attributes :: "(string, oid) dict"

definition em_exposed :: "exec_module \<Rightarrow> string list" where
  "em_exposed m = map fst (em_attributes m)"

text \<open>
  \<open>method_func\<close> is the wrapped callable of a bound method (\<open>None\<close> for anything
  that is not one), \<open>slot_get\<close> the call of a C-level slot on an object,
  \<open>slot_owners\<close> the builtin types whose slots the attribute gate trusts.
\<close>

record pyworld =
  type_of :: "oid \<Rightarrow> oid"
  is_module :: "oid \<Rightarrow> bool"
  is_type :: "oid \<Rightarrow> bool"
  is_super :: "oid \<Rightarrow> bool"
  self_class :: "oid \<Rightarrow> oid option"
  this_class :: "oid \<Rightarrow> oid option"
  mro :: "oid \<Rightarrow> oid list"
  obj_name :: "oid \<Rightarrow> string option"
  cls_module :: "oid \<Rightarrow> string option"
  object_cls :: oid
  is_callable :: "oid \<Rightarrow> bool"
  get_attr :: "oid \<Rightarrow> string \<Rightarrow> oid res"
  import_module :: "string \<Rightarrow> oid res"
  static_attr :: "oid \<Rightarrow> string \<Rightarrow> oid option"
  view :: "oid \<Rightarrow> pyview"
  fun_shape :: "oid \<Rightarrow> pyfun"
  type_name :: "oid \<Rightarrow> string"
  is_str :: "oid \<Rightarrow> bool"
  exec_module_of :: "oid \<Rightarrow> exec_module option"
  method_func :: "oid \<Rightarrow> oid res option"
  slot_get :: "oid \<Rightarrow> oid \<Rightarrow> oid res"
  slot_owners :: "oid list"
  module_dict :: "oid \<Rightarrow> (string, oid) dict"
  find_spec :: "string \<Rightarrow> bool res"

text \<open>\<open>getattr(obj, attr, None)\<close>: only an \<open>AttributeError\<close> becomes \<open>None\<close>.\<close>

definition getattr_none :: "pyworld \<Rightarrow> oid \<Rightarrow> string \<Rightarrow> oid res" where
  "getattr_none w obj attr =
     rcatch (get_attr w obj attr) (\<lambda>c. c = AttributeError) (\<lambda>_. Inr py_None)"

text \<open>\<open>hasattr(obj, attr)\<close>.\<close>

definition has_attr :: "pyworld \<Rightarrow> oid \<Rightarrow> string \<Rightarrow> bool res" where
  "has_attr w obj attr =
     rcatch (rbind (get_attr w obj attr) (\<lambda>_. Inr True)) (\<lambda>c. c = AttributeError)
       (\<lambda>_. Inr False)"

text \<open>A world with nothing in it, from which concrete examples are built.\<close>

definition empty_world :: pyworld where
  "empty_world =
     \<lparr>type_of = (\<lambda>_. 1), is_module = (\<lambda>_. False), is_type = (\<lambda>_. False),
      is_super = (\<lambda>_. False), self_class = (\<lambda>_. None), this_class = (\<lambda>_. None),
      mro = (\<lambda>c. [c, 1]), obj_name = (\<lambda>_. None), cls_module = (\<lambda>_. None),
      object_cls = 1, is_callable = (\<lambda>_. False),
      get_attr = (\<lambda>_ a. Inl (Exc AttributeError a)),
      import_module = (\<lambda>m. Inl (Exc ImportError m)),
      static_attr = (\<lambda>_ _. None), view = (\<lambda>_. VOther), fun_shape = (\<lambda>_. FValue),
      type_name = (\<lambda>_. ''object''), is_str = (\<lambda>_. False), exec_module_of = (\<lambda>_. None),
      method_func = (\<lambda>_. None), slot_get = (\<lambda>_ _. Inl (Exc AttributeError [])),
      slot_owners = [], module_dict = (\<lambda>_. []), find_spec = (\<lambda>_. Inr False)\<rparr>"

end
