(* ===== verification/Policy.thy ===== *)
theory Policy
  imports Fnmatch PyObj
begin

text \<open>
  The policy (\<open>sandtrap/policy.py\<close>): patterns and the predicates compiled from
  them, the three kinds of registration, registering, the attribute and import
  decisions, module resolution and the kernel-relevant needs. The lemmas characterise the import decision by the nearest registered
  parent, show that resolution follows the same registration as the decision,
  and that a policy with the default filters hides private names everywhere.
\<close>

section \<open>Patterns\<close>

datatype pattern =
    NoPattern
  | Glob string
  | Pred "string \<Rightarrow> bool"
  | Patterns "pattern list"

fun make_predicate :: "pattern \<Rightarrow> string \<Rightarrow> bool" where
  "make_predicate NoPattern name = False"
| "make_predicate (Glob p) name = fnmatch name p"
| "make_predicate (Pred f) name = f name"
| "make_predicate (Patterns ps) name = list_ex (\<lambda>p. make_predicate p name) ps"

fun glob_text :: "pattern \<Rightarrow> string option" where
  "glob_text (Glob p) = Some p"
| "glob_text _ = None"

fun dotted_only :: "pattern \<Rightarrow> string list" where
  "dotted_only NoPattern = []"
| "dotted_only (Pred f) = []"
| "dotted_only (Glob p) = (if CHR ''.'' \<in> set p then [p] else [])"
| "dotted_only (Patterns ps) =
     filter (\<lambda>p. CHR ''.'' \<in> set p) (List.map_filter glob_text ps)"

definition qualified_names :: "pyworld \<Rightarrow> oid \<Rightarrow> string \<Rightarrow> string list" where
  "qualified_names w obj attr =
     (if is_module w obj then
        (case obj_name w obj of
           None \<Rightarrow> []
         | Some name \<Rightarrow> if name = [] then [] else [name @ ''.'' @ attr])
      else
        (let klass = (if is_type w obj then obj else type_of w obj)
         in map (\<lambda>c. (case obj_name w c of None \<Rightarrow> [] | Some n \<Rightarrow> n) @ ''.'' @ attr)
              (filter (\<lambda>c. c \<noteq> object_cls w) (mro w klass))))"

section \<open>Registrations\<close>

record member_spec =
  ms_host_fs :: bool
  ms_network :: bool
  ms_host_time :: bool

record fn_registration =
  fr_func :: oid
  fr_name :: string
  fr_host_fs :: bool
  fr_network :: bool
  fr_host_time :: bool

record cls_registration =
  cr_cls :: oid
  cr_name :: string
  cr_constructable :: bool
  cr_include :: pattern
  cr_exclude :: pattern
  cr_configure :: "(string, member_spec) dict"
  cr_host_fs :: bool
  cr_network :: bool
  cr_host_time :: bool

record module_registration =
  mr_obj :: oid
  mr_name :: string
  mr_include :: pattern
  mr_exclude :: pattern
  mr_configure :: "(string, member_spec) dict"
  mr_recursive :: bool
  mr_host_fs :: bool
  mr_network :: bool
  mr_host_time :: bool

datatype registration = CReg cls_registration | MReg module_registration

text \<open>The fields that class and module registrations share, read off either.\<close>

fun reg_include :: "registration \<Rightarrow> pattern" where
  "reg_include (CReg r) = cr_include r"
| "reg_include (MReg r) = mr_include r"

fun reg_exclude :: "registration \<Rightarrow> pattern" where
  "reg_exclude (CReg r) = cr_exclude r"
| "reg_exclude (MReg r) = mr_exclude r"

fun reg_configure :: "registration \<Rightarrow> (string, member_spec) dict" where
  "reg_configure (CReg r) = cr_configure r"
| "reg_configure (MReg r) = mr_configure r"

text \<open>\<open>getattr(reg, "recursive", False)\<close>: a class registration has no such field.\<close>

fun reg_recursive :: "registration \<Rightarrow> bool" where
  "reg_recursive (CReg r) = False"
| "reg_recursive (MReg r) = mr_recursive r"

text \<open>The predicates \<open>__post_init__\<close> compiles from the two filters.\<close>

definition include_pred :: "registration \<Rightarrow> string \<Rightarrow> bool" where
  "include_pred r = make_predicate (reg_include r)"

definition exclude_pred :: "registration \<Rightarrow> string \<Rightarrow> bool" where
  "exclude_pred r = make_predicate (reg_exclude r)"

definition include_qual_pred :: "registration \<Rightarrow> string \<Rightarrow> bool" where
  "include_qual_pred r = make_predicate (Patterns (map Glob (dotted_only (reg_include r))))"

definition exclude_qual_pred :: "registration \<Rightarrow> string \<Rightarrow> bool" where
  "exclude_qual_pred r = make_predicate (Patterns (map Glob (dotted_only (reg_exclude r))))"

section \<open>Name sets\<close>

definition BLOCKED_INTERNAL_ATTRS :: "string list" where
  "BLOCKED_INTERNAL_ATTRS =
     [''gi_frame'', ''gi_code'', ''gi_yieldfrom'', ''cr_frame'', ''cr_code'', ''cr_origin'',
      ''ag_frame'', ''ag_code'', ''ag_await'',
      ''f_globals'', ''f_locals'', ''f_builtins'', ''f_code'', ''f_back'']"

definition INTROSPECTION_DUNDERS :: "string list" where
  "INTROSPECTION_DUNDERS = [''__name__'', ''__qualname__'', ''__module__'', ''__doc__'']"

definition MODULE_METADATA_DUNDERS :: "string list" where
  "MODULE_METADATA_DUNDERS = [''__version__'', ''__author__'', ''__all__'']"

definition DEFAULT_ALLOWED_DUNDERS :: "string list" where
  "DEFAULT_ALLOWED_DUNDERS = INTROSPECTION_DUNDERS @
     [''__init__'', ''__str__'', ''__repr__'', ''__len__'', ''__iter__'', ''__next__'',
      ''__getitem__'', ''__setitem__'', ''__delitem__'', ''__contains__'', ''__eq__'',
      ''__ne__'', ''__lt__'', ''__le__'', ''__gt__'', ''__ge__'', ''__hash__'', ''__bool__'',
      ''__enter__'', ''__exit__'', ''__aenter__'', ''__aexit__'', ''__aiter__'', ''__anext__'',
      ''__add__'', ''__radd__'', ''__sub__'', ''__rsub__'', ''__mul__'', ''__rmul__'',
      ''__truediv__'', ''__rtruediv__'', ''__floordiv__'', ''__rfloordiv__'', ''__mod__'',
      ''__rmod__'', ''__pow__'', ''__rpow__'', ''__neg__'', ''__pos__'', ''__abs__'',
      ''__int__'', ''__float__'', ''__index__'', ''__call__'']"

text \<open>The value of a metadata dunder, accepted only as data.\<close>

datatype metadata = MetaStr string | MetaList "string list"

definition exact_items :: "string option list \<Rightarrow> string list option" where
  "exact_items xs = (if None \<in> set xs then None else Some (map the xs))"

definition module_metadata :: "pyworld \<Rightarrow> oid \<Rightarrow> string \<Rightarrow> metadata option" where
  "module_metadata w md name =
     (if \<not> is_module w md \<or> name \<notin> set MODULE_METADATA_DUNDERS then None
      else
        (case static_attr w md name of
           None \<Rightarrow> None
         | Some v \<Rightarrow>
             (case view w v of
                VStr s \<Rightarrow> if name \<noteq> ''__all__'' then Some (MetaStr s) else None
              | VList xs \<Rightarrow>
                  if name = ''__all__'' then map_option MetaList (exact_items xs) else None
              | VTuple xs \<Rightarrow>
                  if name = ''__all__'' then map_option MetaList (exact_items xs) else None
              | _ \<Rightarrow> None)))"

section \<open>The policy and registering\<close>

record policy =
  pol_functions :: "(string, fn_registration) dict"
  pol_classes :: "(string, cls_registration) dict"
  pol_modules :: "(string, module_registration) dict"
  reg_by_cls_id :: "(oid, cls_registration) dict"
  reg_by_module_id :: "(oid, module_registration) dict"
  allow_network :: bool
  timeout :: real
  memory_limit :: "nat option"
  max_stdout :: "nat option"
  stdout_keep :: string
  tick_limit :: "nat option"
  module_root :: string

definition Policy_init ::
  "real \<Rightarrow> nat option \<Rightarrow> nat option \<Rightarrow> string \<Rightarrow> bool \<Rightarrow> nat option \<Rightarrow> string \<Rightarrow> policy res" where
  "Policy_init tmo mem maxout keep net ticks mroot =
     (if keep \<noteq> ''tail'' \<and> keep \<noteq> ''ends'' then
        Inl (Exc ValueError (''stdout_keep must be tail or ends, not '' @ keep))
      else Inr \<lparr>pol_functions = [], pol_classes = [], pol_modules = [], reg_by_cls_id = [],
             reg_by_module_id = [], allow_network = net, timeout = tmo, memory_limit = mem,
             max_stdout = maxout, stdout_keep = keep, tick_limit = ticks, module_root = mroot\<rparr>)"

text \<open>\<open>Policy.fn\<close>: \<open>name or f.__name__\<close>; the deprecation warning is not an effect here.\<close>

definition policy_fn :: "pyworld \<Rightarrow> string option \<Rightarrow> fn_registration \<Rightarrow> policy \<Rightarrow> policy" where
  "policy_fn w name reg pol =
     (let fn_name = (case name of
            Some n \<Rightarrow> if n \<noteq> [] then n
                      else (case obj_name w (fr_func reg) of None \<Rightarrow> [] | Some m \<Rightarrow> m)
          | None \<Rightarrow> (case obj_name w (fr_func reg) of None \<Rightarrow> [] | Some m \<Rightarrow> m))
      in pol\<lparr>pol_functions := dset fn_name (reg\<lparr>fr_name := fn_name\<rparr>) (pol_functions pol)\<rparr>)"

definition policy_cls :: "pyworld \<Rightarrow> string option \<Rightarrow> cls_registration \<Rightarrow> policy \<Rightarrow> policy" where
  "policy_cls w name reg pol =
     (let cls_name = (case name of
            Some n \<Rightarrow> if n \<noteq> [] then n
                      else (case obj_name w (cr_cls reg) of None \<Rightarrow> [] | Some m \<Rightarrow> m)
          | None \<Rightarrow> (case obj_name w (cr_cls reg) of None \<Rightarrow> [] | Some m \<Rightarrow> m));
          r = reg\<lparr>cr_name := cls_name\<rparr>
      in pol\<lparr>pol_classes := dset cls_name r (pol_classes pol),
             reg_by_cls_id := dset (cr_cls reg) r (reg_by_cls_id pol)\<rparr>)"

definition policy_module ::
  "pyworld \<Rightarrow> string option \<Rightarrow> module_registration \<Rightarrow> policy \<Rightarrow> policy res" where
  "policy_module w name reg pol =
     (case (case name of
              None \<Rightarrow>
                if is_module w (mr_obj reg) then
                  Inr (case obj_name w (mr_obj reg) of None \<Rightarrow> [] | Some m \<Rightarrow> m)
                else Inl (Exc ValueError
                       ''name is required when registering a live object instance'')
            | Some n \<Rightarrow> Inr n) of
        Inl e \<Rightarrow> Inl e
      | Inr mod_name \<Rightarrow>
          let r = reg\<lparr>mr_name := mod_name\<rparr>
          in Inr (pol\<lparr>pol_modules := dset mod_name r (pol_modules pol),
                      reg_by_module_id := dset (mr_obj reg) r (reg_by_module_id pol)\<rparr>))"

section \<open>Needs\<close>

definition needs_network :: "policy \<Rightarrow> bool" where
  "needs_network pol =
     (allow_network pol
      \<or> list_ex (\<lambda>(_, r). fr_network r) (pol_functions pol)
      \<or> list_ex (\<lambda>(_, r). cr_network r \<or> list_ex (\<lambda>(_, s). ms_network s) (cr_configure r)) (pol_classes pol)
      \<or> list_ex (\<lambda>(_, r). mr_network r \<or> list_ex (\<lambda>(_, s). ms_network s) (mr_configure r)) (pol_modules pol))"

definition needs_host_fs :: "policy \<Rightarrow> bool" where
  "needs_host_fs pol =
     (list_ex (\<lambda>(_, r). fr_host_fs r) (pol_functions pol)
      \<or> list_ex (\<lambda>(_, r). cr_host_fs r \<or> list_ex (\<lambda>(_, s). ms_host_fs s) (cr_configure r)) (pol_classes pol)
      \<or> list_ex (\<lambda>(_, r). mr_host_fs r \<or> list_ex (\<lambda>(_, s). ms_host_fs s) (mr_configure r)) (pol_modules pol))"

section \<open>Dotted parents\<close>

text \<open>\<open>for i in range(len(parts) - 1, 0, -1): ".".join(parts[:i])\<close>.\<close>

definition parent_names :: "string \<Rightarrow> string list" where
  "parent_names name =
     (let parts = split_on CHR ''.'' name
      in map (\<lambda>i. join ''.'' (take i parts)) (rev [1..<length parts]))"

text \<open>The registration of the nearest registered parent.\<close>

fun first_registered ::
  "(string, module_registration) dict \<Rightarrow> string list \<Rightarrow> module_registration option" where
  "first_registered d [] = None"
| "first_registered d (n # ns) =
     (case dget d n of Some r \<Rightarrow> Some r | None \<Rightarrow> first_registered d ns)"

section \<open>Which registration applies to an object\<close>

definition index_of :: "'a \<Rightarrow> 'a list \<Rightarrow> nat option" where
  "index_of x xs = (if x \<in> set xs then Some (length (takeWhile (\<lambda>y. y \<noteq> x) xs)) else None)"

fun first_cls_reg :: "(oid, cls_registration) dict \<Rightarrow> oid list \<Rightarrow> cls_registration option" where
  "first_cls_reg d [] = None"
| "first_cls_reg d (c # cs) =
     (case dget d c of
        Some r \<Rightarrow> if c = cr_cls r then Some r else first_cls_reg d cs
      | None \<Rightarrow> first_cls_reg d cs)"

fun first_recursive_cover ::
  "string \<Rightarrow> (string, module_registration) dict \<Rightarrow> module_registration option" where
  "first_recursive_cover m [] = None"
| "first_recursive_cover m ((_, r) # d) =
     (if mr_recursive r \<and> (m = mr_name r \<or> startswith m (mr_name r @ ''.'')) then Some r
      else first_recursive_cover m d)"

definition find_super_registration :: "pyworld \<Rightarrow> policy \<Rightarrow> oid \<Rightarrow> registration option" where
  "find_super_registration w pol obj =
     (case self_class w obj of
        None \<Rightarrow> None
      | Some sc \<Rightarrow>
          (let m = mro w sc;
               start = (case this_class w obj of
                          None \<Rightarrow> 0
                        | Some tc \<Rightarrow> (case index_of tc m of None \<Rightarrow> 0 | Some i \<Rightarrow> i + 1))
           in map_option CReg (first_cls_reg (reg_by_cls_id pol) (drop start m))))"

definition find_class_registration :: "pyworld \<Rightarrow> policy \<Rightarrow> oid \<Rightarrow> registration option" where
  "find_class_registration w pol obj =
     (let t = type_of w obj in
      case dget (reg_by_cls_id pol) t of
        Some r \<Rightarrow> if t = cr_cls r then Some (CReg r) else None
      | None \<Rightarrow> None)"

definition find_own_class_registration :: "pyworld \<Rightarrow> policy \<Rightarrow> oid \<Rightarrow> registration option" where
  "find_own_class_registration w pol obj =
     (if is_type w obj then
        (case dget (reg_by_cls_id pol) obj of
           Some r \<Rightarrow> if obj = cr_cls r then Some (CReg r) else None
         | None \<Rightarrow> None)
      else None)"

definition find_covering_registration :: "pyworld \<Rightarrow> policy \<Rightarrow> oid \<Rightarrow> registration option" where
  "find_covering_registration w pol obj =
     (case cls_module w (type_of w obj) of
        None \<Rightarrow> None
      | Some m \<Rightarrow>
          if m = [] then None else map_option MReg (first_recursive_cover m (pol_modules pol)))"

text \<open>A module object: the registration under its own identity, else the nearest parent's.\<close>

definition find_module_registration ::
  "pyworld \<Rightarrow> policy \<Rightarrow> oid \<Rightarrow> module_registration option" where
  "find_module_registration w pol obj =
     (case dget (reg_by_module_id pol) obj of
        Some r \<Rightarrow> if obj = mr_obj r then Some r else None
      | None \<Rightarrow> None)"

definition find_parent_registration ::
  "pyworld \<Rightarrow> policy \<Rightarrow> oid \<Rightarrow> module_registration option" where
  "find_parent_registration w pol obj =
     (if is_module w obj then
        first_registered (pol_modules pol)
          (parent_names (case obj_name w obj of None \<Rightarrow> [] | Some n \<Rightarrow> n))
      else None)"

definition find_registration_for :: "pyworld \<Rightarrow> policy \<Rightarrow> oid \<Rightarrow> registration option" where
  "find_registration_for w pol obj =
     (if obj = py_None then None
      else if is_super w obj then find_super_registration w pol obj
      else
        (case find_module_registration w pol obj of
           Some r \<Rightarrow> Some (MReg r)
         | None \<Rightarrow>
        (case find_parent_registration w pol obj of
           Some r \<Rightarrow> if mr_recursive r then Some (MReg r) else None
         | None \<Rightarrow>
        (case find_class_registration w pol obj of
           Some r \<Rightarrow> Some r
         | None \<Rightarrow>
        (case find_own_class_registration w pol obj of
           Some r \<Rightarrow> Some r
         | None \<Rightarrow> find_covering_registration w pol obj)))))"

section \<open>The attribute decision\<close>

definition included :: "registration \<Rightarrow> string \<Rightarrow> string list \<Rightarrow> bool" where
  "included r attr quals = (include_pred r attr \<or> list_ex (include_qual_pred r) quals)"

definition excluded :: "registration \<Rightarrow> string \<Rightarrow> string list \<Rightarrow> bool" where
  "excluded r attr quals = (exclude_pred r attr \<or> list_ex (exclude_qual_pred r) quals)"

text \<open>The rules for an object that no registration applies to.\<close>

definition default_attr_rule :: "pyworld \<Rightarrow> oid \<Rightarrow> string \<Rightarrow> bool" where
  "default_attr_rule w obj attr =
     (if attr \<in> set BLOCKED_INTERNAL_ATTRS then False
      else if startswith attr ''__'' \<and> endswith attr ''__'' then
        (if attr \<in> set MODULE_METADATA_DUNDERS then is_module w obj
         else attr \<in> set DEFAULT_ALLOWED_DUNDERS)
      else \<not> startswith attr ''_'')"

definition registered_attr_rule ::
  "pyworld \<Rightarrow> policy \<Rightarrow> registration \<Rightarrow> oid \<Rightarrow> string \<Rightarrow> bool res" where
  "registered_attr_rule w pol reg obj attr =
     (if dmem attr (reg_configure reg) then Inr True
      else if attr \<in> set INTROSPECTION_DUNDERS then Inr True
      else if attr \<in> set MODULE_METADATA_DUNDERS \<and> is_module w obj then Inr True
      else
        (let quals = qualified_names w obj attr in
         if \<not> included reg attr quals then
           rbind (getattr_none w obj attr)
             (\<lambda>sub. Inr (sub \<noteq> py_None \<and> find_registration_for w pol sub \<noteq> None))
         else if excluded reg attr quals then Inr False
         else if \<not> reg_recursive reg then
           rbind (getattr_none w obj attr)
             (\<lambda>sub. Inr (\<not> (is_module w sub \<and> find_registration_for w pol sub = None)))
         else Inr True))"

definition is_attr_allowed :: "pyworld \<Rightarrow> policy \<Rightarrow> oid \<Rightarrow> string \<Rightarrow> bool res" where
  "is_attr_allowed w pol obj attr =
     (case find_registration_for w pol obj of
        Some reg \<Rightarrow> registered_attr_rule w pol reg obj attr
      | None \<Rightarrow> Inr (default_attr_rule w obj attr))"

section \<open>The import decision and module resolution\<close>

definition is_import_allowed :: "policy \<Rightarrow> string \<Rightarrow> bool" where
  "is_import_allowed pol name =
     (if dmem name (pol_modules pol) then True
      else
        (case first_registered (pol_modules pol) (parent_names name) of
           None \<Rightarrow> False
         | Some r \<Rightarrow>
             if \<not> mr_recursive r then False
             else if exclude_qual_pred (MReg r) name then False
             else if exclude_pred (MReg r) (snd (rpartition CHR ''.'' name)) then False
             else True))"

text \<open>The first parent that is registered and recursive: its registration and its name.\<close>

fun first_recursive ::
  "(string, module_registration) dict \<Rightarrow> string list \<Rightarrow> (string \<times> module_registration) option" where
  "first_recursive d [] = None"
| "first_recursive d (n # ns) =
     (case dget d n of
        Some r \<Rightarrow> if mr_recursive r then Some (n, r) else first_recursive d ns
      | None \<Rightarrow> first_recursive d ns)"

text \<open>Walking down from a module, importing a submodule that is not yet an attribute.\<close>

fun walk_parts :: "pyworld \<Rightarrow> oid \<Rightarrow> string \<Rightarrow> string list \<Rightarrow> oid res" where
  "walk_parts w obj path [] = Inr obj"
| "walk_parts w obj path (part # rest) =
     (let path' = path @ ''.'' @ part in
      rbind (rcatch (get_attr w obj part) (\<lambda>c. c = AttributeError)
               (\<lambda>_. import_module w path'))
        (\<lambda>obj'. walk_parts w obj' path' rest))"

definition resolve_module :: "pyworld \<Rightarrow> policy \<Rightarrow> string \<Rightarrow> oid res" where
  "resolve_module w pol name =
     (case dget (pol_modules pol) name of
        Some r \<Rightarrow> Inr (mr_obj r)
      | None \<Rightarrow>
          (case first_recursive (pol_modules pol) (parent_names name) of
             Some (parent, r) \<Rightarrow>
               walk_parts w (mr_obj r) parent
                 (drop (length (split_on CHR ''.'' parent)) (split_on CHR ''.'' name))
           | None \<Rightarrow> Inl (Exc ImportError (''Module '' @ name @ '' not registered''))))"

text \<open>A resolved member is an object, or a module's metadata handed over as data.\<close>

datatype member = MemberObj oid | MemberMeta metadata

definition resolve_module_member ::
  "pyworld \<Rightarrow> policy \<Rightarrow> string \<Rightarrow> string \<Rightarrow> member res" where
  "resolve_module_member w pol mname member =
     (if \<not> is_import_allowed pol mname then
        Inl (Exc ImportError (''Import from '' @ mname @ '' is not allowed''))
      else
        (case (case dget (pol_modules pol) mname of
                 Some r \<Rightarrow> Some r
               | None \<Rightarrow> map_option snd (first_recursive (pol_modules pol) (parent_names mname))) of
           None \<Rightarrow> Inl (Exc ImportError (''Module '' @ mname @ '' not registered''))
         | Some r \<Rightarrow>
             let qual = mname @ ''.'' @ member in
             if member \<in> set MODULE_METADATA_DUNDERS then
               rbind (resolve_module w pol mname)
                 (\<lambda>md. case module_metadata w md member of
                    None \<Rightarrow> Inl (Exc ImportError (''cannot import name '' @ member))
                  | Some v \<Rightarrow> Inr (MemberMeta v))
             else if \<not> included (MReg r) member [qual] \<or> excluded (MReg r) member [qual] then
               Inl (Exc ImportError (member @ '' is not available from '' @ mname))
             else
               rbind (resolve_module w pol mname)
                 (\<lambda>md. rbind (has_attr w md member)
                   (\<lambda>present. rbind
                      (if present then get_attr w md member
                       else rcatch (import_module w qual)
                              (\<lambda>c. c = ImportError \<or> c = ModuleNotFoundError)
                              (\<lambda>_. Inl (Exc ImportError
                                 (''Module '' @ mname @ '' has no attribute '' @ member))))
                      (\<lambda>cand. if is_module w cand \<and> \<not> is_import_allowed pol qual
                              then Inl (Exc ImportError (''Submodule '' @ qual @ '' is not allowed''))
                              else Inr (MemberObj cand))))))"

section \<open>Parents of a dotted name\<close>

lemma parent_names_iff: "p \<in> set (parent_names m) \<longleftrightarrow> (\<exists>q. m = p @ ''.'' @ q)"
proof
  assume "p \<in> set (parent_names m)"
  then obtain i where i: "0 < i" "i < length (split_on CHR ''.'' m)"
    and p: "p = join ''.'' (take i (split_on CHR ''.'' m))"
    by (auto simp: parent_names_def Let_def Suc_le_eq)
  let ?ps = "split_on CHR ''.'' m"
  have "m = join ''.'' (take i ?ps @ drop i ?ps)" by simp
  also have "\<dots> = p @ ''.'' @ join ''.'' (drop i ?ps)"
    unfolding p by (rule join_append) (use i in auto)
  finally show "\<exists>q. m = p @ ''.'' @ q" ..
next
  assume "\<exists>q. m = p @ ''.'' @ q"
  then obtain q where m: "m = p @ CHR ''.'' # q" by auto
  let ?i = "length (split_on CHR ''.'' p)"
  have sp: "split_on CHR ''.'' m = split_on CHR ''.'' p @ split_on CHR ''.'' q"
    by (simp add: m split_on_append)
  have "p = join ''.'' (take ?i (split_on CHR ''.'' m))" by (simp add: sp)
  moreover have "?i \<in> set (rev [1..<length (split_on CHR ''.'' m)])"
    using split_on_not_Nil [of "CHR ''.''" p] split_on_not_Nil [of "CHR ''.''" q]
    by (auto simp: sp Suc_le_eq simp del: split_on_not_Nil)
  ultimately show "p \<in> set (parent_names m)"
    unfolding parent_names_def Let_def set_map by (rule image_eqI)
qed

lemma parent_names_sorted: "sorted_wrt (\<lambda>a b. length b < length a) (parent_names m)"
proof -
  let ?ps = "split_on CHR ''.'' m"
  have "sorted_wrt (\<lambda>i j. length (join ''.'' (take j ?ps)) < length (join ''.'' (take i ?ps)))
          (rev [1..<length ?ps])"
    by (rule sorted_wrt_mono_rel [of _ "\<lambda>i j. j < i"])
      (auto intro: length_join_take_less simp: sorted_wrt_rev)
  then show ?thesis by (simp add: parent_names_def Let_def sorted_wrt_map)
qed

lemma first_registered_SomeE:
  assumes "first_registered d ns = Some r"
  obtains xs n ys where "ns = xs @ n # ys" "dget d n = Some r" "\<forall>x \<in> set xs. dget d x = None"
proof -
  have "\<exists>xs n ys. ns = xs @ n # ys \<and> dget d n = Some r \<and> (\<forall>x \<in> set xs. dget d x = None)"
    using assms
  proof (induction ns)
    case (Cons n ns)
    show ?case
    proof (cases "dget d n")
      case None
      with Cons obtain xs k ys
        where "ns = xs @ k # ys" "dget d k = Some r" "\<forall>x \<in> set xs. dget d x = None" by auto
      with None have "n # ns = (n # xs) @ k # ys \<and> dget d k = Some r
          \<and> (\<forall>x \<in> set (n # xs). dget d x = None)" by simp
      then show ?thesis by blast
    next
      case (Some r')
      with Cons.prems have "n # ns = [] @ n # ns \<and> dget d n = Some r \<and> (\<forall>x \<in> set []. dget d x = None)"
        by simp
      then show ?thesis by blast
    qed
  qed simp
  then show thesis using that by blast
qed

lemma first_registered_None: "first_registered d ns = None \<longleftrightarrow> (\<forall>n \<in> set ns. dget d n = None)"
  by (induction ns) (auto split: option.splits)

text \<open>
  The reference notion: the longest proper dotted prefix of a name that is registered.
\<close>

definition nearest_parent :: "policy \<Rightarrow> string \<Rightarrow> string \<Rightarrow> module_registration \<Rightarrow> bool" where
  "nearest_parent pol m p r \<longleftrightarrow>
     (\<exists>q. m = p @ ''.'' @ q) \<and> dget (pol_modules pol) p = Some r \<and>
     (\<forall>p' q'. m = p' @ ''.'' @ q' \<and> dmem p' (pol_modules pol) \<longrightarrow> length p' \<le> length p)"

lemma nearest_parent_unique:
  assumes "nearest_parent pol m p r" "nearest_parent pol m p' r'"
  shows "p = p' \<and> r = r'"
proof -
  have "length p' \<le> length p" "length p \<le> length p'"
    using assms unfolding nearest_parent_def dmem_iff by blast+
  then have "length p = length p'" by simp
  with assms have "p = p'" by (auto simp: nearest_parent_def)
  with assms show ?thesis by (auto simp: nearest_parent_def)
qed

lemma first_registered_nearest:
  "first_registered (pol_modules pol) (parent_names m) = Some r \<longleftrightarrow> (\<exists>p. nearest_parent pol m p r)"
proof -
  have fwd: "\<exists>p. nearest_parent pol m p r'"
    if "first_registered (pol_modules pol) (parent_names m) = Some r'" for r'
    using that
  proof (rule first_registered_SomeE)
    fix xs n ys
    assume ns: "parent_names m = xs @ n # ys" and n: "dget (pol_modules pol) n = Some r'"
      and xs: "\<forall>x \<in> set xs. dget (pol_modules pol) x = None"
    have "length p' \<le> length n" if "m = p' @ ''.'' @ q'" "dmem p' (pol_modules pol)" for p' q'
    proof -
      have "p' \<in> set (parent_names m)" using that parent_names_iff by blast
      then have "p' \<in> set xs \<or> p' = n \<or> p' \<in> set ys" unfolding ns by auto
      moreover have "p' \<notin> set xs" using that(2) xs by (auto simp: dmem_iff)
      ultimately have "p' = n \<or> p' \<in> set ys" by blast
      with parent_names_sorted [of m] show ?thesis by (auto simp: ns sorted_wrt_append)
    qed
    moreover have "\<exists>q. m = n @ ''.'' @ q" using ns parent_names_iff [of n m] by auto
    ultimately show ?thesis using n by (auto simp: nearest_parent_def)
  qed
  show ?thesis
  proof
    assume "\<exists>p. nearest_parent pol m p r"
    then obtain p where p: "nearest_parent pol m p r" ..
    then have "p \<in> set (parent_names m)" "dget (pol_modules pol) p = Some r"
      unfolding parent_names_iff by (auto simp: nearest_parent_def)
    then obtain r' where r': "first_registered (pol_modules pol) (parent_names m) = Some r'"
      by (metis first_registered_None not_Some_eq option.distinct(1))
    with fwd p nearest_parent_unique show "first_registered (pol_modules pol) (parent_names m) = Some r"
      by blast
  qed (rule fwd)
qed

lemma first_registered_recursive:
  "first_registered d ns = Some r \<Longrightarrow> mr_recursive r \<Longrightarrow> \<exists>n. first_recursive d ns = Some (n, r)"
  by (induction ns) (auto split: option.splits if_splits)

lemma first_registered_prefix:
  "first_registered d ns = Some r \<Longrightarrow> mr_recursive r \<Longrightarrow>
   first_recursive d ns = Some (n, r') \<Longrightarrow> \<exists>xs ys. ns = xs @ n # ys \<and> (\<forall>x \<in> set xs. dget d x = None)"
proof (induction ns)
  case (Cons k ns)
  show ?case
  proof (cases "dget d k")
    case None
    with Cons obtain xs ys where "ns = xs @ n # ys" "\<forall>x \<in> set xs. dget d x = None" by auto
    with None have "k # ns = (k # xs) @ n # ys \<and> (\<forall>x \<in> set (k # xs). dget d x = None)" by simp
    then show ?thesis by blast
  next
    case (Some r0)
    with Cons.prems have "k # ns = [] @ n # ns \<and> (\<forall>x \<in> set []. dget d x = None)" by auto
    then show ?thesis by blast
  qed
qed simp

lemma first_recursive_mem: "first_recursive d ns = Some (n, r) \<Longrightarrow> n \<in> set ns \<and> dget d n = Some r \<and> mr_recursive r"
  by (induction ns) (auto split: option.splits if_splits)

lemma nearest_first_recursive:
  assumes p: "nearest_parent pol m p r" and "mr_recursive r"
    and rec: "first_recursive (pol_modules pol) (parent_names m) = Some (n, r')"
  shows "n = p"
proof -
  have "first_registered (pol_modules pol) (parent_names m) = Some r"
    using p first_registered_nearest by blast
  with assms obtain xs ys where ns: "parent_names m = xs @ n # ys"
    and xs: "\<forall>x \<in> set xs. dget (pol_modules pol) x = None"
    using first_registered_prefix by blast
  have "p \<in> set (parent_names m)" using p parent_names_iff by (auto simp: nearest_parent_def)
  with xs p have "p = n \<or> p \<in> set ys" by (auto simp: ns nearest_parent_def)
  moreover have "length n \<le> length p"
    using p ns rec parent_names_iff [of n m] first_recursive_mem
    by (fastforce simp: nearest_parent_def dmem_iff)
  ultimately show ?thesis using parent_names_sorted [of m] by (auto simp: ns sorted_wrt_append)
qed

lemma import_allowed_cases:
  assumes "is_import_allowed pol m" "\<not> dmem m (pol_modules pol)"
  shows "\<exists>p r. nearest_parent pol m p r \<and> mr_recursive r \<and> \<not> exclude_qual_pred (MReg r) m"
proof -
  obtain r where r: "first_registered (pol_modules pol) (parent_names m) = Some r"
    "mr_recursive r" "\<not> exclude_qual_pred (MReg r) m"
    using assms by (auto simp: is_import_allowed_def split: option.splits if_splits)
  with first_registered_nearest show ?thesis by blast
qed

lemma rpartition_snd: "snd (rpartition c s) = last (split_on c s)"
  by (simp add: rpartition_def Let_def)

section \<open>The registrations of a policy\<close>

text \<open>Every registration that a lookup can return: the two named dictionaries and the two indexes.\<close>

definition registrations :: "policy \<Rightarrow> registration list" where
  "registrations pol =
     map (CReg \<circ> snd) (pol_classes pol) @ map (CReg \<circ> snd) (reg_by_cls_id pol)
     @ map (MReg \<circ> snd) (pol_modules pol) @ map (MReg \<circ> snd) (reg_by_module_id pol)"

lemma dget_mem: "dget d k = Some v \<Longrightarrow> v \<in> snd ` set d"
  by (force dest!: map_of_SomeD)

lemma first_cls_reg_mem: "first_cls_reg d cs = Some r \<Longrightarrow> r \<in> snd ` set d"
  by (induction cs) (auto split: option.splits if_splits dest: dget_mem)

lemma first_registered_mem: "first_registered d ns = Some r \<Longrightarrow> r \<in> snd ` set d"
  by (induction ns) (auto split: option.splits dest: dget_mem)

lemma first_recursive_cover_mem: "first_recursive_cover m d = Some r \<Longrightarrow> r \<in> snd ` set d"
  by (induction m d rule: first_recursive_cover.induct) (auto split: if_splits)

lemmas lookup_mem = first_cls_reg_mem first_registered_mem first_recursive_cover_mem dget_mem

lemma creg_mem: "r \<in> snd ` set (reg_by_cls_id pol) \<Longrightarrow> CReg r \<in> set (registrations pol)"
  and mreg_mem: "r' \<in> snd ` set (pol_modules pol) \<Longrightarrow> MReg r' \<in> set (registrations pol)"
  and mreg_id_mem: "r' \<in> snd ` set (reg_by_module_id pol) \<Longrightarrow> MReg r' \<in> set (registrations pol)"
  by (force simp: registrations_def)+

lemma find_class_registration_mem:
  "find_class_registration w pol obj = Some reg \<Longrightarrow> reg \<in> set (registrations pol)"
  by (auto simp: find_class_registration_def Let_def split: option.splits if_splits
      intro!: creg_mem dest!: lookup_mem)

lemma find_own_class_registration_mem:
  "find_own_class_registration w pol obj = Some reg \<Longrightarrow> reg \<in> set (registrations pol)"
  by (auto simp: find_own_class_registration_def split: option.splits if_splits
      intro!: creg_mem dest!: lookup_mem)

lemma find_super_registration_mem:
  "find_super_registration w pol obj = Some reg \<Longrightarrow> reg \<in> set (registrations pol)"
  by (auto simp: find_super_registration_def Let_def split: option.splits
      intro!: creg_mem dest!: lookup_mem)

lemma find_covering_registration_mem:
  "find_covering_registration w pol obj = Some reg \<Longrightarrow> reg \<in> set (registrations pol)"
  by (auto simp: find_covering_registration_def split: option.splits if_splits
      intro!: mreg_mem dest!: lookup_mem)

lemma find_module_registration_mem:
  "find_module_registration w pol obj = Some r \<Longrightarrow> MReg r \<in> set (registrations pol)"
  by (auto simp: find_module_registration_def split: option.splits if_splits
      intro!: mreg_id_mem dest!: lookup_mem)

lemma find_parent_registration_mem:
  "find_parent_registration w pol obj = Some r \<Longrightarrow> MReg r \<in> set (registrations pol)"
  by (auto simp: find_parent_registration_def split: if_splits intro!: mreg_mem dest!: lookup_mem)

lemma find_registration_for_mem:
  assumes "find_registration_for w pol obj = Some reg"
  shows "reg \<in> set (registrations pol)"
  using assms unfolding find_registration_for_def
  by (auto split: if_splits option.splits
      intro: find_class_registration_mem find_own_class_registration_mem
        find_super_registration_mem find_covering_registration_mem
        find_module_registration_mem find_parent_registration_mem)

section \<open>Default filters\<close>

fun default_filters :: "registration \<Rightarrow> bool" where
  "default_filters (CReg r) =
     (glob_text (cr_include r) = Some ''*'' \<and> glob_text (cr_exclude r) = Some ''_*'')"
| "default_filters (MReg r) =
     (glob_text (mr_include r) = Some ''*'' \<and>
      (case mr_exclude r of
         Patterns ps \<Rightarrow> map glob_text ps = [Some ''_*'', Some ''*._*'']
       | _ \<Rightarrow> False))"

definition default_policy :: "policy \<Rightarrow> bool" where
  "default_policy pol = list_all default_filters (registrations pol)"

lemma glob_text_Some [simp]: "glob_text p = Some s \<longleftrightarrow> p = Glob s"
  by (cases p) auto

lemma default_includes: "default_filters r \<Longrightarrow> included r attr quals"
  by (cases r) (auto simp: included_def include_pred_def)

lemma default_excludes_private:
  "default_filters r \<Longrightarrow> startswith attr ''_'' \<Longrightarrow> excluded r attr quals"
  by (cases r) (auto simp: excluded_def exclude_pred_def split: pattern.splits)

lemma default_module_exclude:
  assumes "default_filters (MReg r)"
  shows "mr_exclude r = Patterns [Glob ''_*'', Glob ''*._*'']"
  using assms by (auto split: pattern.splits)

section \<open>Well-formed policies\<close>

text \<open>
  The dictionaries of a policy agree: keys are unique, a registration is stored
  under its own name, an index entry under the identity of its own object, and
  every registered class and module object can be found through its index.
\<close>

definition policy_wf :: "policy \<Rightarrow> bool" where
  "policy_wf pol \<longleftrightarrow>
     distinct (map fst (pol_functions pol)) \<and> distinct (map fst (pol_classes pol)) \<and>
     distinct (map fst (pol_modules pol)) \<and> distinct (map fst (reg_by_cls_id pol)) \<and>
     distinct (map fst (reg_by_module_id pol)) \<and>
     (\<forall>(n, r) \<in> set (pol_functions pol). fr_name r = n) \<and>
     (\<forall>(n, r) \<in> set (pol_classes pol). cr_name r = n \<and> dmem (cr_cls r) (reg_by_cls_id pol)) \<and>
     (\<forall>(n, r) \<in> set (pol_modules pol). mr_name r = n \<and> dmem (mr_obj r) (reg_by_module_id pol)) \<and>
     (\<forall>(i, r) \<in> set (reg_by_cls_id pol). cr_cls r = i) \<and>
     (\<forall>(i, r) \<in> set (reg_by_module_id pol). mr_obj r = i)"

lemma set_dset_subset: "x \<in> set (dset k v d) \<Longrightarrow> x = (k, v) \<or> x \<in> set d"
  by (induction d) (auto split: if_splits)

lemma dmem_dset [simp]: "dmem k' (dset k v d) \<longleftrightarrow> k' = k \<or> dmem k' d"
  by (auto simp: dmem_iff)

lemma policy_wf_fn: "policy_wf pol \<Longrightarrow> policy_wf (policy_fn w name reg pol)"
  by (auto simp: policy_wf_def policy_fn_def Let_def dest!: set_dset_subset)

lemma policy_wf_cls: "policy_wf pol \<Longrightarrow> policy_wf (policy_cls w name reg pol)"
  unfolding policy_wf_def policy_cls_def Let_def
  by (fastforce dest!: set_dset_subset)

lemma policy_wf_module:
  "policy_wf pol \<Longrightarrow> policy_module w name reg pol = Inr pol' \<Longrightarrow> policy_wf pol'"
  unfolding policy_wf_def policy_module_def Let_def
  by (fastforce dest!: set_dset_subset split: sum.splits)

text \<open>One registration call on a policy.\<close>

datatype reg_call =
    CallFn "string option" fn_registration
  | CallCls "string option" cls_registration
  | CallModule "string option" module_registration

fun apply_call :: "pyworld \<Rightarrow> reg_call \<Rightarrow> policy \<Rightarrow> policy res" where
  "apply_call w (CallFn n r) pol = Inr (policy_fn w n r pol)"
| "apply_call w (CallCls n r) pol = Inr (policy_cls w n r pol)"
| "apply_call w (CallModule n r) pol = policy_module w n r pol"

fun apply_calls :: "pyworld \<Rightarrow> reg_call list \<Rightarrow> policy \<Rightarrow> policy res" where
  "apply_calls w [] pol = Inr pol"
| "apply_calls w (c # cs) pol = rbind (apply_call w c pol) (apply_calls w cs)"

lemma policy_wf_init: "Policy_init tmo mem mo k net tk mroot = Inr pol \<Longrightarrow> policy_wf pol"
  by (auto simp: Policy_init_def policy_wf_def split: if_splits)

lemma policy_wf_call: "policy_wf pol \<Longrightarrow> apply_call w c pol = Inr pol' \<Longrightarrow> policy_wf pol'"
  by (cases c) (auto intro: policy_wf_fn policy_wf_cls policy_wf_module)

lemma policy_wf_calls: "policy_wf pol \<Longrightarrow> apply_calls w cs pol = Inr pol' \<Longrightarrow> policy_wf pol'"
  by (induction cs arbitrary: pol) (auto simp: rbind_eq_Inr_iff intro: policy_wf_call)

section \<open>Example policies\<close>

definition empty_policy :: policy where
  "empty_policy =
     \<lparr>pol_functions = [], pol_classes = [], pol_modules = [], reg_by_cls_id = [],
      reg_by_module_id = [], allow_network = False, timeout = 30, memory_limit = None,
      max_stdout = None, stdout_keep = ''tail'', tick_limit = None, module_root = ''/''\<rparr>"

definition ex_module_reg :: module_registration where
  "ex_module_reg =
     \<lparr>mr_obj = 10, mr_name = ''numpy'', mr_include = Glob ''*'',
      mr_exclude = Patterns [Glob ''_*'', Glob ''*._*''], mr_configure = [],
      mr_recursive = True, mr_host_fs = False, mr_network = False, mr_host_time = False\<rparr>"

definition ex_policy :: policy where
  "ex_policy = empty_policy\<lparr>pol_modules := [(''numpy'', ex_module_reg)],
                           reg_by_module_id := [(10, ex_module_reg)]\<rparr>"

definition ex_cls_reg :: "oid \<Rightarrow> string \<Rightarrow> string list \<Rightarrow> cls_registration" where
  "ex_cls_reg c n inc =
     \<lparr>cr_cls = c, cr_name = n, cr_constructable = True, cr_include = Patterns (map Glob inc),
      cr_exclude = Glob ''_*'', cr_configure = [], cr_host_fs = False, cr_network = False,
      cr_host_time = False\<rparr>"

text \<open>Two registered classes, 20 and 21; object 30 is a 20 whose attribute \<open>_b\<close> is a 21.\<close>

definition ex_two_classes :: policy where
  "ex_two_classes = empty_policy\<lparr>
     pol_classes := [(''A'', ex_cls_reg 20 ''A'' [''x'']), (''B'', ex_cls_reg 21 ''B'' [''*''])],
     reg_by_cls_id := [(20, ex_cls_reg 20 ''A'' [''x'']), (21, ex_cls_reg 21 ''B'' [''*''])]\<rparr>"

definition ex_world :: pyworld where
  "ex_world = empty_world\<lparr>
     type_of := (\<lambda>x. if x = 30 then 20 else if x = 31 then 21 else 1),
     is_module := (\<lambda>x. x = 10 \<or> x = 11),
     obj_name := (\<lambda>x. if x = 10 then Some ''numpy'' else if x = 11 then Some ''numpy.random'' else None),
     get_attr := (\<lambda>x a. if x = 30 \<and> a = ''_b'' then Inr 31
                        else if x = 10 \<and> a = ''random'' then Inr 11
                        else Inl (Exc AttributeError a))\<rparr>"

lemmas ex_defs = empty_policy_def ex_module_reg_def ex_policy_def ex_cls_reg_def
  ex_two_classes_def ex_world_def empty_world_def

section \<open>Properties of the import decision\<close>

text \<open>
  C12: a module may be imported exactly when it is registered, or when its
  longest registered proper dotted prefix is registered as recursive and
  excludes neither the full path (dotted patterns) nor the last segment.
\<close>

theorem import_allowed_iff:
  "is_import_allowed pol m \<longleftrightarrow>
     dmem m (pol_modules pol) \<or>
     (\<exists>p r. nearest_parent pol m p r \<and> mr_recursive r \<and>
        \<not> exclude_qual_pred (MReg r) m \<and> \<not> exclude_pred (MReg r) (last (split_on CHR ''.'' m)))"
  (is "?L \<longleftrightarrow> ?R")
proof (cases "first_registered (pol_modules pol) (parent_names m)")
  case None
  then show ?thesis
    by (auto simp: is_import_allowed_def) (metis first_registered_nearest option.distinct(1))
next
  case (Some r)
  then obtain p where p: "nearest_parent pol m p r" using first_registered_nearest by blast
  have "(\<exists>p' r'. nearest_parent pol m p' r' \<and> Q r') \<longleftrightarrow> Q r" for Q
    using p nearest_parent_unique by blast
  with Some show ?thesis by (simp add: is_import_allowed_def rpartition_snd)
qed

text \<open>
  When a submodule import is allowed, resolving the name starts from the
  object of the same registration that decided it, the nearest registered
  parent, and walks exactly the remaining segments.
\<close>

theorem resolve_follows_decision:
  assumes "is_import_allowed pol m" and "\<not> dmem m (pol_modules pol)"
  shows "\<exists>p q r. nearest_parent pol m p r \<and> m = p @ ''.'' @ q \<and>
           resolve_module w pol m = walk_parts w (mr_obj r) p (split_on CHR ''.'' q)"
proof -
  obtain r where r: "first_registered (pol_modules pol) (parent_names m) = Some r" "mr_recursive r"
    using assms by (auto simp: is_import_allowed_def split: option.splits if_splits)
  then obtain n where n: "first_recursive (pol_modules pol) (parent_names m) = Some (n, r)"
    using first_registered_recursive by blast
  obtain p where p: "nearest_parent pol m p r" using r(1) first_registered_nearest by blast
  then have "p = n" using nearest_first_recursive n r(2) by blast
  moreover obtain q where q: "m = p @ ''.'' @ q" using p by (auto simp: nearest_parent_def)
  moreover have "split_on CHR ''.'' m = split_on CHR ''.'' p @ split_on CHR ''.'' q"
    by (simp add: q split_on_append)
  moreover have "dget (pol_modules pol) m = None" using assms(2) by (auto simp: dmem_iff)
  ultimately show ?thesis using p n by (auto simp: resolve_module_def)
qed

theorem resolve_follows_decision_witness:
  "\<exists>p q r. nearest_parent ex_policy ''numpy.random'' p r \<and> ''numpy.random'' = p @ ''.'' @ q \<and>
     resolve_module ex_world ex_policy ''numpy.random'' =
       walk_parts ex_world (mr_obj r) p (split_on CHR ''.'' q)"
  by (rule resolve_follows_decision)
    (simp_all add: ex_defs dmem_def is_import_allowed_def parent_names_def rpartition_def
      exclude_qual_pred_def exclude_pred_def List.map_filter_def upt_rec)

text \<open>
  Under the default filters, no module whose path has a private segment
  below its first one can be imported unless it is registered by that name.
\<close>

theorem private_import_denied:
  assumes "default_policy pol" and "\<not> dmem m (pol_modules pol)"
    and "seg \<in> set (tl (split_on CHR ''.'' m))" and "startswith seg ''_''"
  shows "\<not> is_import_allowed pol m"
proof
  assume "is_import_allowed pol m"
  with assms(2) obtain p r where np: "nearest_parent pol m p r"
    and ex: "\<not> exclude_qual_pred (MReg r) m"
    using import_allowed_cases by blast
  have "MReg r \<in> set (registrations pol)"
    using np by (auto simp: nearest_parent_def dest!: dget_mem intro: mreg_mem)
  with assms(1) have "mr_exclude r = Patterns [Glob ''_*'', Glob ''*._*'']"
    by (auto simp: default_policy_def list_all_iff dest: default_module_exclude)
  with ex have "\<not> str_in ''._'' m" by (simp add: exclude_qual_pred_def List.map_filter_def)
  moreover obtain a b where "m = a @ CHR ''.'' # seg @ b" using later_segment [OF assms(3)] by blast
  moreover obtain t where "seg = ''_'' @ t" using assms(4) by (auto simp: startswith_iff)
  ultimately have "\<not> str_in ''._'' m" "m = a @ ''._'' @ (t @ b)" by auto
  then show False unfolding str_in_iff by blast
qed

theorem private_import_denied_witness:
  "\<not> is_import_allowed ex_policy ''numpy._core''"
  by (rule private_import_denied [where seg = "''_core''"])
    (simp_all add: ex_defs default_policy_def registrations_def dmem_def)

section \<open>Properties of the attribute decision\<close>

lemma private_attr_denied_rule:
  assumes "default_policy pol" and "startswith attr ''_''"
    and "is_attr_allowed w pol obj attr = Inr True"
  shows "attr \<in> set INTROSPECTION_DUNDERS
    \<or> attr \<in> set MODULE_METADATA_DUNDERS \<and> is_module w obj
    \<or> (case find_registration_for w pol obj of
         Some reg \<Rightarrow> dmem attr (reg_configure reg)
       | None \<Rightarrow> attr \<in> set DEFAULT_ALLOWED_DUNDERS)"
proof (cases "find_registration_for w pol obj")
  case None
  with assms show ?thesis
    by (auto simp: is_attr_allowed_def default_attr_rule_def split: if_splits)
next
  case (Some reg)
  then have "default_filters reg"
    using assms(1) find_registration_for_mem by (auto simp: default_policy_def list_all_iff)
  then have "included reg attr quals" "excluded reg attr quals" for quals
    using assms(2) default_includes default_excludes_private by blast+
  with Some assms(3) show ?thesis
    by (auto simp: is_attr_allowed_def registered_attr_rule_def Let_def split: if_splits)
qed

text \<open>
  C11: under the default filters a private attribute is readable only as a
  member configured by name, as one of the four introspection dunders, as a
  module's metadata, or, on an object no registration applies to, as one of the
  allowed dunders.
\<close>

theorem private_attr_denied:
  assumes "default_policy pol" and "startswith attr ''_''"
    and "is_attr_allowed w pol obj attr = Inr True"
  shows "attr \<in> set INTROSPECTION_DUNDERS
    \<or> attr \<in> set MODULE_METADATA_DUNDERS \<and> is_module w obj
    \<or> (case find_registration_for w pol obj of
         Some reg \<Rightarrow> dmem attr (reg_configure reg)
       | None \<Rightarrow> attr \<in> set DEFAULT_ALLOWED_DUNDERS)"
  using assms by (rule private_attr_denied_rule)

theorem private_attr_denied_witness:
  "''__init__'' \<in> set INTROSPECTION_DUNDERS
    \<or> ''__init__'' \<in> set MODULE_METADATA_DUNDERS \<and> is_module ex_world 5
    \<or> (case find_registration_for ex_world ex_policy 5 of
         Some reg \<Rightarrow> dmem ''__init__'' (reg_configure reg)
       | None \<Rightarrow> ''__init__'' \<in> set DEFAULT_ALLOWED_DUNDERS)"
  by (rule private_attr_denied)
    (simp_all add: ex_defs py_None_def default_policy_def registrations_def dmem_def
      is_attr_allowed_def find_registration_for_def find_module_registration_def
      find_parent_registration_def find_class_registration_def find_own_class_registration_def
      find_covering_registration_def default_attr_rule_def endswith_def
      BLOCKED_INTERNAL_ATTRS_def MODULE_METADATA_DUNDERS_def DEFAULT_ALLOWED_DUNDERS_def
      INTROSPECTION_DUNDERS_def)

text \<open>
  An attribute that a registration's include list does not name is still
  readable when its value has a registration of its own, of whatever kind, and
  the exclude patterns are not asked; the witness reads a private attribute this way.
\<close>

theorem include_miss_allows_registered_value:
  assumes "find_registration_for w pol obj = Some reg"
    and "\<not> included reg attr (qualified_names w obj attr)"
    and "get_attr w obj attr = Inr sub" and "find_registration_for w pol sub = Some reg'"
  shows "is_attr_allowed w pol obj attr = Inr True"
proof -
  have "sub \<noteq> py_None" using assms(4) by (auto simp: find_registration_for_def)
  with assms show ?thesis
    by (simp add: is_attr_allowed_def registered_attr_rule_def getattr_none_def Let_def)
qed

lemmas find_defs = find_registration_for_def find_module_registration_def
  find_parent_registration_def find_class_registration_def find_own_class_registration_def
  find_covering_registration_def

theorem include_miss_witness:
  "excluded (CReg (ex_cls_reg 20 ''A'' [''x''])) ''_b'' (qualified_names ex_world 30 ''_b'')
   \<and> is_attr_allowed ex_world ex_two_classes 30 ''_b'' = Inr True"
proof
  show "is_attr_allowed ex_world ex_two_classes 30 ''_b'' = Inr True"
    by (rule include_miss_allows_registered_value
          [where reg = "CReg (ex_cls_reg 20 ''A'' [''x''])" and sub = 31
             and reg' = "CReg (ex_cls_reg 21 ''B'' [''*''])"])
      (simp_all add: ex_defs find_defs py_None_def included_def include_pred_def
        include_qual_pred_def qualified_names_def List.map_filter_def fnmatch_plain plain_chars_def)
qed (simp add: excluded_def exclude_pred_def ex_cls_reg_def)

text \<open>
  A member imported with \<open>from m import x\<close> passes the filters of the
  registration that governs \<open>m\<close>, and a member that is itself a module passes
  the import decision for its own dotted name.
\<close>

theorem resolved_member_gated:
  assumes "resolve_module_member w pol m x = Inr (MemberObj obj)"
  shows "is_import_allowed pol m \<and> (is_module w obj \<longrightarrow> is_import_allowed pol (m @ ''.'' @ x)) \<and>
    (\<exists>r. (dget (pol_modules pol) m = Some r
          \<or> (\<exists>n. first_recursive (pol_modules pol) (parent_names m) = Some (n, r)))
       \<and> included (MReg r) x [m @ ''.'' @ x] \<and> \<not> excluded (MReg r) x [m @ ''.'' @ x])"
  using assms
  by (auto simp: resolve_module_member_def Let_def rbind_eq_Inr_iff
      split: if_splits option.splits)

theorem resolved_member_gated_witness:
  "is_import_allowed ex_policy ''numpy'' \<and> is_import_allowed ex_policy ''numpy.random''"
proof -
  have "resolve_module_member ex_world ex_policy ''numpy'' ''random'' = Inr (MemberObj 11)"
    by (simp add: ex_defs resolve_module_member_def is_import_allowed_def dmem_def parent_names_def
        rpartition_def upt_rec MODULE_METADATA_DUNDERS_def included_def excluded_def include_pred_def
        exclude_pred_def exclude_qual_pred_def resolve_module_def has_attr_def List.map_filter_def)
  from resolved_member_gated [OF this] show ?thesis by (simp add: ex_world_def)
qed

text \<open>
  C29: starting from a fresh policy, any sequence of registration calls that
  succeeds leaves the name dictionaries and the identity indexes consistent.
\<close>

theorem policy_wf_reachable:
  assumes "Policy_init tmo mem mo k net tk mroot = Inr pol" and "apply_calls w cs pol = Inr pol'"
  shows "policy_wf pol'"
  using assms policy_wf_init policy_wf_calls by blast

theorem policy_wf_reachable_witness: "policy_wf ex_policy"
proof (rule policy_wf_reachable)
  show "Policy_init 30 None None ''tail'' False None ''/'' = Inr empty_policy"
    by (simp add: Policy_init_def empty_policy_def)
  show "apply_calls ex_world [CallModule None ex_module_reg] empty_policy = Inr ex_policy"
    by (simp add: policy_module_def ex_defs Let_def)
qed

end
