(* ===== verification/AttrGate.thy ===== *)
theory AttrGate
  imports Policy Errors
begin

text \<open>
  The attribute gates of \<open>gates.py\<close>: every attribute read, store and deletion
  of sandboxed code is a call of \<open>__st_getattr__\<close>, \<open>__st_setattr__\<close> or
  \<open>__st_delattr__\<close> after rewriting, and the builtins \<open>getattr\<close> and \<open>hasattr\<close> call the
  first of them. A value a gate hands out is described by how it is obtained:
  plain, wrapped with privileges, or read as data only.
\<close>

section \<open>Formatting\<close>

text \<open>
  \<open>_string.formatter_field_name_split\<close>: the first name of a replacement field,
  and the attribute and item accesses after it.
\<close>

definition field_first :: "string \<Rightarrow> string" where
  "field_first name = takeWhile (\<lambda>c. c \<noteq> CHR ''.'' \<and> c \<noteq> CHR ''['') name"

definition field_rest :: "string \<Rightarrow> string" where
  "field_rest name = dropWhile (\<lambda>c. c \<noteq> CHR ''.'' \<and> c \<noteq> CHR ''['') name"

text \<open>\<open>string.Formatter.get_field\<close>: look the first name up, then traverse the rest.\<close>

definition get_field ::
  "(string \<Rightarrow> 'v res) \<Rightarrow> (string \<Rightarrow> 'v \<Rightarrow> 'v res) \<Rightarrow> string \<Rightarrow> 'v res" where
  "get_field get_value traverse name =
     rbind (get_value (field_first name))
       (\<lambda>v. if field_rest name = [] then Inr v else traverse (field_rest name) v)"

definition safe_get_field ::
  "(string \<Rightarrow> 'v res) \<Rightarrow> (string \<Rightarrow> 'v \<Rightarrow> 'v res) \<Rightarrow> string \<Rightarrow> 'v res" where
  "safe_get_field get_value traverse name =
     (if str_in ''.'' name \<or> str_in ''['' name
      then Inl (Exc AttributeError ''Attribute/item access in format strings is not allowed'')
      else get_field get_value traverse name)"

section \<open>Reading introspection dunders\<close>

text \<open>\<open>None\<close> is \<open>_REFUSED\<close>; the inner value is the object found.\<close>

definition static_introspection_value :: "pyworld \<Rightarrow> oid \<Rightarrow> string \<Rightarrow> oid option" where
  "static_introspection_value w obj attr =
     (case (case method_func w obj of
              None \<Rightarrow> Some obj
            | Some (Inr f) \<Rightarrow> Some f
            | Some (Inl _) \<Rightarrow> None) of
        None \<Rightarrow> None
      | Some obj \<Rightarrow>
          (case static_attr w obj attr of
             None \<Rightarrow> None
           | Some found \<Rightarrow>
               (case view w found of
                  VNone \<Rightarrow> Some found
                | VStr _ \<Rightarrow> Some found
                | VSlot owner \<Rightarrow>
                    if owner \<in> set (slot_owners w)
                    then (case slot_get w found obj of Inr v \<Rightarrow> Some v | Inl _ \<Rightarrow> None)
                    else None
                | _ \<Rightarrow> None)))"

section \<open>Privileges\<close>

text \<open>What a gate hands out.\<close>

datatype gate_value =
    Plain oid
  | Granted bool bool bool oid
  | SafeFormat oid
  | SafeFormatMap oid
  | IntroText "string option"
  | Meta metadata

text \<open>
  \<open>wrap_privileged\<close> and \<open>wrap_host_time\<close> as the flags \<open>network_access\<close>,
  \<open>host_fs_access\<close> and \<open>host_time\<close> of a wrapper around the value.
\<close>

fun reg_network :: "registration \<Rightarrow> bool" where
  "reg_network (CReg r) = cr_network r"
| "reg_network (MReg r) = mr_network r"

fun reg_host_fs :: "registration \<Rightarrow> bool" where
  "reg_host_fs (CReg r) = cr_host_fs r"
| "reg_host_fs (MReg r) = mr_host_fs r"

fun reg_host_time :: "registration \<Rightarrow> bool" where
  "reg_host_time (CReg r) = cr_host_time r"
| "reg_host_time (MReg r) = mr_host_time r"

definition maybe_wrap_privileged ::
  "pyworld \<Rightarrow> oid \<Rightarrow> registration option \<Rightarrow> string \<Rightarrow> gate_value" where
  "maybe_wrap_privileged w value reg member_name =
     (case reg of
        None \<Rightarrow> Plain value
      | Some r \<Rightarrow>
          if \<not> is_callable w value then Plain value
          else
            (let spec = dget (reg_configure r) member_name;
                 net = (reg_network r \<or> (case spec of Some s \<Rightarrow> ms_network s | None \<Rightarrow> False));
                 fs = (reg_host_fs r \<or> (case spec of Some s \<Rightarrow> ms_host_fs s | None \<Rightarrow> False));
                 tm = (reg_host_time r \<or> (case spec of Some s \<Rightarrow> ms_host_time s | None \<Rightarrow> False))
             in if net \<or> fs \<or> tm then Granted net fs tm value else Plain value))"

section \<open>The gates\<close>

definition not_accessible :: "pyworld \<Rightarrow> oid \<Rightarrow> string \<Rightarrow> pyerr" where
  "not_accessible w obj attr =
     Exc AttributeError (''Attribute '' @ attr @ '' is not accessible on '' @ type_name w obj)"

definition st_getattr :: "pyworld \<Rightarrow> policy \<Rightarrow> oid \<Rightarrow> string \<Rightarrow> gate_value res" where
  "st_getattr w pol obj attr =
     (case exec_module_of w obj of
        Some m \<Rightarrow>
          (case dget (em_attributes m) attr of
             Some v \<Rightarrow> Inr (Plain v)
           | None \<Rightarrow> Inl (Exc AttributeError (''module '' @ em_name m @ '' has no attribute '' @ attr)))
      | None \<Rightarrow>
          rbind (is_attr_allowed w pol obj attr) (\<lambda>ok.
          if \<not> ok then Inl (not_accessible w obj attr)
          else if is_str w obj \<and> attr = ''format'' then Inr (SafeFormat obj)
          else if is_str w obj \<and> attr = ''format_map'' then Inr (SafeFormatMap obj)
          else if attr \<in> set INTROSPECTION_DUNDERS then
            (case static_introspection_value w obj attr of
               None \<Rightarrow> Inl (not_accessible w obj attr)
             | Some v \<Rightarrow>
                 (case view w v of
                    VStr s \<Rightarrow> Inr (IntroText (Some s))
                  | VNone \<Rightarrow>
                      if attr = ''__doc__'' then Inr (IntroText None)
                      else Inl (not_accessible w obj attr)
                  | _ \<Rightarrow> Inl (not_accessible w obj attr)))
          else if attr \<in> set MODULE_METADATA_DUNDERS then
            (case module_metadata w obj attr of
               Some m \<Rightarrow> Inr (Meta m)
             | None \<Rightarrow> Inl (not_accessible w obj attr))
          else
            rbind (get_attr w obj attr) (\<lambda>value.
            if is_callable w value
            then Inr (maybe_wrap_privileged w value (find_registration_for w pol obj) attr)
            else Inr (Plain value))))"

text \<open>The write that a store or a deletion performs once it is let through.\<close>

datatype attr_write = SetAttr oid string oid | DelAttr oid string

definition refuse_write :: "exec_module \<Rightarrow> string \<Rightarrow> pyerr" where
  "refuse_write m attr =
     Exc AttributeError (''Cannot set attribute '' @ attr @ '' on module '' @ em_name m @
       '': modules provided for this execution are read-only'')"

definition write_allowed :: "pyworld \<Rightarrow> policy \<Rightarrow> oid \<Rightarrow> string \<Rightarrow> bool res" where
  "write_allowed w pol obj attr =
     (if attr \<in> set INTROSPECTION_DUNDERS \<or> attr \<in> set MODULE_METADATA_DUNDERS then Inr False
      else is_attr_allowed w pol obj attr)"

definition st_setattr :: "pyworld \<Rightarrow> policy \<Rightarrow> oid \<Rightarrow> string \<Rightarrow> oid \<Rightarrow> attr_write res" where
  "st_setattr w pol obj attr value =
     (case exec_module_of w obj of
        Some m \<Rightarrow> Inl (refuse_write m attr)
      | None \<Rightarrow>
          rbind (write_allowed w pol obj attr) (\<lambda>ok.
          if ok then Inr (SetAttr obj attr value)
          else Inl (Exc AttributeError
                 (''Cannot set attribute '' @ attr @ '' on '' @ type_name w obj))))"

definition st_delattr :: "pyworld \<Rightarrow> policy \<Rightarrow> oid \<Rightarrow> string \<Rightarrow> attr_write res" where
  "st_delattr w pol obj attr =
     (case exec_module_of w obj of
        Some m \<Rightarrow> Inl (refuse_write m attr)
      | None \<Rightarrow>
          rbind (write_allowed w pol obj attr) (\<lambda>ok.
          if ok then Inr (DelAttr obj attr)
          else Inl (Exc AttributeError
                 (''Cannot delete attribute '' @ attr @ '' on '' @ type_name w obj))))"

section \<open>The builtins that read attributes\<close>

definition safe_getattr ::
  "(oid \<Rightarrow> string \<Rightarrow> gate_value res) \<Rightarrow> oid \<Rightarrow> string \<Rightarrow> gate_value option \<Rightarrow> gate_value res" where
  "safe_getattr gate obj name dflt =
     rcatch (gate obj name) (\<lambda>c. exc_caught_by c AttributeError)
       (\<lambda>e. case dflt of Some d \<Rightarrow> Inr d | None \<Rightarrow> Inl e)"

definition safe_hasattr :: "(oid \<Rightarrow> string \<Rightarrow> gate_value res) \<Rightarrow> oid \<Rightarrow> string \<Rightarrow> bool res" where
  "safe_hasattr gate obj name =
     rcatch (rbind (gate obj name) (\<lambda>_. Inr True)) (\<lambda>c. exc_caught_by c AttributeError)
       (\<lambda>_. Inr False)"

section \<open>The contract of an attribute gate\<close>

text \<open>
  What the builtins rely on: a gate lets a value through only when it is
  readable. \<open>getattr\<close> and \<open>hasattr\<close> then disclose nothing else.
\<close>

locale attr_gate =
  fixes gate :: "oid \<Rightarrow> string \<Rightarrow> gate_value res"
    and readable :: "oid \<Rightarrow> string \<Rightarrow> gate_value \<Rightarrow> bool"
  assumes gate_sound: "gate obj attr = Inr v \<Longrightarrow> readable obj attr v"
begin

lemma getattr_sound: "safe_getattr gate obj attr d = Inr v \<Longrightarrow> readable obj attr v \<or> d = Some v"
  by (auto simp: safe_getattr_def rcatch_def gate_sound split: sum.splits if_splits option.splits)

lemma hasattr_sound: "safe_hasattr gate obj attr = Inr True \<Longrightarrow> \<exists>v. readable obj attr v"
  by (auto simp: safe_hasattr_def rcatch_def rbind_def split: sum.splits if_splits intro: gate_sound)

lemma getattr_agrees_hasattr:
  "safe_hasattr gate obj attr = Inr b \<Longrightarrow> b \<longleftrightarrow> (\<exists>v. safe_getattr gate obj attr None = Inr v)"
  by (auto simp: safe_hasattr_def safe_getattr_def rcatch_def rbind_def split: sum.splits if_splits)

end

text \<open>The privileges a wrapper may carry: those some grant of the registration asks for.\<close>

definition reg_asks :: "(registration \<Rightarrow> bool) \<Rightarrow> (member_spec \<Rightarrow> bool) \<Rightarrow> registration \<Rightarrow> string \<Rightarrow> bool" where
  "reg_asks whole part r attr =
     (whole r \<or> (\<exists>s. dget (reg_configure r) attr = Some s \<and> part s))"

definition grant_due :: "registration \<Rightarrow> string \<Rightarrow> bool \<Rightarrow> bool \<Rightarrow> bool \<Rightarrow> bool" where
  "grant_due r attr net fs tm =
     (net = reg_asks reg_network ms_network r attr
      \<and> fs = reg_asks reg_host_fs ms_host_fs r attr
      \<and> tm = reg_asks reg_host_time ms_host_time r attr)"

definition may_read :: "pyworld \<Rightarrow> policy \<Rightarrow> oid \<Rightarrow> string \<Rightarrow> gate_value \<Rightarrow> bool" where
  "may_read w pol obj attr v =
     (case exec_module_of w obj of
        Some m \<Rightarrow> (\<exists>x. v = Plain x \<and> dget (em_attributes m) attr = Some x)
      | None \<Rightarrow>
          is_attr_allowed w pol obj attr = Inr True
          \<and> (case v of
               Plain x \<Rightarrow> get_attr w obj attr = Inr x
             | Granted net fs tm x \<Rightarrow> get_attr w obj attr = Inr x \<and>
                 (\<exists>r. find_registration_for w pol obj = Some r \<and> grant_due r attr net fs tm)
             | SafeFormat x \<Rightarrow> x = obj \<and> is_str w obj \<and> attr = ''format''
             | SafeFormatMap x \<Rightarrow> x = obj \<and> is_str w obj \<and> attr = ''format_map''
             | IntroText t \<Rightarrow> attr \<in> set INTROSPECTION_DUNDERS
             | Meta m \<Rightarrow> module_metadata w obj attr = Some m)
          \<and> (attr \<in> set INTROSPECTION_DUNDERS \<longrightarrow> (\<exists>t. v = IntroText t))
          \<and> (attr \<in> set MODULE_METADATA_DUNDERS \<longrightarrow> (\<exists>m. v = Meta m) \<or> (\<exists>t. v = IntroText t)))"

lemma maybe_wrap_cases:
  assumes "maybe_wrap_privileged w value reg attr = v"
  shows "v = Plain value \<or>
    (\<exists>r net fs tm. reg = Some r \<and> v = Granted net fs tm value \<and> grant_due r attr net fs tm)"
  using assms
  by (auto simp: maybe_wrap_privileged_def grant_due_def reg_asks_def Let_def
      split: option.splits if_splits)

lemma format_not_dunder [simp]:
  "''format'' \<notin> set INTROSPECTION_DUNDERS" "''format_map'' \<notin> set INTROSPECTION_DUNDERS"
  "''format'' \<notin> set MODULE_METADATA_DUNDERS" "''format_map'' \<notin> set MODULE_METADATA_DUNDERS"
  by (simp_all add: INTROSPECTION_DUNDERS_def MODULE_METADATA_DUNDERS_def)

lemma st_getattr_may_read:
  assumes "st_getattr w pol obj attr = Inr v"
  shows "may_read w pol obj attr v"
proof (cases "exec_module_of w obj")
  case None
  then have ok: "is_attr_allowed w pol obj attr = Inr True"
    using assms by (auto simp: st_getattr_def rbind_def split: sum.splits if_splits)
  show ?thesis
  proof (cases "is_str w obj \<and> (attr = ''format'' \<or> attr = ''format_map'')")
    case True
    with assms None ok show ?thesis by (auto simp: st_getattr_def may_read_def)
  next
    case nf: False
    consider (intro) "attr \<in> set INTROSPECTION_DUNDERS"
      | (meta) "attr \<notin> set INTROSPECTION_DUNDERS" "attr \<in> set MODULE_METADATA_DUNDERS"
      | (other) "attr \<notin> set INTROSPECTION_DUNDERS" "attr \<notin> set MODULE_METADATA_DUNDERS"
      by blast
    then show ?thesis
    proof cases
      case intro
      with assms None ok nf have "\<exists>t. v = IntroText t"
        by (auto simp: st_getattr_def split: option.splits pyview.splits if_splits)
      with None ok intro show ?thesis by (auto simp: may_read_def)
    next
      case meta
      with assms None ok nf have "\<exists>m. v = Meta m \<and> module_metadata w obj attr = Some m"
        by (auto simp: st_getattr_def split: option.splits)
      with None ok meta show ?thesis by (auto simp: may_read_def)
    next
      case other
      with assms None ok nf obtain x where x: "get_attr w obj attr = Inr x"
        and v: "v = Plain x \<or> maybe_wrap_privileged w x (find_registration_for w pol obj) attr = v"
        by (auto simp: st_getattr_def rbind_eq_Inr_iff split: if_splits)
      have "v = Plain x \<or> (\<exists>r net fs tm. find_registration_for w pol obj = Some r
          \<and> v = Granted net fs tm x \<and> grant_due r attr net fs tm)"
        using v maybe_wrap_cases by blast
      with None ok other x show ?thesis by (auto simp: may_read_def)
    qed
  qed
next
  case (Some m)
  with assms show ?thesis by (auto simp: st_getattr_def may_read_def split: option.splits)
qed

interpretation gate: attr_gate "st_getattr w pol" "may_read w pol" for w pol
  by unfold_locales (rule st_getattr_may_read)

lemmas case_congs = option.case_cong pyview.case_cong sum.case_cong if_cong

text \<open>Static reads do not depend on what an attribute read would run.\<close>

lemma registration_lookup_static [simp]:
  "find_registration_for (w\<lparr>get_attr := g\<rparr>) pol obj = find_registration_for w pol obj"
  unfolding find_defs find_super_registration_def by (simp cong: case_congs)

lemma module_metadata_static [simp]:
  "module_metadata (w\<lparr>get_attr := g\<rparr>) obj attr = module_metadata w obj attr"
  by (simp add: module_metadata_def cong: case_congs)

lemma introspection_static [simp]:
  "static_introspection_value (w\<lparr>get_attr := g\<rparr>) obj attr = static_introspection_value w obj attr"
  unfolding static_introspection_value_def by (simp cong: case_congs)

lemma is_attr_allowed_static:
  assumes "attr \<in> set INTROSPECTION_DUNDERS \<or> attr \<in> set MODULE_METADATA_DUNDERS \<and> is_module w obj"
  shows "is_attr_allowed (w\<lparr>get_attr := g\<rparr>) pol obj attr = is_attr_allowed w pol obj attr"
  using assms
  by (auto simp: is_attr_allowed_def registered_attr_rule_def default_attr_rule_def split: option.splits)

section \<open>Properties\<close>


text \<open>Object 40 is an instance of a registered class that grants network to its methods.\<close>

definition ex_net_policy :: policy where
  "ex_net_policy = empty_policy\<lparr>
     pol_classes := [(''Client'', (ex_cls_reg 20 ''Client'' [''*''])\<lparr>cr_network := True\<rparr>)],
     reg_by_cls_id := [(20, (ex_cls_reg 20 ''Client'' [''*''])\<lparr>cr_network := True\<rparr>)]\<rparr>"

definition ex_net_world :: pyworld where
  "ex_net_world = empty_world\<lparr>
     type_of := (\<lambda>x. if x = 40 then 20 else 1),
     mro := (\<lambda>c. if c = 20 then [20, 1] else [c, 1]),
     get_attr := (\<lambda>x a. if x = 40 \<and> a = ''get'' then Inr 41 else Inl (Exc AttributeError a)),
     static_attr := (\<lambda>x a. if x = 40 \<and> a = ''__doc__'' then Some 42 else None),
     view := (\<lambda>x. if x = 42 then VStr ''a client'' else VOther),
     is_callable := (\<lambda>x. x = 41)\<rparr>"

lemmas ex_net_defs = ex_net_policy_def ex_net_world_def ex_cls_reg_def empty_policy_def empty_world_def

lemma ex_net_read: "st_getattr ex_net_world ex_net_policy 40 ''get'' = Inr (Granted True False False 41)"
  by (simp add: ex_net_defs st_getattr_def is_attr_allowed_def find_defs py_None_def
      registered_attr_rule_def dmem_def INTROSPECTION_DUNDERS_def MODULE_METADATA_DUNDERS_def
      included_def include_pred_def excluded_def exclude_pred_def exclude_qual_pred_def qualified_names_def
      List.map_filter_def getattr_none_def maybe_wrap_privileged_def)


text \<open>
  Reading \<open>__name__\<close>, \<open>__qualname__\<close>, \<open>__module__\<close> or \<open>__doc__\<close>, or the metadata
  of a module, runs no attribute code of the host: the outcome is the same
  whatever \<open>getattr\<close> would do on any object.
\<close>

theorem introspection_runs_no_host_code:
  assumes "attr \<in> set INTROSPECTION_DUNDERS \<or> attr \<in> set MODULE_METADATA_DUNDERS \<and> is_module w obj"
  shows "st_getattr (w\<lparr>get_attr := g\<rparr>) pol obj attr = st_getattr w pol obj attr"
  using assms is_attr_allowed_static [OF assms, of g pol]
  by (auto simp: st_getattr_def not_accessible_def cong: case_congs)

theorem introspection_witness:
  "st_getattr (ex_net_world\<lparr>get_attr := \<lambda>_ _. Inl (Exc SystemExit [])\<rparr>) ex_net_policy 40 ''__doc__''
     = Inr (IntroText (Some ''a client''))"
proof -
  have "st_getattr ex_net_world ex_net_policy 40 ''__doc__'' = Inr (IntroText (Some ''a client''))"
    by (simp add: ex_net_defs st_getattr_def is_attr_allowed_def find_defs py_None_def
        registered_attr_rule_def dmem_def INTROSPECTION_DUNDERS_def static_introspection_value_def)
  with introspection_runs_no_host_code
    [of "''__doc__''" ex_net_world 40 "\<lambda>_ _. Inl (Exc SystemExit [])" ex_net_policy]
  show ?thesis by (simp add: INTROSPECTION_DUNDERS_def)
qed

text \<open>
  C13: Sandboxed code writes or deletes an attribute only where it may read it, on
  no module handed to the execution, and never an introspection or metadata
  dunder; under default filters a private name is written only when the
  registration configures it or it is an allowed dunder of an unregistered object.
\<close>

theorem attribute_writes_gated:
  assumes "st_setattr w pol obj attr value = Inr wr \<or> st_delattr w pol obj attr = Inr wr"
  shows "wr \<in> {SetAttr obj attr value, DelAttr obj attr} \<and> exec_module_of w obj = None
    \<and> attr \<notin> set INTROSPECTION_DUNDERS \<and> attr \<notin> set MODULE_METADATA_DUNDERS
    \<and> is_attr_allowed w pol obj attr = Inr True
    \<and> (default_policy pol \<and> startswith attr ''_'' \<longrightarrow>
        (case find_registration_for w pol obj of
           Some reg \<Rightarrow> dmem attr (reg_configure reg)
         | None \<Rightarrow> attr \<in> set DEFAULT_ALLOWED_DUNDERS))"
proof -
  have w: "exec_module_of w obj = None \<and> write_allowed w pol obj attr = Inr True
      \<and> wr \<in> {SetAttr obj attr value, DelAttr obj attr}"
    using assms by (auto simp: st_setattr_def st_delattr_def rbind_eq_Inr_iff
        split: option.splits if_splits)
  then have ok: "attr \<notin> set INTROSPECTION_DUNDERS" "attr \<notin> set MODULE_METADATA_DUNDERS"
    "is_attr_allowed w pol obj attr = Inr True"
    by (auto simp: write_allowed_def split: if_splits)
  with w private_attr_denied_rule [OF _ _ ok(3)] show ?thesis by auto
qed

theorem attribute_writes_witness:
  "st_setattr ex_net_world ex_net_policy 40 ''get'' 7 = Inr (SetAttr 40 ''get'' 7)
   \<and> ''get'' \<notin> set INTROSPECTION_DUNDERS \<and> is_attr_allowed ex_net_world ex_net_policy 40 ''get'' = Inr True"
proof -
  have "st_setattr ex_net_world ex_net_policy 40 ''get'' 7 = Inr (SetAttr 40 ''get'' 7)"
    by (simp add: ex_net_defs st_setattr_def write_allowed_def is_attr_allowed_def find_defs py_None_def
        registered_attr_rule_def dmem_def INTROSPECTION_DUNDERS_def MODULE_METADATA_DUNDERS_def
        included_def include_pred_def excluded_def exclude_pred_def exclude_qual_pred_def
        qualified_names_def List.map_filter_def getattr_none_def)
  with attribute_writes_gated [of ex_net_world ex_net_policy 40 "''get''" 7 "SetAttr 40 ''get'' 7"]
  show ?thesis by simp
qed

section \<open>Privileges and the worker's isolation\<close>

text \<open>Every indexed registration is also stored under a name.\<close>

definition no_shadowed :: "policy \<Rightarrow> bool" where
  "no_shadowed pol =
     (snd ` set (reg_by_cls_id pol) \<subseteq> snd ` set (pol_classes pol)
      \<and> snd ` set (reg_by_module_id pol) \<subseteq> snd ` set (pol_modules pol))"

lemma registrations_named:
  assumes "no_shadowed pol" "r \<in> set (registrations pol)"
  shows "(case r of CReg c \<Rightarrow> c \<in> snd ` set (pol_classes pol) | MReg m \<Rightarrow> m \<in> snd ` set (pol_modules pol))"
  using assms unfolding no_shadowed_def registrations_def by (cases r) auto

lemma reg_asks_network_needs:
  assumes "no_shadowed pol" "r \<in> set (registrations pol)" "reg_asks reg_network ms_network r attr"
  shows "needs_network pol"
proof (cases r)
  case (CReg c)
  with registrations_named [OF assms(1,2)] obtain n where "(n, c) \<in> set (pol_classes pol)" by auto
  with CReg assms(3) show ?thesis
    by (fastforce simp: reg_asks_def needs_network_def list_ex_iff dest: map_of_SomeD)
next
  case (MReg m)
  with registrations_named [OF assms(1,2)] obtain n where "(n, m) \<in> set (pol_modules pol)" by auto
  with MReg assms(3) show ?thesis
    by (fastforce simp: reg_asks_def needs_network_def list_ex_iff dest: map_of_SomeD)
qed

lemma reg_asks_host_fs_needs:
  assumes "no_shadowed pol" "r \<in> set (registrations pol)" "reg_asks reg_host_fs ms_host_fs r attr"
  shows "needs_host_fs pol"
proof (cases r)
  case (CReg c)
  with registrations_named [OF assms(1,2)] obtain n where "(n, c) \<in> set (pol_classes pol)" by auto
  with CReg assms(3) show ?thesis
    by (fastforce simp: reg_asks_def needs_host_fs_def list_ex_iff dest: map_of_SomeD)
next
  case (MReg m)
  with registrations_named [OF assms(1,2)] obtain n where "(n, m) \<in> set (pol_modules pol)" by auto
  with MReg assms(3) show ?thesis
    by (fastforce simp: reg_asks_def needs_host_fs_def list_ex_iff dest: map_of_SomeD)
qed

text \<open>
  C20: A wrapper that opens the network or the host file system is handed out only
  under a policy whose worker keeps them reachable (\<open>needs_network\<close>, \<open>needs_host_fs\<close>),
  provided that no registration has been replaced under its name.
\<close>

theorem granted_privileges_counted:
  assumes "no_shadowed pol" and "st_getattr w pol obj attr = Inr (Granted net fs tm x)"
  shows "(net \<longrightarrow> needs_network pol) \<and> (fs \<longrightarrow> needs_host_fs pol)"
proof -
  from st_getattr_may_read [OF assms(2)] obtain r where
    "find_registration_for w pol obj = Some r" and due: "grant_due r attr net fs tm"
    by (auto simp: may_read_def split: option.splits)
  then have "r \<in> set (registrations pol)" using find_registration_for_mem by blast
  with due assms(1) show ?thesis
    by (auto simp: grant_due_def intro: reg_asks_network_needs reg_asks_host_fs_needs)
qed

theorem granted_privileges_witness:
  "st_getattr ex_net_world ex_net_policy 40 ''get'' = Inr (Granted True False False 41)
   \<and> needs_network ex_net_policy"
  using granted_privileges_counted [OF _ ex_net_read] ex_net_read
  by (simp add: no_shadowed_def ex_net_policy_def empty_policy_def)

text \<open>
  Registering a second class under the same name leaves the first one in force
  through its identity: its network grant is still handed out, but
  \<open>needs_network\<close> no longer sees it.
\<close>

definition ex_shadowed_policy :: policy where
  "ex_shadowed_policy =
     policy_cls empty_world (Some ''Client'') (ex_cls_reg 21 ''Client'' [''*''])
      (policy_cls empty_world (Some ''Client'') ((ex_cls_reg 20 ''Client'' [''*''])\<lparr>cr_network := True\<rparr>)
        empty_policy)"

theorem shadowed_grant_not_counted:
  "st_getattr ex_net_world ex_shadowed_policy 40 ''get'' = Inr (Granted True False False 41)
   \<and> \<not> needs_network ex_shadowed_policy"
  by (simp add: ex_net_defs ex_shadowed_policy_def policy_cls_def Let_def needs_network_def st_getattr_def
      is_attr_allowed_def find_defs py_None_def
      registered_attr_rule_def dmem_def INTROSPECTION_DUNDERS_def MODULE_METADATA_DUNDERS_def
      included_def include_pred_def excluded_def exclude_pred_def exclude_qual_pred_def qualified_names_def
      List.map_filter_def getattr_none_def maybe_wrap_privileged_def)

section \<open>Format strings\<close>

lemma field_plain:
  assumes "\<not> str_in ''.'' name" "\<not> str_in ''['' name"
  shows "field_first name = name" "field_rest name = []"
proof -
  have "c \<noteq> CHR ''.'' \<and> c \<noteq> CHR ''[''" if "c \<in> set name" for c
    using assms that split_list [OF that] unfolding str_in_iff by (metis append.simps)
  then show "field_first name = name" "field_rest name = []"
    by (auto simp: field_first_def field_rest_def)
qed

text \<open>
  A replacement field of a gated format string reads an argument by its whole
  name and traverses no attribute or item: the outcome does not depend on what
  traversal would do.
\<close>

lemma format_fields_not_traversed:
  "safe_get_field get_value traverse name =
     (if str_in ''.'' name \<or> str_in ''['' name
      then Inl (Exc AttributeError ''Attribute/item access in format strings is not allowed'')
      else get_value name)"
  using field_plain [of name]
  by (cases "get_value name") (auto simp: safe_get_field_def get_field_def)

text \<open>
  The safe formatter is put in place for an instance of \<open>str\<close>. Read from the type
  itself, the same method is the plain one, so \<open>str.format(s, x)\<close> traverses.
\<close>

theorem format_of_type_not_intercepted:
  assumes "\<not> is_str w str_type" "exec_module_of w str_type = None"
    and "find_registration_for w pol str_type = None" "get_attr w str_type ''format'' = Inr fmt"
  shows "st_getattr w pol str_type ''format'' = Inr (Plain fmt)"
  using assms
  by (auto simp: st_getattr_def is_attr_allowed_def default_attr_rule_def BLOCKED_INTERNAL_ATTRS_def
      maybe_wrap_privileged_def)

end
