(* ===== verification/Ast.thy ===== *)
theory Ast
  imports Prelude
begin

text \<open>
  Python syntax trees the way the \<open>ast\<close> module presents them to a
  \<open>NodeTransformer\<close>: a node has a class name and an ordered list of fields, a
  field holds one value or a list of values, and a value is a node or a
  constant (an identifier, a literal, or \<open>None\<close>). Positions are left out. The
  size functions below are what the rewriter's recursion descends on.
\<close>

datatype const = KNone | KBool bool | KInt int | KStr string | KOther nat

datatype node = Node (tag: string) (flds: "(string \<times> field) list")
  and field = One val | Many "val list"
  and val = N node | K const

section \<open>Reading and writing fields\<close>

definition fld :: "node \<Rightarrow> string \<Rightarrow> field option" where
  "fld n f = dget (flds n) f"

definition set_fld :: "string \<Rightarrow> field \<Rightarrow> node \<Rightarrow> node" where
  "set_fld f v n = Node (tag n) (dset f v (flds n))"

definition get_node :: "node \<Rightarrow> string \<Rightarrow> node option" where
  "get_node n f = (case fld n f of Some (One (N m)) \<Rightarrow> Some m | _ \<Rightarrow> None)"

definition get_const :: "node \<Rightarrow> string \<Rightarrow> const" where
  "get_const n f = (case fld n f of Some (One (K c)) \<Rightarrow> c | _ \<Rightarrow> KNone)"

definition get_str :: "node \<Rightarrow> string \<Rightarrow> string option" where
  "get_str n f = (case get_const n f of KStr s \<Rightarrow> Some s | _ \<Rightarrow> None)"

definition get_id :: "node \<Rightarrow> string \<Rightarrow> string" where
  "get_id n f = (case get_str n f of Some s \<Rightarrow> s | None \<Rightarrow> [])"

definition get_vals :: "node \<Rightarrow> string \<Rightarrow> val list" where
  "get_vals n f = (case fld n f of Some (Many vs) \<Rightarrow> vs | _ \<Rightarrow> [])"

fun node_of :: "val \<Rightarrow> node option" where
  "node_of (N n) = Some n"
| "node_of (K c) = None"

definition nodes_of :: "val list \<Rightarrow> node list" where
  "nodes_of vs = List.map_filter node_of vs"

definition get_nodes :: "node \<Rightarrow> string \<Rightarrow> node list" where
  "get_nodes n f = nodes_of (get_vals n f)"

lemma nodes_of_simps [simp]:
  "nodes_of [] = []" "nodes_of (N n # vs) = n # nodes_of vs" "nodes_of (K c # vs) = nodes_of vs"
  by (simp_all add: nodes_of_def List.map_filter_def)

section \<open>Building nodes\<close>

definition leaf :: "string \<Rightarrow> node" where
  "leaf t = Node t []"

definition mk_name :: "string \<Rightarrow> string \<Rightarrow> node" where
  "mk_name i ctx = Node ''Name'' [(''id'', One (K (KStr i))), (''ctx'', One (N (leaf ctx)))]"

definition mk_const :: "const \<Rightarrow> node" where
  "mk_const c = Node ''Constant'' [(''value'', One (K c)), (''kind'', One (K KNone))]"

definition mk_call :: "node \<Rightarrow> node list \<Rightarrow> node list \<Rightarrow> node" where
  "mk_call f args kws =
     Node ''Call'' [(''func'', One (N f)), (''args'', Many (map N args)), (''keywords'', Many (map N kws))]"

definition mk_keyword :: "string \<Rightarrow> node \<Rightarrow> node" where
  "mk_keyword a v = Node ''keyword'' [(''arg'', One (K (KStr a))), (''value'', One (N v))]"

definition mk_expr :: "node \<Rightarrow> node" where
  "mk_expr v = Node ''Expr'' [(''value'', One (N v))]"

definition mk_assign :: "node \<Rightarrow> node \<Rightarrow> node" where
  "mk_assign target v =
     Node ''Assign'' [(''targets'', Many [N target]), (''value'', One (N v)), (''type_comment'', One (K KNone))]"

definition mk_subscript :: "node \<Rightarrow> nat \<Rightarrow> node" where
  "mk_subscript v i =
     Node ''Subscript'' [(''value'', One (N v)), (''slice'', One (N (mk_const (KInt (int i))))),
                         (''ctx'', One (N (leaf ''Load'')))]"

lemmas mk_defs = leaf_def mk_name_def mk_const_def mk_call_def mk_keyword_def mk_expr_def
  mk_assign_def mk_subscript_def

section \<open>Sizes\<close>

text \<open>
  An exception handler weighs more than its children, so that filling its empty
  \<open>type\<close> field before descending still descends.
\<close>

fun nsz :: "node \<Rightarrow> nat" and flsz :: "(string \<times> field) list \<Rightarrow> nat" and fsz :: "field \<Rightarrow> nat"
  and vlsz :: "val list \<Rightarrow> nat" and vsz :: "val \<Rightarrow> nat"
where
  "nsz (Node t fs) = (if t = ''ExceptHandler'' then 20 else 1) + flsz fs"
| "flsz [] = 0"
| "flsz ((k, f) # fs) = 1 + fsz f + flsz fs"
| "fsz (One v) = 1 + vsz v"
| "fsz (Many vs) = vlsz vs"
| "vlsz [] = 0"
| "vlsz (v # vs) = 1 + vsz v + vlsz vs"
| "vsz (N n) = nsz n"
| "vsz (K c) = 0"

definition nmax :: "node list \<Rightarrow> nat" where
  "nmax ns = foldr (\<lambda>n m. max (nsz n) m) ns 0"

lemma nmax_simps [simp]: "nmax [] = 0" "nmax (n # ns) = max (nsz n) (nmax ns)"
  by (simp_all add: nmax_def)

lemma nmax_less: "0 < b \<Longrightarrow> (\<And>n. n \<in> set ns \<Longrightarrow> nsz n < b) \<Longrightarrow> nmax ns < b"
  by (induction ns) auto

lemma nsz_pos [simp]: "0 < nsz n"
  by (cases n) simp

lemma nsz_eq: "nsz n = (if tag n = ''ExceptHandler'' then 20 else 1) + flsz (flds n)"
  by (cases n) simp

lemma dget_fsz: "dget fs f = Some x \<Longrightarrow> fsz x < flsz fs"
  by (induction fs) (auto split: if_splits)

lemma flsz_less_nsz: "flsz (flds n) < nsz n"
  by (cases n) simp

lemma fld_fsz: "fld n f = Some x \<Longrightarrow> fsz x < nsz n"
  unfolding fld_def using dget_fsz [of "flds n" f x] flsz_less_nsz [of n] by simp

lemma get_node_nsz: "get_node n f = Some m \<Longrightarrow> Suc (nsz m) < nsz n"
  by (auto simp: get_node_def split: option.splits field.splits val.splits dest!: fld_fsz)

lemma get_node_less: "get_node n f = Some m \<Longrightarrow> nsz m < nsz n" "Some m = get_node n f \<Longrightarrow> nsz m < nsz n"
  using get_node_nsz [of n f m] by auto

lemma set_map_filter: "set (List.map_filter g xs) = {y. \<exists>x \<in> set xs. g x = Some y}"
  by (induction xs) (auto simp: List.map_filter_def)

lemma get_vals_vlsz: "vlsz (get_vals n f) \<le> nsz n"
  by (auto simp: get_vals_def split: option.splits field.splits dest!: fld_fsz)

lemma get_vals_less: "get_vals n f \<noteq> [] \<Longrightarrow> vlsz (get_vals n f) < nsz n"
  by (auto simp: get_vals_def split: option.splits field.splits dest!: fld_fsz)

lemma nodes_of_vlsz: "m \<in> set (nodes_of vs) \<Longrightarrow> nsz m < vlsz vs"
proof (induction vs)
  case (Cons v vs)
  then show ?case by (cases v) auto
qed simp

lemma get_vals_strict: "vlsz (get_vals n f) < nsz n"
proof (cases "get_vals n f = []")
  case True
  then show ?thesis using flsz_less_nsz [of n] by simp
qed (rule get_vals_less)

lemma get_nodes_nsz: "m \<in> set (get_nodes n f) \<Longrightarrow> nsz m < nsz n"
  unfolding get_nodes_def using nodes_of_vlsz get_vals_strict less_trans by blast

lemma flsz_dset_None: "dget fs f = None \<Longrightarrow> flsz (dset f x fs) = flsz fs + 1 + fsz x"
  by (induction fs) (auto split: if_splits)

lemma flsz_dset_Some: "dget fs f = Some y \<Longrightarrow> flsz (dset f x fs) + fsz y = flsz fs + fsz x"
  by (induction fs) (auto split: if_splits)

lemma flsz_dset: "flsz (dset f x fs) \<le> flsz fs + 1 + fsz x"
  using flsz_dset_None [of fs f x] flsz_dset_Some [of fs f _ x]
  by (cases "dget fs f") fastforce+

lemma tag_set_fld [simp]: "tag (set_fld f v n) = tag n"
  by (simp add: set_fld_def)

lemma fld_set_fld [simp]: "fld (set_fld f v n) g = (if g = f then Some v else fld n g)"
  by (simp add: set_fld_def fld_def)

section \<open>All nodes of a tree\<close>

fun all_n :: "(node \<Rightarrow> bool) \<Rightarrow> node \<Rightarrow> bool"
  and all_fl :: "(node \<Rightarrow> bool) \<Rightarrow> (string \<times> field) list \<Rightarrow> bool"
  and all_f :: "(node \<Rightarrow> bool) \<Rightarrow> field \<Rightarrow> bool"
  and all_vl :: "(node \<Rightarrow> bool) \<Rightarrow> val list \<Rightarrow> bool"
  and all_v :: "(node \<Rightarrow> bool) \<Rightarrow> val \<Rightarrow> bool"
where
  "all_n P (Node t fs) = (P (Node t fs) \<and> all_fl P fs)"
| "all_fl P [] = True"
| "all_fl P ((k, f) # fs) = (all_f P f \<and> all_fl P fs)"
| "all_f P (One v) = all_v P v"
| "all_f P (Many vs) = all_vl P vs"
| "all_vl P [] = True"
| "all_vl P (v # vs) = (all_v P v \<and> all_vl P vs)"
| "all_v P (N n) = all_n P n"
| "all_v P (K c) = True"

lemma all_vl_iff: "all_vl P vs \<longleftrightarrow> list_all (all_v P) vs"
  by (induction vs) auto

lemma all_vl_append [simp]: "all_vl P (vs @ us) \<longleftrightarrow> all_vl P vs \<and> all_vl P us"
  by (simp add: all_vl_iff)

lemma all_vl_mapN [simp]: "all_vl P (map N ns) \<longleftrightarrow> list_all (all_n P) ns"
  by (induction ns) auto

lemma all_fl_iff: "all_fl P fs \<longleftrightarrow> list_all (all_f P \<circ> snd) fs"
  by (induction fs) auto

lemma all_fl_dset: "all_fl P fs \<Longrightarrow> all_f P x \<Longrightarrow> all_fl P (dset f x fs)"
  by (induction fs) auto

lemma all_fl_dget: "all_fl P fs \<Longrightarrow> dget fs f = Some x \<Longrightarrow> all_f P x"
  by (induction fs) (auto split: if_splits)

lemma all_n_fl: "all_n P n \<Longrightarrow> all_fl P (flds n)"
  by (cases n) simp

lemma all_n_root: "all_n P n \<Longrightarrow> P n"
  by (cases n) simp

lemma all_n_eq: "all_n P n \<longleftrightarrow> P n \<and> all_fl P (flds n)"
  by (cases n) simp

lemma all_n_fld: "all_fl P (flds n) \<Longrightarrow> fld n f = Some x \<Longrightarrow> all_f P x"
  unfolding fld_def by (rule all_fl_dget)

lemma all_get_node: "all_fl P (flds n) \<Longrightarrow> get_node n f = Some m \<Longrightarrow> all_n P m"
  by (auto simp: get_node_def split: option.splits field.splits val.splits dest: all_n_fld)

lemma all_get_vals: "all_fl P (flds n) \<Longrightarrow> all_vl P (get_vals n f)"
  by (auto simp: get_vals_def split: option.splits field.splits dest: all_n_fld)

lemma all_nodes_of: "all_vl P vs \<Longrightarrow> list_all (all_n P) (nodes_of vs)"
proof (induction vs)
  case (Cons v vs)
  then show ?case by (cases v) auto
qed simp

lemma all_get_nodes: "all_fl P (flds n) \<Longrightarrow> list_all (all_n P) (get_nodes n f)"
  unfolding get_nodes_def by (blast intro: all_nodes_of all_get_vals)

end
