(* ===== verification/Rewriter.thy ===== *)
theory Rewriter
  imports Ast
begin

text \<open>
  The rewriter (\<open>sandtrap/rewriter.py\<close>): a fail-closed \<open>NodeTransformer\<close> that
  validates a syntax tree and puts the sandbox's gates into it. The state it
  threads is the counter for temporary names; a refusal is a
  \<open>StValidationError\<close>. A visit returns one node or a list of statements that is
  spliced into the surrounding body. The lemmas show what every accepted
  program looks like after rewriting.
\<close>

unbundle bit_operations_syntax

section \<open>Name sets and future imports\<close>

definition BLOCKED_NAMES :: "string list" where
  "BLOCKED_NAMES = [''exec'', ''eval'', ''compile'', ''__import__'']"

definition BLOCKED_LOAD_NAMES :: "string list" where
  "BLOCKED_LOAD_NAMES = [''__builtins__'']"

definition DYNAMIC_IMPORT_GATE :: string where
  "DYNAMIC_IMPORT_GATE = ''__st_dynimport__''"

text \<open>\<open>__future__.all_feature_names\<close> with their compiler flags.\<close>

definition FUTURE_FEATURES :: "(string, nat) dict" where
  "FUTURE_FEATURES =
     [(''nested_scopes'', 0x10), (''generators'', 0), (''division'', 0x20000),
      (''absolute_import'', 0x40000), (''with_statement'', 0x80000),
      (''print_function'', 0x100000), (''unicode_literals'', 0x200000),
      (''barry_as_FLUFL'', 0x400000), (''generator_stop'', 0x800000), (''annotations'', 0x1000000)]"

definition refuse :: "string \<Rightarrow> 'a res" where
  "refuse msg = Inl (Exc StValidationError msg)"

definition is_docstring :: "node \<Rightarrow> bool" where
  "is_docstring n =
     (tag n = ''Expr'' \<and>
      (case get_node n ''value'' of
         Some v \<Rightarrow> tag v = ''Constant'' \<and> get_str v ''value'' \<noteq> None
       | None \<Rightarrow> False))"

definition is_future :: "node \<Rightarrow> bool" where
  "is_future n =
     (tag n = ''ImportFrom'' \<and> get_str n ''module'' = Some ''__future__'' \<and>
      (case get_const n ''level'' of KInt i \<Rightarrow> i = 0 | KNone \<Rightarrow> True | _ \<Rightarrow> False))"

fun alias_flags :: "node list \<Rightarrow> nat \<Rightarrow> nat res" where
  "alias_flags [] flags = Inr flags"
| "alias_flags (a # as) flags =
     (case dget FUTURE_FEATURES (get_id a ''name'') of
        None \<Rightarrow> Inl (Exc SyntaxError (''future feature '' @ get_id a ''name'' @ '' is not defined''))
      | Some fl \<Rightarrow> alias_flags as (flags OR fl))"

fun future_run :: "val list \<Rightarrow> nat \<Rightarrow> (val list \<times> nat) res" where
  "future_run (N s # rest) flags =
     (if is_future s then
        rbind (alias_flags (get_nodes s ''names'') flags) (\<lambda>fl. future_run rest fl)
      else Inr (N s # rest, flags))"
| "future_run body flags = Inr (body, flags)"

definition take_future :: "node \<Rightarrow> (node \<times> nat) res" where
  "take_future tree =
     (let body = get_vals tree ''body'';
          start = (case body of N s # _ \<Rightarrow> if is_docstring s then 1 else 0 | _ \<Rightarrow> 0)
      in rbind (future_run (drop start body) 0)
           (\<lambda>(rest, flags). Inr (set_fld ''body'' (Many (take start body @ rest)) tree, flags)))"

section \<open>The rewriter's configuration\<close>

record rcfg =
  rw_echo :: string
  future_flags :: nat
  py_minor :: nat

definition postponed :: "rcfg \<Rightarrow> bool" where
  "postponed cfg = (future_flags cfg AND 0x1000000 \<noteq> 0)"

text \<open>The node classes whose handler is plain recursion, by Python 3 minor version.\<close>

definition operator_tags :: "string list" where
  "operator_tags =
     [''Add'', ''Sub'', ''Mult'', ''Div'', ''FloorDiv'', ''Mod'', ''Pow'', ''LShift'', ''RShift'',
      ''BitOr'', ''BitXor'', ''BitAnd'', ''MatMult'', ''And'', ''Or'', ''Eq'', ''NotEq'', ''Lt'',
      ''LtE'', ''Gt'', ''GtE'', ''Is'', ''IsNot'', ''In'', ''NotIn'', ''Invert'', ''Not'', ''UAdd'',
      ''USub'', ''Load'', ''Store'', ''Del'']"

text \<open>Type parameters from Python 3.12 on, template strings from 3.14 on.\<close>

definition versioned_tags :: "nat \<Rightarrow> string list" where
  "versioned_tags minor =
     (if 12 \<le> minor then [''TypeVar'', ''ParamSpec'', ''TypeVarTuple'', ''TypeAlias''] else [])
     @ (if 14 \<le> minor then [''TemplateStr'', ''Interpolation''] else [])"

definition recurse_tags :: "nat \<Rightarrow> string list" where
  "recurse_tags minor =
     [''Expr'', ''Return'', ''Raise'', ''Assert'', ''Pass'', ''Break'', ''Continue'',
      ''If'', ''IfExp'', ''Try'', ''Match'',
      ''BinOp'', ''UnaryOp'', ''BoolOp'', ''Compare'', ''Call'', ''Subscript'', ''Slice'',
      ''Starred'', ''NamedExpr'', ''Constant'',
      ''List'', ''Tuple'', ''Set'', ''Dict'', ''JoinedStr'', ''FormattedValue'',
      ''ListComp'', ''SetComp'', ''DictComp'', ''GeneratorExp'',
      ''Await'', ''Yield'', ''YieldFrom'',
      ''match_case'', ''MatchValue'', ''MatchSingleton'', ''MatchSequence'', ''MatchStar'',
      ''MatchMapping'', ''MatchClass'', ''MatchAs'', ''MatchOr'',
      ''arguments'', ''arg'', ''keyword'', ''alias'', ''withitem'']
     @ operator_tags
     @ (if 11 \<le> minor then [''TryStar''] else [])
     @ versioned_tags minor"

lemmas recurse_tags_defs = recurse_tags_def operator_tags_def versioned_tags_def

definition special_tags :: "string list" where
  "special_tags =
     [''Module'', ''AnnAssign'', ''Assign'', ''AugAssign'', ''Delete'', ''Import'', ''ImportFrom'',
      ''Global'', ''Nonlocal'', ''FunctionDef'', ''AsyncFunctionDef'', ''ClassDef'', ''Lambda'',
      ''For'', ''AsyncFor'', ''While'', ''With'', ''AsyncWith'', ''Attribute'', ''Name'',
      ''ExceptHandler'', ''comprehension'']"

section \<open>Name checks\<close>

definition check_name_store :: "string \<Rightarrow> unit res" where
  "check_name_store name =
     (if startswith name ''__st_'' then refuse (''Cannot assign to reserved name '' @ name)
      else if name \<in> set BLOCKED_NAMES then refuse (''Cannot assign to '' @ name)
      else Inr ())"

definition check_name_del :: "string \<Rightarrow> unit res" where
  "check_name_del name =
     (if startswith name ''__st_'' then refuse (''Cannot delete reserved name '' @ name)
      else if name \<in> set BLOCKED_NAMES then refuse (''Cannot delete '' @ name)
      else Inr ())"

definition is_tuple :: "node \<Rightarrow> bool" where
  "is_tuple n = (tag n = ''Tuple'' \<or> tag n = ''List'')"

definition has_ctx :: "node \<Rightarrow> string \<Rightarrow> bool" where
  "has_ctx n c = (case get_node n ''ctx'' of Some m \<Rightarrow> tag m = c | None \<Rightarrow> False)"

function check_assign_targets :: "node \<Rightarrow> unit res"
  and check_targets :: "val list \<Rightarrow> unit res"
where
  "check_assign_targets t =
     (if tag t = ''Name'' \<and> (has_ctx t ''Store'' \<or> has_ctx t ''Del'') then check_name_store (get_id t ''id'')
      else if is_tuple t then check_targets (get_vals t ''elts'')
      else Inr ())"
| "check_targets [] = Inr ()"
| "check_targets (N t # ts) = rbind (check_assign_targets t) (\<lambda>_. check_targets ts)"
| "check_targets (K c # ts) = check_targets ts"
  by pat_completeness auto
termination
  by (relation "measure (case_sum nsz vlsz)") (auto simp: get_vals_strict)

function has_attr_in_target :: "node \<Rightarrow> bool" and any_attr :: "val list \<Rightarrow> bool"
where
  "has_attr_in_target t =
     (if tag t = ''Attribute'' then True
      else if is_tuple t then any_attr (get_vals t ''elts'')
      else False)"
| "any_attr [] = False"
| "any_attr (N t # ts) = (has_attr_in_target t \<or> any_attr ts)"
| "any_attr (K c # ts) = any_attr ts"
  by pat_completeness auto
termination
  by (relation "measure (case_sum nsz vlsz)") (auto simp: get_vals_strict)

section \<open>Gate calls\<close>

definition new_tmp :: "nat \<Rightarrow> string" where
  "new_tmp k = ''__st_tmp_'' @ str_of_nat k"

definition make_getattr :: "node \<Rightarrow> string \<Rightarrow> node" where
  "make_getattr obj attr = mk_call (mk_name ''__st_getattr__'' ''Load'') [obj, mk_const (KStr attr)] []"

definition make_setattr :: "node \<Rightarrow> string \<Rightarrow> node \<Rightarrow> node" where
  "make_setattr obj attr v =
     mk_expr (mk_call (mk_name ''__st_setattr__'' ''Load'') [obj, mk_const (KStr attr), v] [])"

definition make_delattr :: "node \<Rightarrow> string \<Rightarrow> node" where
  "make_delattr obj attr =
     mk_expr (mk_call (mk_name ''__st_delattr__'' ''Load'') [obj, mk_const (KStr attr)] [])"

definition checkpoint_call :: node where
  "checkpoint_call = mk_call (mk_name ''__st_checkpoint__'' ''Load'') [] []"

text \<open>
  The leaves of an assignment target in the order they are emitted: an attribute
  to set, a plain target to assign, or a starred element, which is refused.
\<close>

datatype titem = TAttr node string node | TPlain node node | TStar

function flat_target :: "node \<Rightarrow> node \<Rightarrow> titem list"
  and flat_elts :: "node \<Rightarrow> nat \<Rightarrow> val list \<Rightarrow> titem list"
where
  "flat_target v t =
     (if tag t = ''Attribute'' then
        (case get_node t ''value'' of
           Some obj \<Rightarrow> [TAttr obj (get_id t ''attr'') v]
         | None \<Rightarrow> [])
      else if is_tuple t then flat_elts v 0 (get_vals t ''elts'')
      else [TPlain t v])"
| "flat_elts v i [] = []"
| "flat_elts v i (N e # es) =
     (if tag e = ''Starred'' then [TStar]
      else flat_target (mk_subscript v i) e @ flat_elts v (Suc i) es)"
| "flat_elts v i (K c # es) = flat_elts v (Suc i) es"
  by pat_completeness auto
termination
  by (relation "measure (case_sum (\<lambda>(v, t). nsz t) (\<lambda>(v, i, es). vlsz es))")
    (auto simp: get_vals_strict)

fun item_nodes :: "titem list \<Rightarrow> node list" where
  "item_nodes [] = []"
| "item_nodes (TAttr obj a v # r) = obj # item_nodes r"
| "item_nodes (TPlain t v # r) = t # item_nodes r"
| "item_nodes (TStar # r) = []"

lemma item_nodes_append:
  "set (item_nodes (xs @ ys)) \<subseteq> set (item_nodes xs) \<union> set (item_nodes ys)"
  by (induction xs rule: item_nodes.induct) auto

text \<open>\<open>_emit_target_assign\<close> on the leaves, with the visited node of each.\<close>

fun emit_items :: "titem list \<Rightarrow> node list \<Rightarrow> node list res" where
  "emit_items (TAttr obj a v # r) (m # ms) = rbind (emit_items r ms) (\<lambda>out. Inr (make_setattr m a v # out))"
| "emit_items (TPlain t v # r) (m # ms) = rbind (emit_items r ms) (\<lambda>out. Inr (mk_assign m v # out))"
| "emit_items (TStar # r) ms = refuse ''Starred unpacking with attribute targets not yet supported''"
| "emit_items _ _ = Inr []"

section \<open>Imports\<close>

definition import_stmt :: "node \<Rightarrow> node" where
  "import_stmt a =
     (let name = get_id a ''name'' in
      (case get_str a ''asname'' of
         Some x \<Rightarrow> mk_assign (mk_name x ''Store'')
                    (mk_call (mk_name ''__st_import__'' ''Load'') [mk_const (KStr name)]
                       [mk_keyword ''alias'' (mk_const (KStr x))])
       | None \<Rightarrow> mk_assign (mk_name (hd (split_on CHR ''.'' name)) ''Store'')
                   (mk_call (mk_name ''__st_import__'' ''Load'') [mk_const (KStr name)] [])))"

definition importfrom_stmt :: "string \<Rightarrow> int \<Rightarrow> node \<Rightarrow> node" where
  "importfrom_stmt mname level a =
     (let name = get_id a ''name'';
          bind = (case get_str a ''asname'' of
                    Some x \<Rightarrow> if x \<noteq> [] then x else name
                  | None \<Rightarrow> name)
      in mk_assign (mk_name bind ''Store'')
           (mk_call (mk_name ''__st_importfrom__'' ''Load'')
              [mk_const (KStr mname), mk_const (KStr name)]
              (if level > 0 then [mk_keyword ''_level'' (mk_const (KInt level))] else [])))"

section \<open>Bodies\<close>

text \<open>Insert the checkpoint first, after a docstring if there is one.\<close>

definition insert_checkpoint :: "val list \<Rightarrow> val list" where
  "insert_checkpoint body =
     (case body of
        N s # rest \<Rightarrow> if is_docstring s then N s # N (mk_expr checkpoint_call) # rest
                      else N (mk_expr checkpoint_call) # N s # rest
      | _ \<Rightarrow> N (mk_expr checkpoint_call) # body)"

definition add_checkpoint :: "node \<Rightarrow> node" where
  "add_checkpoint n = set_fld ''body'' (Many (insert_checkpoint (get_vals n ''body''))) n"

definition wrap_context_capture :: "node \<Rightarrow> node list" where
  "wrap_context_capture n =
     (let name = get_id n ''name'';
          capture = mk_assign (mk_name name ''Store'')
                      (mk_call (mk_name ''__st_capture_context__'' ''Load'') [mk_name name ''Load''] []);
          decorators = get_nodes n ''decorator_list''
      in (if decorators = [] then [n, capture]
          else set_fld ''decorator_list'' (Many []) n # capture #
               map (\<lambda>d. mk_assign (mk_name name ''Store'') (mk_call d [mk_name name ''Load''] []))
                 (rev decorators)))"

text \<open>Echo: which of the module's statements are wrapped in \<open>__st_display__\<close>.\<close>

definition echo_index :: "string \<Rightarrow> val list \<Rightarrow> nat \<Rightarrow> bool" where
  "echo_index echo body i =
     (case body ! i of
        N s \<Rightarrow> tag s = ''Expr'' \<and> \<not> (i = 0 \<and> length body > 1 \<and> is_docstring s)
               \<and> (echo = ''last'' \<longrightarrow> i = length body - 1)
      | K c \<Rightarrow> False)"

definition wrap_display :: "node \<Rightarrow> node" where
  "wrap_display s =
     (case get_node s ''value'' of
        Some v \<Rightarrow> set_fld ''value'' (One (N (mk_call (mk_name ''__st_display__'' ''Load'') [v] []))) s
      | None \<Rightarrow> s)"

definition inject_display :: "string \<Rightarrow> node \<Rightarrow> node" where
  "inject_display echo n =
     (let body = get_vals n ''body'' in
      set_fld ''body'' (Many (map (\<lambda>i. if echo_index echo body i
                                        then (case body ! i of N s \<Rightarrow> N (wrap_display s) | K c \<Rightarrow> K c)
                                        else body ! i) [0..<length body])) n)"

definition finish_module :: "rcfg \<Rightarrow> node \<Rightarrow> node" where
  "finish_module cfg n = (if rw_echo cfg \<noteq> ''none'' then inject_display (rw_echo cfg) n else n)"

definition finish_comprehension :: "node \<Rightarrow> node" where
  "finish_comprehension n =
     set_fld ''ifs'' (Many (N (Node ''BoolOp''
        [(''op'', One (N (leaf ''Or''))),
         (''values'', Many [N checkpoint_call, N (mk_const (KBool True))])])
       # get_vals n ''ifs'')) n"

section \<open>Postponed annotations\<close>

text \<open>
  Under \<open>from __future__ import annotations\<close> the annotations are taken off a
  node, checked on a copy, and put back as written after the node is rewritten.
  They belong to parameters (\<open>annotation\<close>), to a function (\<open>returns\<close>) or to an
  annotated assignment (\<open>annotation\<close>).
\<close>

definition param_lists :: "string list" where
  "param_lists = [''posonlyargs'', ''args'', ''kwonlyargs'']"

definition params_of :: "node \<Rightarrow> node list" where
  "params_of a =
     concat (map (get_nodes a) param_lists)
     @ (case get_node a ''vararg'' of Some p \<Rightarrow> [p] | None \<Rightarrow> [])
     @ (case get_node a ''kwarg'' of Some p \<Rightarrow> [p] | None \<Rightarrow> [])"

definition def_annotations :: "node \<Rightarrow> node list" where
  "def_annotations n =
     (case get_node n ''args'' of
        Some a \<Rightarrow> List.map_filter (\<lambda>p. get_node p ''annotation'') (params_of a)
      | None \<Rightarrow> [])
     @ (case get_node n ''returns'' of Some r \<Rightarrow> [r] | None \<Rightarrow> [])"

fun strip_val :: "val \<Rightarrow> val" where
  "strip_val (N p) =
     (if get_node p ''annotation'' = None then N p
      else N (set_fld ''annotation'' (One (K KNone)) p))"
| "strip_val (K c) = K c"

fun strip_field :: "field \<Rightarrow> field" where
  "strip_field (One v) = One (strip_val v)"
| "strip_field (Many vs) = Many (map strip_val vs)"

definition is_param_field :: "string \<Rightarrow> bool" where
  "is_param_field k = (k \<in> set param_lists \<or> k = ''vararg'' \<or> k = ''kwarg'')"

definition strip_args :: "node \<Rightarrow> node" where
  "strip_args a = Node (tag a) (map (\<lambda>(k, f). (k, if is_param_field k then strip_field f else f)) (flds a))"

definition strip_def :: "node \<Rightarrow> node" where
  "strip_def n =
     (let n1 = (case get_node n ''args'' of
                  Some a \<Rightarrow> set_fld ''args'' (One (N (strip_args a))) n | None \<Rightarrow> n)
      in (case get_node n1 ''returns'' of
            Some r \<Rightarrow> set_fld ''returns'' (One (K KNone)) n1 | None \<Rightarrow> n1))"

fun restore_val :: "val \<Rightarrow> val \<Rightarrow> val" where
  "restore_val (N p) (N q) =
     (case get_node p ''annotation'' of
        Some a \<Rightarrow> N (set_fld ''annotation'' (One (N a)) q)
      | None \<Rightarrow> N q)"
| "restore_val _ v = v"

fun restore_vals :: "val list \<Rightarrow> val list \<Rightarrow> val list" where
  "restore_vals (p # ps) (q # qs) = restore_val p q # restore_vals ps qs"
| "restore_vals _ qs = qs"

fun restore_field :: "field \<Rightarrow> field \<Rightarrow> field" where
  "restore_field (One p) (One q) = One (restore_val p q)"
| "restore_field (Many ps) (Many qs) = Many (restore_vals ps qs)"
| "restore_field _ f = f"

definition restore_args :: "node \<Rightarrow> node \<Rightarrow> node" where
  "restore_args a b =
     Node (tag b) (map (\<lambda>(k, f). (k, case fld a k of
                                        Some g \<Rightarrow> if is_param_field k then restore_field g f else f
                                      | None \<Rightarrow> f)) (flds b))"

definition restore_def :: "node \<Rightarrow> node \<Rightarrow> node" where
  "restore_def n m =
     (let m1 = (case (get_node n ''args'', get_node m ''args'') of
                  (Some a, Some b) \<Rightarrow> set_fld ''args'' (One (N (restore_args a b))) m
                | _ \<Rightarrow> m)
      in (case get_node n ''returns'' of
            Some r \<Rightarrow> set_fld ''returns'' (One (N r)) m1 | None \<Rightarrow> m1))"

text \<open>\<open>_hold_annotations\<close> and \<open>_put_back\<close>, for the two kinds of owner.\<close>

definition hold_annotations :: "rcfg \<Rightarrow> node \<Rightarrow> node list" where
  "hold_annotations cfg n =
     (if \<not> postponed cfg then []
      else if tag n = ''AnnAssign'' then
        (case get_node n ''annotation'' of Some a \<Rightarrow> [a] | None \<Rightarrow> [])
      else def_annotations n)"

definition without_annotations :: "rcfg \<Rightarrow> node \<Rightarrow> node" where
  "without_annotations cfg n =
     (if \<not> postponed cfg then n
      else if tag n = ''AnnAssign'' then
        (case get_node n ''annotation'' of
           Some a \<Rightarrow> set_fld ''annotation'' (One (K KNone)) n | None \<Rightarrow> n)
      else strip_def n)"

definition put_back :: "rcfg \<Rightarrow> node \<Rightarrow> node \<Rightarrow> node" where
  "put_back cfg n m =
     (if \<not> postponed cfg then m
      else if tag n = ''AnnAssign'' then
        (case get_node n ''annotation'' of
           Some a \<Rightarrow> set_fld ''annotation'' (One (N a)) m | None \<Rightarrow> m)
      else restore_def n m)"

subsection \<open>Sizes of the stripped nodes\<close>

lemma nsz_set_le:
  assumes "fld n f = Some g" "fsz x \<le> fsz g"
  shows "nsz (set_fld f x n) \<le> nsz n"
  using assms flsz_dset_Some [of "flds n" f g x] by (simp add: nsz_eq set_fld_def fld_def)

lemma get_node_fld: "get_node n f = Some m \<longleftrightarrow> fld n f = Some (One (N m))"
  by (auto simp: get_node_def split: option.splits field.splits val.splits)

lemma nsz_set_None: "get_node p f = Some a \<Longrightarrow> nsz (set_fld f (One (K KNone)) p) \<le> nsz p"
  by (rule nsz_set_le) (auto simp: get_node_fld)

lemma nsz_set_smaller:
  "get_node n f = Some a \<Longrightarrow> nsz b \<le> nsz a \<Longrightarrow> nsz (set_fld f (One (N b)) n) \<le> nsz n"
  by (rule nsz_set_le) (auto simp: get_node_fld)

lemma vsz_strip: "vsz (strip_val v) \<le> vsz v"
  by (cases v) (auto intro: nsz_set_None)

lemma vlsz_strip: "vlsz (map strip_val vs) \<le> vlsz vs"
  by (induction vs) (auto intro!: add_mono vsz_strip)

lemma fsz_strip: "fsz (strip_field f) \<le> fsz f"
  by (cases f) (auto intro: vsz_strip vlsz_strip)

lemma flsz_strip:
  "flsz (map (\<lambda>(k, f). (k, if is_param_field k then strip_field f else f)) fs) \<le> flsz fs"
  by (induction fs) (auto intro!: add_mono fsz_strip)

lemma nsz_strip_args: "nsz (strip_args a) \<le> nsz a"
  using flsz_strip [of "flds a"] by (cases a) (simp add: strip_args_def)

lemma nsz_strip_def: "nsz (strip_def n) \<le> nsz n"
proof -
  let ?n1 = "case get_node n ''args'' of
               Some a \<Rightarrow> set_fld ''args'' (One (N (strip_args a))) n | None \<Rightarrow> n"
  have "nsz ?n1 \<le> nsz n" by (auto split: option.splits intro: nsz_set_smaller nsz_strip_args)
  moreover have "nsz (strip_def n) \<le> nsz ?n1"
    by (auto simp: strip_def_def Let_def split: option.splits intro: nsz_set_None)
  ultimately show ?thesis by simp
qed

lemma nsz_without: "flsz (flds (without_annotations cfg n)) < nsz n"
proof -
  have "nsz (without_annotations cfg n) \<le> nsz n"
    by (auto simp: without_annotations_def split: option.splits intro: nsz_set_None nsz_strip_def)
  with flsz_less_nsz [of "without_annotations cfg n"] show ?thesis by simp
qed

lemma params_of_nsz: "p \<in> set (params_of a) \<Longrightarrow> nsz p < nsz a"
  by (auto simp: params_of_def split: option.splits dest: get_nodes_nsz get_node_less)

lemma def_annotations_nsz: "a \<in> set (def_annotations n) \<Longrightarrow> nsz a < nsz n"
  by (auto simp: def_annotations_def set_map_filter split: option.splits
      dest!: get_node_less params_of_nsz)

lemma hold_annotations_nsz: "a \<in> set (hold_annotations cfg n) \<Longrightarrow> nsz a < nsz n"
  by (auto simp: hold_annotations_def split: if_splits option.splits
      dest: get_node_less def_annotations_nsz)

lemma flat_target_nsz:
  "m \<in> set (item_nodes (flat_target v t)) \<Longrightarrow> nsz m \<le> nsz t"
  "m \<in> set (item_nodes (flat_elts v i es)) \<Longrightarrow> nsz m \<le> vlsz es"
proof (induction v t and v i es rule: flat_target_flat_elts.induct)
  case (1 v t)
  then show ?case
    using get_vals_strict [of t "''elts''"]
    by (auto split: if_splits option.splits dest: get_node_nsz)
next
  case (3 v i e es)
  then show ?case by (auto split: if_splits dest!: subsetD [OF item_nodes_append])
qed auto

section \<open>The handlers' own checks\<close>

definition names_of :: "val list \<Rightarrow> string list" where
  "names_of vs = List.map_filter (\<lambda>v. case v of K (KStr s) \<Rightarrow> Some s | _ \<Rightarrow> None) vs"

definition check_global :: "string \<Rightarrow> node \<Rightarrow> unit res" where
  "check_global kind n =
     (case find (\<lambda>x. startswith x ''__st_'' \<or> x \<in> set BLOCKED_NAMES) (names_of (get_vals n ''names'')) of
        Some x \<Rightarrow> refuse (''Cannot declare '' @ x @ '' as '' @ kind)
      | None \<Rightarrow> Inr ())"

definition check_classdef :: "node \<Rightarrow> unit res" where
  "check_classdef n =
     (if list_ex (\<lambda>i. (tag i = ''FunctionDef'' \<or> tag i = ''AsyncFunctionDef'')
                      \<and> get_id i ''name'' = ''__del__'') (get_nodes n ''body'')
      then refuse ''__del__ methods are not allowed in sandboxed classes'' else Inr ())"

definition check_for :: "node \<Rightarrow> unit res" where
  "check_for n =
     (case get_node n ''target'' of
        Some t \<Rightarrow> if has_attr_in_target t
                  then refuse ''Attribute targets in for loops are not supported'' else Inr ()
      | None \<Rightarrow> Inr ())"

definition check_with :: "node \<Rightarrow> unit res" where
  "check_with n =
     (if list_ex (\<lambda>i. case get_node i ''optional_vars'' of
                        Some t \<Rightarrow> has_attr_in_target t | None \<Rightarrow> False) (get_nodes n ''items'')
      then refuse ''Attribute targets in with statements are not supported'' else Inr ())"

definition check_delete :: "node \<Rightarrow> unit res" where
  "check_delete n =
     foldr (\<lambda>t r. rbind (if tag t = ''Name'' then check_name_del (get_id t ''id'') else Inr ()) (\<lambda>_. r))
       (get_nodes n ''targets'') (Inr ())"

definition check_importfrom :: "node \<Rightarrow> unit res" where
  "check_importfrom n =
     (if is_future n then
        refuse ''from __future__ imports must occur at the beginning of the file''
      else if list_ex (\<lambda>a. get_id a ''name'' = ''*'') (get_nodes n ''names'') then
        refuse ''Wildcard imports are not allowed''
      else Inr ())"

definition importfrom_level :: "node \<Rightarrow> int" where
  "importfrom_level n = (case get_const n ''level'' of KInt i \<Rightarrow> i | _ \<Rightarrow> 0)"

definition fill_handler :: "node \<Rightarrow> node" where
  "fill_handler n =
     (if get_node n ''type'' = None
      then set_fld ''type'' (One (N (mk_name ''Exception'' ''Load''))) n else n)"

lemma fill_handler_size: "tag n = ''ExceptHandler'' \<Longrightarrow> flsz (flds (fill_handler n)) < nsz n"
  using flsz_dset [of "''type''" "One (N (mk_name ''Exception'' ''Load''))" "flds n"]
  by (auto simp: fill_handler_def nsz_eq set_fld_def mk_defs)

text \<open>An attribute node's object and attribute name.\<close>

definition attr_parts :: "node \<Rightarrow> (node \<times> string) option" where
  "attr_parts t =
     (if tag t = ''Attribute'' then map_option (\<lambda>v. (v, get_id t ''attr'')) (get_node t ''value'')
      else None)"

definition target_attr :: "node \<Rightarrow> (node \<times> string) option" where
  "target_attr n = (case get_node n ''target'' of Some t \<Rightarrow> attr_parts t | None \<Rightarrow> None)"

definition delete_node :: "node \<Rightarrow> node" where
  "delete_node t = (case attr_parts t of Some (obj, a) \<Rightarrow> obj | None \<Rightarrow> t)"

definition delete_stmt :: "node \<Rightarrow> node \<Rightarrow> node" where
  "delete_stmt t m =
     (case attr_parts t of
        Some (obj, a) \<Rightarrow> make_delattr m a
      | None \<Rightarrow> Node ''Delete'' [(''targets'', Many [N m])])"

lemma attr_parts_nsz: "attr_parts t = Some (obj, a) \<Longrightarrow> nsz obj < nsz t"
  by (auto simp: attr_parts_def split: if_splits dest: get_node_less)

lemma target_attr_nsz:
  assumes "target_attr n = Some (obj, a)"
  shows "nsz obj < nsz n"
proof -
  obtain t where "get_node n ''target'' = Some t" "attr_parts t = Some (obj, a)"
    using assms by (auto simp: target_attr_def split: option.splits)
  then show ?thesis using attr_parts_nsz get_node_less(1) less_trans by blast
qed

lemma target_attr_less: "Some (obj, a) = target_attr n \<Longrightarrow> nsz obj < nsz n"
  using target_attr_nsz [of n obj a] by simp

lemma delete_node_nsz: "nsz (delete_node t) \<le> nsz t"
  by (auto simp: delete_node_def split: option.splits dest: attr_parts_nsz)

lemma delete_nodes_nmax: "nmax (map delete_node (get_nodes n f)) < nsz n"
  by (rule nmax_less) (auto intro: le_less_trans [OF delete_node_nsz get_nodes_nsz])

definition assign_items :: "node \<Rightarrow> node \<Rightarrow> titem list" where
  "assign_items n v = concat (map (flat_target v) (get_nodes n ''targets''))"

lemma concat_items:
  "m \<in> set (item_nodes (concat xss)) \<Longrightarrow> \<exists>xs \<in> set xss. m \<in> set (item_nodes xs)"
  by (induction xss) (auto dest!: subsetD [OF item_nodes_append])

lemma assign_items_nmax: "nmax (item_nodes (assign_items n v)) < nsz n"
proof (rule nmax_less)
  fix m assume "m \<in> set (item_nodes (assign_items n v))"
  then obtain t where "t \<in> set (get_nodes n ''targets'')" "m \<in> set (item_nodes (flat_target v t))"
    by (auto simp: assign_items_def dest!: concat_items)
  then show "nsz m < nsz n" using flat_target_nsz(1) get_nodes_nsz le_less_trans by blast
qed simp

lemma hold_annotations_nmax: "nmax (hold_annotations cfg n) < nsz n"
  by (rule nmax_less) (auto intro: hold_annotations_nsz)

section \<open>The visitor\<close>

datatype vres = VOne node | VMany "node list"

text \<open>
  The node a visit yields where the grammar has one node; a list of statements
  there does not arise from parsed source.
\<close>

fun expr_of :: "vres \<Rightarrow> node" where
  "expr_of (VOne n) = n"
| "expr_of (VMany ns) = Node ''list'' [(''elts'', Many (map N ns))]"

fun field_of :: "vres \<Rightarrow> field" where
  "field_of (VOne n) = One (N n)"
| "field_of (VMany ns) = Many (map N ns)"

fun vals_of :: "vres \<Rightarrow> val list" where
  "vals_of (VOne n) = [N n]"
| "vals_of (VMany ns) = map N ns"

definition stmts_result :: "node list \<Rightarrow> vres" where
  "stmts_result ss = (case ss of [s] \<Rightarrow> VOne s | _ \<Rightarrow> VMany ss)"

definition no_field :: "string \<Rightarrow> 'a res" where
  "no_field f = Inl (Exc AttributeError f)"

text \<open>
  With several targets or a tuple the value goes into a temporary first: what the
  targets refer to, the statement that stores it, and the next counter.
\<close>

definition assign_prologue :: "node \<Rightarrow> node \<Rightarrow> nat \<Rightarrow> node \<times> node list \<times> nat" where
  "assign_prologue n v k =
     (if 1 < length (get_nodes n ''targets'') \<or> list_ex is_tuple (take 1 (get_nodes n ''targets''))
      then (mk_name (new_tmp k) ''Load'', [mk_assign (mk_name (new_tmp k) ''Store'') v], Suc k)
      else (v, [], k))"

text \<open>
  What becomes of a function: a checkpoint at the start of its visited body, its
  annotations put back, and the context captured; and of a lambda.
\<close>

definition finish_function :: "rcfg \<Rightarrow> node \<Rightarrow> (string \<times> field) list \<Rightarrow> node list" where
  "finish_function cfg n fs = wrap_context_capture (put_back cfg n (add_checkpoint (Node (tag n) fs)))"

definition finish_lambda :: "node \<Rightarrow> node" where
  "finish_lambda n = mk_call (mk_name ''__st_capture_context__'' ''Load'') [n] []"

declare finish_function_def [simp] finish_lambda_def [simp]

text \<open>What the visitor descends on: the size of the tree, and for a list of nodes the largest.\<close>

definition visit_measure ::
  "(rcfg \<times> node \<times> nat + rcfg \<times> (string \<times> field) list \<times> nat) + (rcfg \<times> val list \<times> nat + rcfg \<times> node list \<times> nat)
   \<Rightarrow> nat \<times> nat" where
  "visit_measure x =
     (case x of
        Inl (Inl (c, n, k)) \<Rightarrow> (nsz n, 0)
      | Inl (Inr (c, fs, k)) \<Rightarrow> (flsz fs, 0)
      | Inr (Inl (c, vs, k)) \<Rightarrow> (vlsz vs, 0)
      | Inr (Inr (c, ns, k)) \<Rightarrow> (nmax ns, Suc (length ns)))"

function visit :: "rcfg \<Rightarrow> node \<Rightarrow> nat \<Rightarrow> (vres \<times> nat) res"
  and visit_fields :: "rcfg \<Rightarrow> (string \<times> field) list \<Rightarrow> nat \<Rightarrow> ((string \<times> field) list \<times> nat) res"
  and visit_vals :: "rcfg \<Rightarrow> val list \<Rightarrow> nat \<Rightarrow> (val list \<times> nat) res"
  and visit_list :: "rcfg \<Rightarrow> node list \<Rightarrow> nat \<Rightarrow> (node list \<times> nat) res"
where
  "visit cfg n k =
     (if tag n \<in> set (recurse_tags (py_minor cfg)) then
        rbind (visit_fields cfg (flds n) k) (\<lambda>(fs, k1). Inr (VOne (Node (tag n) fs), k1))
      else if tag n = ''Module'' then
        rbind (visit_fields cfg (flds n) k)
          (\<lambda>(fs, k1). Inr (VOne (finish_module cfg (Node (tag n) fs)), k1))
      else if tag n = ''AnnAssign'' then
        (case (target_attr n, get_node n ''value'') of
           (Some (obj, a), Some v) \<Rightarrow>
             rbind (visit cfg obj k) (\<lambda>(o1, k1).
             rbind (visit cfg v k1) (\<lambda>(v1, k2).
               Inr (VOne (make_setattr (expr_of o1) a (expr_of v1)), k2)))
         | _ \<Rightarrow>
             rbind (visit_list cfg (hold_annotations cfg n) k) (\<lambda>(_, k1).
             rbind (visit_fields cfg (flds (without_annotations cfg n)) k1) (\<lambda>(fs, k2).
               Inr (VOne (put_back cfg n (Node (tag n) fs)), k2))))
      else if tag n = ''Assign'' then
        rbind (check_targets (get_vals n ''targets'')) (\<lambda>_.
          if \<not> any_attr (get_vals n ''targets'') then
            rbind (visit_fields cfg (flds n) k) (\<lambda>(fs, k1). Inr (VOne (Node (tag n) fs), k1))
          else
            (case get_node n ''value'' of
               None \<Rightarrow> no_field ''value''
             | Some v \<Rightarrow>
                 rbind (visit cfg v k) (\<lambda>(v1, k1).
                   case assign_prologue n (expr_of v1) k1 of (ref, pre, k2) \<Rightarrow>
                     rbind (visit_list cfg (item_nodes (assign_items n ref)) k2) (\<lambda>(ms, k3).
                     rbind (emit_items (assign_items n ref) ms) (\<lambda>out.
                       Inr (VMany (pre @ out), k3))))))
      else if tag n = ''AugAssign'' then
        (case target_attr n of
           None \<Rightarrow> rbind (visit_fields cfg (flds n) k) (\<lambda>(fs, k1). Inr (VOne (Node (tag n) fs), k1))
         | Some (obj, a) \<Rightarrow>
             (case get_node n ''value'' of
                None \<Rightarrow> no_field ''value''
              | Some v \<Rightarrow>
                  rbind (visit cfg obj k) (\<lambda>(o1, k1).
                  rbind (visit cfg v k1) (\<lambda>(v1, k2).
                    let tmp = new_tmp k2;
                        get_call = make_getattr (mk_name tmp ''Load'') a;
                        op = (case get_node n ''op'' of Some p \<Rightarrow> p | None \<Rightarrow> leaf ''Add'');
                        binop = Node ''BinOp'' [(''left'', One (N get_call)), (''op'', One (N op)),
                                                (''right'', One (N (expr_of v1)))]
                    in Inr (VMany [mk_assign (mk_name tmp ''Store'') (expr_of o1),
                                   make_setattr (mk_name tmp ''Load'') a binop], Suc k2)))))
      else if tag n = ''Delete'' then
        rbind (check_delete n) (\<lambda>_.
          if \<not> list_ex (\<lambda>t. tag t = ''Attribute'') (get_nodes n ''targets'') then
            rbind (visit_fields cfg (flds n) k) (\<lambda>(fs, k1). Inr (VOne (Node (tag n) fs), k1))
          else
            rbind (visit_list cfg (map delete_node (get_nodes n ''targets'')) k) (\<lambda>(ms, k1).
              Inr (VMany (map2 delete_stmt (get_nodes n ''targets'') ms), k1)))
      else if tag n = ''Import'' then
        Inr (stmts_result (map import_stmt (get_nodes n ''names'')), k)
      else if tag n = ''ImportFrom'' then
        rbind (check_importfrom n) (\<lambda>_.
          Inr (stmts_result (map (importfrom_stmt (get_id n ''module'') (importfrom_level n))
                               (get_nodes n ''names'')), k))
      else if tag n = ''Global'' then
        rbind (check_global ''global'' n) (\<lambda>_.
        rbind (visit_fields cfg (flds n) k) (\<lambda>(fs, k1). Inr (VOne (Node (tag n) fs), k1)))
      else if tag n = ''Nonlocal'' then
        rbind (check_global ''nonlocal'' n) (\<lambda>_.
        rbind (visit_fields cfg (flds n) k) (\<lambda>(fs, k1). Inr (VOne (Node (tag n) fs), k1)))
      else if tag n = ''FunctionDef'' \<or> tag n = ''AsyncFunctionDef'' then
        rbind (visit_list cfg (hold_annotations cfg n) k) (\<lambda>(_, k1).
        rbind (visit_fields cfg (flds (without_annotations cfg n)) k1) (\<lambda>(fs, k2).
          Inr (VMany (finish_function cfg n fs), k2)))
      else if tag n = ''ClassDef'' then
        rbind (check_classdef n) (\<lambda>_.
        rbind (visit_fields cfg (flds n) k) (\<lambda>(fs, k1). Inr (VOne (Node (tag n) fs), k1)))
      else if tag n = ''Lambda'' then
        rbind (visit_fields cfg (flds n) k) (\<lambda>(fs, k1).
          Inr (VOne (finish_lambda (Node (tag n) fs)), k1))
      else if tag n = ''For'' \<or> tag n = ''AsyncFor'' then
        rbind (check_for n) (\<lambda>_.
        rbind (visit_fields cfg (flds n) k) (\<lambda>(fs, k1).
          Inr (VOne (add_checkpoint (Node (tag n) fs)), k1)))
      else if tag n = ''While'' then
        rbind (visit_fields cfg (flds n) k) (\<lambda>(fs, k1).
          Inr (VOne (add_checkpoint (Node (tag n) fs)), k1))
      else if tag n = ''With'' \<or> tag n = ''AsyncWith'' then
        rbind (check_with n) (\<lambda>_.
        rbind (visit_fields cfg (flds n) k) (\<lambda>(fs, k1). Inr (VOne (Node (tag n) fs), k1)))
      else if tag n = ''Attribute'' then
        (case get_node n ''value'' of
           None \<Rightarrow> no_field ''value''
         | Some v \<Rightarrow>
             rbind (visit cfg v k) (\<lambda>(v1, k1).
               Inr (VOne (if has_ctx n ''Load'' then make_getattr (expr_of v1) (get_id n ''attr'')
                          else set_fld ''value'' (One (N (expr_of v1))) n), k1)))
      else if tag n = ''Name'' then
        (if has_ctx n ''Load'' \<and> get_id n ''id'' = ''__import__'' then
           Inr (VOne (mk_name DYNAMIC_IMPORT_GATE ''Load''), k)
         else if has_ctx n ''Load'' \<and> startswith (get_id n ''id'') ''__st_'' then
           refuse (''Cannot reference reserved name '' @ get_id n ''id'')
         else if has_ctx n ''Load'' \<and> get_id n ''id'' \<in> set BLOCKED_LOAD_NAMES then
           refuse (''Cannot access '' @ get_id n ''id'')
         else
           rbind (if has_ctx n ''Store'' then check_name_store (get_id n ''id'')
                  else if has_ctx n ''Del'' then check_name_del (get_id n ''id'')
                  else Inr ()) (\<lambda>_.
           rbind (visit_fields cfg (flds n) k) (\<lambda>(fs, k1). Inr (VOne (Node (tag n) fs), k1))))
      else if tag n = ''ExceptHandler'' then
        rbind (visit_fields cfg (flds (fill_handler n)) k) (\<lambda>(fs, k1).
          Inr (VOne (Node (tag n) fs), k1))
      else if tag n = ''comprehension'' then
        rbind (visit_fields cfg (flds n) k) (\<lambda>(fs, k1).
          Inr (VOne (finish_comprehension (Node (tag n) fs)), k1))
      else refuse (''Unsupported syntax: '' @ tag n))"
| "visit_fields cfg [] k = Inr ([], k)"
| "visit_fields cfg ((f, One (N m)) # fs) k =
     rbind (visit cfg m k) (\<lambda>(r, k1).
     rbind (visit_fields cfg fs k1) (\<lambda>(fs1, k2). Inr ((f, field_of r) # fs1, k2)))"
| "visit_fields cfg ((f, One (K c)) # fs) k =
     rbind (visit_fields cfg fs k) (\<lambda>(fs1, k1). Inr ((f, One (K c)) # fs1, k1))"
| "visit_fields cfg ((f, Many vs) # fs) k =
     rbind (visit_vals cfg vs k) (\<lambda>(vs1, k1).
     rbind (visit_fields cfg fs k1) (\<lambda>(fs1, k2). Inr ((f, Many vs1) # fs1, k2)))"
| "visit_vals cfg [] k = Inr ([], k)"
| "visit_vals cfg (N m # vs) k =
     rbind (visit cfg m k) (\<lambda>(r, k1).
     rbind (visit_vals cfg vs k1) (\<lambda>(vs1, k2). Inr (vals_of r @ vs1, k2)))"
| "visit_vals cfg (K c # vs) k =
     rbind (visit_vals cfg vs k) (\<lambda>(vs1, k1). Inr (K c # vs1, k1))"
| "visit_list cfg [] k = Inr ([], k)"
| "visit_list cfg (m # ms) k =
     rbind (visit cfg m k) (\<lambda>(r, k1).
     rbind (visit_list cfg ms k1) (\<lambda>(ms1, k2). Inr (expr_of r # ms1, k2)))"
  by pat_completeness auto

termination
  by (relation "inv_image (less_than <*lex*> less_than) visit_measure")
    (auto simp: visit_measure_def flsz_less_nsz nsz_without fill_handler_size
      hold_annotations_nmax assign_items_nmax delete_nodes_nmax max_def
      split: option.splits
      dest: target_attr_nsz target_attr_less get_node_less)

declare visit.simps [simp del]

lemma special_not_recurse [simp]: "t \<in> set special_tags \<Longrightarrow> t \<notin> set (recurse_tags m)"
  by (auto simp: special_tags_def recurse_tags_defs)

lemma special_mem [simp]:
  "''Module'' \<in> set special_tags" "''AnnAssign'' \<in> set special_tags" "''Assign'' \<in> set special_tags"
  "''AugAssign'' \<in> set special_tags" "''Delete'' \<in> set special_tags" "''Import'' \<in> set special_tags"
  "''ImportFrom'' \<in> set special_tags" "''Global'' \<in> set special_tags" "''Nonlocal'' \<in> set special_tags"
  "''FunctionDef'' \<in> set special_tags" "''AsyncFunctionDef'' \<in> set special_tags"
  "''ClassDef'' \<in> set special_tags" "''Lambda'' \<in> set special_tags" "''For'' \<in> set special_tags"
  "''AsyncFor'' \<in> set special_tags" "''While'' \<in> set special_tags" "''With'' \<in> set special_tags"
  "''AsyncWith'' \<in> set special_tags" "''Attribute'' \<in> set special_tags" "''Name'' \<in> set special_tags"
  "''ExceptHandler'' \<in> set special_tags" "''comprehension'' \<in> set special_tags"
  by (simp_all add: special_tags_def)

lemma visit_fields_induct [case_names 1 2 3 4]:
  fixes P :: "rcfg \<Rightarrow> (string \<times> field) list \<Rightarrow> nat \<Rightarrow> bool"
  assumes "\<And>cfg k. P cfg [] k"
    and "\<And>cfg f m fs k. (\<And>k1. P cfg fs k1) \<Longrightarrow> P cfg ((f, One (N m)) # fs) k"
    and "\<And>cfg f c fs k. (\<And>k1. P cfg fs k1) \<Longrightarrow> P cfg ((f, One (K c)) # fs) k"
    and "\<And>cfg f vs fs k. (\<And>k1. P cfg fs k1) \<Longrightarrow> P cfg ((f, Many vs) # fs) k"
  shows "P cfg fs k"
proof (induction fs arbitrary: k)
  case (Cons kf fs)
  obtain f x where "kf = (f, x)" by (cases kf)
  with Cons assms(2-4) show ?case by (cases x; cases "case x of One v \<Rightarrow> v | Many vs \<Rightarrow> K KNone") auto
qed (rule assms(1))

text \<open>A visit keeps the constants among a node's fields and leaves no constant where a node was.\<close>

lemma visit_fields_const:
  "visit_fields cfg fs k = Inr (fs', k') \<Longrightarrow> (dget fs' f = Some (One (K c))) \<longleftrightarrow> (dget fs f = Some (One (K c)))"
proof (induction cfg fs k arbitrary: fs' k' rule: visit_fields_induct)
  case (2 cfg g m fs k)
  then obtain r k1 fs1 where "visit_fields cfg fs k1 = Inr (fs1, k')" "fs' = (g, field_of r) # fs1"
    by (auto simp: rbind_eq_Inr_iff)
  with 2 show ?case by (cases r) auto
qed (auto simp: rbind_eq_Inr_iff)

lemma visit_fields_dom:
  "visit_fields cfg fs k = Inr (fs', k') \<Longrightarrow> map fst fs' = map fst fs"
  by (induction cfg fs k arbitrary: fs' k' rule: visit_fields_induct) (fastforce simp: rbind_eq_Inr_iff)+

lemma get_str_fld: "get_str n f = Some s \<longleftrightarrow> fld n f = Some (One (K (KStr s)))"
  by (auto simp: get_str_def get_const_def split: option.splits field.splits val.splits const.splits)

lemma visit_fields_str:
  assumes "visit_fields cfg (flds n) k = Inr (fs, k')"
  shows "get_id (Node (tag n) fs) f = get_id n f"
proof -
  have "get_str (Node (tag n) fs) f = Some s \<longleftrightarrow> get_str n f = Some s" for s
    using visit_fields_const [OF assms] by (simp add: get_str_fld fld_def)
  then have "get_str (Node (tag n) fs) f = get_str n f" by (metis option.exhaust)
  then show ?thesis by (simp add: get_id_def)
qed

lemma get_id_add: "f \<noteq> g \<Longrightarrow> get_id (set_fld g x n) f = get_id n f"
  by (simp add: get_id_def get_str_def get_const_def)

section \<open>What a rewritten program looks like\<close>

text \<open>The first statement of a body, after its docstring, is the checkpoint.\<close>

definition starts_with_checkpoint :: "val list \<Rightarrow> bool" where
  "starts_with_checkpoint body =
     (case body of
        N a # rest \<Rightarrow> a = mk_expr checkpoint_call
          \<or> is_docstring a \<and> (case rest of N b # _ \<Rightarrow> b = mk_expr checkpoint_call | _ \<Rightarrow> False)
      | _ \<Rightarrow> False)"

definition checkpoint_filter :: node where
  "checkpoint_filter =
     Node ''BoolOp'' [(''op'', One (N (leaf ''Or''))),
       (''values'', Many [N checkpoint_call, N (mk_const (KBool True))])]"

definition looping_tags :: "string list" where
  "looping_tags = [''For'', ''AsyncFor'', ''While'', ''FunctionDef'', ''AsyncFunctionDef'']"

text \<open>
  A gated node: no import statement is left, no attribute is read directly, no
  handler is bare, every loop and function checks in before its body, every
  comprehension checks in before its other filters, and neither \<open>__import__\<close> nor
  \<open>__builtins__\<close> is read.
\<close>

definition gated_node :: "node \<Rightarrow> bool" where
  "gated_node n =
     (tag n \<noteq> ''Import'' \<and> tag n \<noteq> ''ImportFrom'' \<and>
      (tag n = ''Attribute'' \<longrightarrow> \<not> has_ctx n ''Load'') \<and>
      (tag n = ''ExceptHandler'' \<longrightarrow> (\<forall>c. fld n ''type'' \<noteq> Some (One (K c))) \<and> fld n ''type'' \<noteq> None) \<and>
      (tag n \<in> set looping_tags \<longrightarrow> starts_with_checkpoint (get_vals n ''body'')) \<and>
      (tag n = ''comprehension'' \<longrightarrow> take 1 (get_vals n ''ifs'') = [N checkpoint_filter]) \<and>
      (tag n = ''Name'' \<and> has_ctx n ''Load'' \<longrightarrow>
         get_id n ''id'' \<noteq> ''__import__'' \<and> get_id n ''id'' \<noteq> ''__builtins__''))"

abbreviation gated :: "node \<Rightarrow> bool" where
  "gated \<equiv> all_n gated_node"

fun res_gated :: "vres \<Rightarrow> bool" where
  "res_gated (VOne m) = gated m"
| "res_gated (VMany ms) = list_all gated ms"

definition constrained_tags :: "string list" where
  "constrained_tags =
     [''Import'', ''ImportFrom'', ''Attribute'', ''ExceptHandler'', ''For'', ''AsyncFor'', ''While'',
      ''FunctionDef'', ''AsyncFunctionDef'', ''comprehension'', ''Name'']"

lemma gated_node_free: "tag n \<notin> set constrained_tags \<Longrightarrow> gated_node n"
  by (auto simp: gated_node_def constrained_tags_def looping_tags_def)

lemma gated_free: "t \<notin> set constrained_tags \<Longrightarrow> gated (Node t fs) \<longleftrightarrow> all_fl gated_node fs"
  by (simp add: gated_node_free)

lemma recurse_free: "t \<in> set (recurse_tags m) \<Longrightarrow> t \<notin> set constrained_tags"
  by (auto simp: recurse_tags_defs constrained_tags_def split: if_splits)

lemma free_tags [simp]:
  "''Call'' \<notin> set constrained_tags" "''Constant'' \<notin> set constrained_tags" "''Expr'' \<notin> set constrained_tags"
  "''Assign'' \<notin> set constrained_tags" "''keyword'' \<notin> set constrained_tags"
  "''Subscript'' \<notin> set constrained_tags" "''BinOp'' \<notin> set constrained_tags"
  "''BoolOp'' \<notin> set constrained_tags" "''Delete'' \<notin> set constrained_tags"
  "''Load'' \<notin> set constrained_tags" "''Store'' \<notin> set constrained_tags" "''Del'' \<notin> set constrained_tags"
  "''Or'' \<notin> set constrained_tags" "''list'' \<notin> set constrained_tags" "''Module'' \<notin> set constrained_tags"
  "''Lambda'' \<notin> set constrained_tags" "''Global'' \<notin> set constrained_tags"
  "''Nonlocal'' \<notin> set constrained_tags" "''ClassDef'' \<notin> set constrained_tags"
  "''With'' \<notin> set constrained_tags" "''AsyncWith'' \<notin> set constrained_tags"
  "''AugAssign'' \<notin> set constrained_tags" "''AnnAssign'' \<notin> set constrained_tags"
  by (simp_all add: constrained_tags_def)

subsection \<open>The nodes the rewriter builds are gated\<close>

lemma gated_name_store [simp]: "gated (mk_name i ''Store'')" "gated (mk_name i ''Del'')"
  by (simp_all add: mk_defs gated_node_def has_ctx_def get_node_def fld_def looping_tags_def)

lemma gated_name_load [simp]:
  "gated (mk_name i ''Load'') \<longleftrightarrow> i \<noteq> ''__import__'' \<and> i \<noteq> ''__builtins__''"
  by (auto simp: mk_defs gated_node_def has_ctx_def get_node_def fld_def looping_tags_def
      get_id_def get_str_def get_const_def)

lemma gated_const [simp]: "gated (mk_const c)"
  by (simp add: mk_const_def gated_node_free)

lemma gated_call [simp]:
  "gated (mk_call f as ks) \<longleftrightarrow> gated f \<and> list_all gated as \<and> list_all gated ks"
  by (simp add: mk_call_def gated_node_free)

lemma gated_keyword [simp]: "gated (mk_keyword a v) \<longleftrightarrow> gated v"
  by (simp add: mk_keyword_def gated_node_free)

lemma gated_expr [simp]: "gated (mk_expr v) \<longleftrightarrow> gated v"
  by (simp add: mk_expr_def gated_node_free)

lemma gated_assign [simp]: "gated (mk_assign t v) \<longleftrightarrow> gated t \<and> gated v"
  by (simp add: mk_assign_def gated_node_free)

lemma gated_subscript [simp]: "gated (mk_subscript v i) \<longleftrightarrow> gated v"
  by (simp add: mk_subscript_def gated_node_free leaf_def)

lemma gated_make [simp]:
  "gated (make_getattr obj a) \<longleftrightarrow> gated obj"
  "gated (make_setattr obj a v) \<longleftrightarrow> gated obj \<and> gated v"
  "gated (make_delattr obj a) \<longleftrightarrow> gated obj"
  "gated checkpoint_call"
  by (simp_all add: make_getattr_def make_setattr_def make_delattr_def checkpoint_call_def)

lemma gated_expr_of [simp]: "res_gated r \<Longrightarrow> gated (expr_of r)"
  by (cases r) (auto simp: gated_node_free)

lemma gated_field_of [simp]: "res_gated r \<Longrightarrow> all_f gated_node (field_of r)"
  by (cases r) auto

lemma gated_vals_of [simp]: "res_gated r \<Longrightarrow> all_vl gated_node (vals_of r)"
  by (cases r) auto

lemma new_tmp_plain [simp]: "new_tmp k \<noteq> ''__import__''" "new_tmp k \<noteq> ''__builtins__''"
  by (simp_all add: new_tmp_def)

lemma gated_checkpoint_filter [simp]: "gated checkpoint_filter"
  by (simp add: checkpoint_filter_def gated_node_free leaf_def)

lemma gated_import [simp]: "gated (import_stmt a)" "gated (importfrom_stmt m l a)"
  by (auto simp: import_stmt_def importfrom_stmt_def Let_def split: option.splits)

lemma gated_set_free:
  assumes "gated n" "all_f gated_node x" "tag n \<notin> set constrained_tags"
  shows "gated (set_fld f x n)"
  using assms by (cases n) (simp add: set_fld_def gated_node_free all_fl_dset)

lemma starts_insert_checkpoint [simp]: "starts_with_checkpoint (insert_checkpoint body)"
  by (auto simp: insert_checkpoint_def starts_with_checkpoint_def split: list.splits val.splits)

lemma gated_insert_checkpoint: "all_vl gated_node body \<Longrightarrow> all_vl gated_node (insert_checkpoint body)"
  by (auto simp: insert_checkpoint_def split: list.splits val.splits)

lemma gated_add_checkpoint:
  assumes "all_fl gated_node fs" "t \<in> set looping_tags"
  shows "gated (add_checkpoint (Node t fs))"
proof -
  have "all_vl gated_node (get_vals (Node t fs) ''body'')" using assms all_get_vals by fastforce
  then have "all_fl gated_node (dset ''body'' (Many (insert_checkpoint (get_vals (Node t fs) ''body''))) fs)"
    using assms by (intro all_fl_dset) (auto intro: gated_insert_checkpoint)
  with assms(2) show ?thesis
    by (auto simp: add_checkpoint_def set_fld_def gated_node_def looping_tags_def get_vals_def fld_def)
qed

lemma gated_wrap_capture:
  assumes "gated n" "tag n = ''FunctionDef'' \<or> tag n = ''AsyncFunctionDef''"
    and "get_id n ''name'' \<noteq> ''__import__''" "get_id n ''name'' \<noteq> ''__builtins__''"
  shows "list_all gated (wrap_context_capture n)"
proof -
  have fl: "all_fl gated_node (flds n)" using assms(1) by (rule all_n_fl)
  then have decs: "list_all gated (get_nodes n ''decorator_list'')" by (rule all_get_nodes)
  have "gated_node (set_fld ''decorator_list'' (Many []) n)"
    using all_n_root [OF assms(1)] assms(2) by (auto simp: gated_node_def get_vals_def looping_tags_def)
  moreover have "all_fl gated_node (flds (set_fld ''decorator_list'' (Many []) n))"
    using fl by (simp add: set_fld_def all_fl_dset)
  ultimately have "gated (set_fld ''decorator_list'' (Many []) n)" by (simp add: all_n_eq)
  with assms decs show ?thesis
    by (auto simp: wrap_context_capture_def Let_def list_all_iff)
qed

lemma gated_wrap_display: "gated s \<Longrightarrow> tag s = ''Expr'' \<Longrightarrow> gated (wrap_display s)"
  using all_get_node [OF all_n_fl] by (auto simp: wrap_display_def split: option.splits intro!: gated_set_free)

lemma list_all_map_upt: "(\<And>i. i < m \<Longrightarrow> Q (g i)) \<Longrightarrow> list_all Q (map g [0..<m])"
  by (simp add: list_all_length)

lemma gated_inject_display:
  assumes "gated n" "tag n = ''Module''"
  shows "gated (inject_display e n)"
proof -
  let ?body = "get_vals n ''body''"
  have body: "list_all (all_v gated_node) ?body"
    using assms(1) all_n_fl all_get_vals by (simp add: all_vl_iff [symmetric])
  have "all_v gated_node (if echo_index e ?body i
          then (case ?body ! i of N s \<Rightarrow> N (wrap_display s) | K c \<Rightarrow> K c) else ?body ! i)"
    if "i < length ?body" for i
  proof -
    have "all_v gated_node (?body ! i)" using body that by (simp add: list_all_length)
    then show ?thesis
      by (cases "?body ! i") (auto simp: echo_index_def intro: gated_wrap_display)
  qed
  then have "all_vl gated_node (map (\<lambda>i. if echo_index e ?body i
       then (case ?body ! i of N s \<Rightarrow> N (wrap_display s) | K c \<Rightarrow> K c) else ?body ! i) [0..<length ?body])"
    unfolding all_vl_iff by (rule list_all_map_upt)
  with assms show ?thesis
    unfolding inject_display_def Let_def by (intro gated_set_free) auto
qed

lemma gated_finish_comprehension:
  "all_fl gated_node fs \<Longrightarrow> gated (finish_comprehension (Node ''comprehension'' fs))"
  using all_get_vals [of gated_node "Node ''comprehension'' fs" "''ifs''"] gated_checkpoint_filter
  by (auto simp: finish_comprehension_def set_fld_def checkpoint_filter_def [symmetric]
      gated_node_def looping_tags_def get_vals_def fld_def intro!: all_fl_dset split: option.splits field.splits)

section \<open>Trees that come from a parser\<close>

text \<open>
  The shapes that \<open>ast.parse\<close> gives names, attributes and augmented
  assignments; the other classes are not constrained.
\<close>

definition contexts :: "node list" where
  "contexts = [leaf ''Load'', leaf ''Store'', leaf ''Del'']"

definition operators :: "string list" where
  "operators = [''Add'', ''Sub'', ''Mult'', ''Div'', ''FloorDiv'', ''Mod'', ''Pow'', ''LShift'', ''RShift'',
     ''BitOr'', ''BitXor'', ''BitAnd'', ''MatMult'']"

fun name_fields :: "(string \<times> field) list \<Rightarrow> bool" where
  "name_fields [(f1, One (K (KStr i))), (f2, One (N c))] = (f1 = ''id'' \<and> f2 = ''ctx'' \<and> c \<in> set contexts)"
| "name_fields _ = False"

fun attribute_fields :: "(string \<times> field) list \<Rightarrow> bool" where
  "attribute_fields [(f1, One (N v)), (f2, One (K (KStr a))), (f3, One (N c))] =
     (f1 = ''value'' \<and> f2 = ''attr'' \<and> f3 = ''ctx'' \<and> c \<in> set contexts)"
| "attribute_fields _ = False"

fun_cases name_fieldsE: "name_fields fs"
fun_cases attribute_fieldsE: "attribute_fields fs"

definition wf_node :: "node \<Rightarrow> bool" where
  "wf_node n =
     ((tag n = ''Name'' \<longrightarrow> name_fields (flds n)) \<and>
      (tag n = ''Attribute'' \<longrightarrow> attribute_fields (flds n)) \<and>
      (tag n = ''AugAssign'' \<longrightarrow>
        (case get_node n ''op'' of Some p \<Rightarrow> p \<in> set (map leaf operators) | None \<Rightarrow> False)))"

text \<open>
  A function whose own name is one that may not be read: the rewriter does not
  check the names that \<open>def\<close> binds, and wrapping the function reads its name.
\<close>

definition plain_def :: "node \<Rightarrow> bool" where
  "plain_def n =
     (tag n = ''FunctionDef'' \<or> tag n = ''AsyncFunctionDef'' \<longrightarrow>
        get_id n ''name'' \<noteq> ''__import__'' \<and> get_id n ''name'' \<noteq> ''__builtins__'')"

definition source_node :: "node \<Rightarrow> bool" where
  "source_node n = (wf_node n \<and> plain_def n)"

abbreviation source_tree :: "node \<Rightarrow> bool" where
  "source_tree \<equiv> all_n source_node"

section \<open>Every accepted tree is gated\<close>

text \<open>The induction hypothesis: trees smaller than a bound rewrite to gated trees.\<close>

definition below :: "rcfg \<Rightarrow> nat \<Rightarrow> bool" where
  "below cfg b \<longleftrightarrow>
     (\<forall>m k r k'. nsz m < b \<longrightarrow> source_tree m \<longrightarrow> visit cfg m k = Inr (r, k') \<longrightarrow> res_gated r)"

lemma belowD:
  "below cfg b \<Longrightarrow> visit cfg m k = Inr (r, k') \<Longrightarrow> nsz m < b \<Longrightarrow> source_tree m \<Longrightarrow> res_gated r"
  by (auto simp: below_def)

lemma visit_vals_gated:
  "below cfg b \<Longrightarrow> vlsz vs < b \<Longrightarrow> all_vl source_node vs \<Longrightarrow> visit_vals cfg vs k = Inr (vs', k') \<Longrightarrow>
   all_vl gated_node vs'"
proof (induction vs arbitrary: k vs' k')
  case (Cons v vs)
  show ?case
  proof (cases v)
    case (N m)
    with Cons.prems obtain r k1 vs1
      where "visit cfg m k = Inr (r, k1)" "visit_vals cfg vs k1 = Inr (vs1, k')" "vs' = vals_of r @ vs1"
      by (auto simp: rbind_eq_Inr_iff)
    with Cons.prems N Cons.IH [of k1 vs1 k'] belowD show ?thesis by fastforce
  next
    case (K c)
    with Cons.prems Cons.IH show ?thesis by (auto simp: rbind_eq_Inr_iff)
  qed
qed simp

lemma visit_list_gated:
  "below cfg b \<Longrightarrow> nmax ms < b \<Longrightarrow> list_all source_tree ms \<Longrightarrow> visit_list cfg ms k = Inr (ms', k') \<Longrightarrow>
   list_all gated ms'"
proof (induction ms arbitrary: k ms' k')
  case (Cons m ms)
  then obtain r k1 ms1
    where "visit cfg m k = Inr (r, k1)" "visit_list cfg ms k1 = Inr (ms1, k')" "ms' = expr_of r # ms1"
    by (auto simp: rbind_eq_Inr_iff)
  with Cons.prems Cons.IH [of k1 ms1 k'] belowD [of cfg b m k r k1] show ?case by simp
qed simp

lemma visit_fields_gated:
  "below cfg b \<Longrightarrow> flsz fs < b \<Longrightarrow> all_fl source_node fs \<Longrightarrow> visit_fields cfg fs k = Inr (fs', k') \<Longrightarrow>
   all_fl gated_node fs'"
proof (induction cfg fs k arbitrary: fs' k' rule: visit_fields_induct)
  case (2 cfg f m fs k)
  then obtain r k1 fs1 where v: "visit cfg m k = Inr (r, k1)"
    and fs: "visit_fields cfg fs k1 = Inr (fs1, k')" "fs' = (f, field_of r) # fs1"
    by (auto simp: rbind_eq_Inr_iff)
  have "res_gated r" using belowD [OF 2(2) v] 2(3,4) by simp
  moreover have "all_fl gated_node fs1" using 2(1) [OF 2(2) _ _ fs(1)] 2(3,4) by simp
  ultimately show ?case using fs(2) by simp
next
  case (4 cfg f vs fs k)
  then obtain vs1 k1 fs1 where v: "visit_vals cfg vs k = Inr (vs1, k1)"
    and fs: "visit_fields cfg fs k1 = Inr (fs1, k')" "fs' = (f, Many vs1) # fs1"
    by (auto simp: rbind_eq_Inr_iff)
  have "all_vl gated_node vs1" using visit_vals_gated [OF 4(2) _ _ v] 4(3,4) by simp
  moreover have "all_fl gated_node fs1" using 4(1) [OF 4(2) _ _ fs(1)] 4(3,4) by simp
  ultimately show ?case using fs(2) by simp
qed (auto simp: rbind_eq_Inr_iff)

lemma fields_gated:
  assumes "below cfg (nsz n)" "source_tree n" "visit_fields cfg (flds n) k = Inr (fs, k')"
  shows "all_fl gated_node fs"
  using visit_fields_gated [OF assms(1) flsz_less_nsz all_n_fl [OF assms(2)] assms(3)] .

lemma child_gated:
  assumes "below cfg (nsz n)" "source_tree n" "get_node n f = Some m" "visit cfg m k = Inr (r, k')"
  shows "gated (expr_of r)"
  using assms belowD [OF assms(1,4)] get_node_less(1) all_get_node [OF all_n_fl] by simp

lemma plain_recursion_gated:
  assumes "below cfg (nsz n)" "source_tree n" "tag n \<notin> set constrained_tags"
    and "rbind (visit_fields cfg (flds n) k) (\<lambda>(fs, k1). Inr (VOne (Node (tag n) fs), k1)) = Inr (r, k')"
  shows "res_gated r"
  using assms fields_gated by (auto simp: rbind_eq_Inr_iff gated_node_free)

lemma target_attr_child:
  assumes "target_attr n = Some (obj, a)" "all_fl P (flds n)"
  shows "all_n P obj"
proof -
  obtain t where "get_node n ''target'' = Some t" "get_node t ''value'' = Some obj"
    using assms(1) by (auto simp: target_attr_def attr_parts_def split: option.splits if_splits)
  with assms(2) show ?thesis using all_get_node all_n_fl by blast
qed

lemma delete_node_source: "all_n P t \<Longrightarrow> all_n P (delete_node t)"
  using all_get_node [OF all_n_fl, of P t "''value''"]
  by (auto simp: delete_node_def attr_parts_def split: option.splits if_splits)

lemma flat_target_source:
  "all_n P t \<Longrightarrow> list_all (all_n P) (item_nodes (flat_target v t))"
  "all_vl P es \<Longrightarrow> list_all (all_n P) (item_nodes (flat_elts v i es))"
proof (induction v t and v i es rule: flat_target_flat_elts.induct)
  case (1 v t)
  then show ?case
    by (auto split: option.splits dest: all_n_fl all_get_node all_get_vals)
next
  case (3 v i e es)
  then have "list_all (all_n P) (item_nodes (flat_target (mk_subscript v i) e))
    \<and> list_all (all_n P) (item_nodes (flat_elts v (Suc i) es))" if "tag e \<noteq> ''Starred''"
    using that by auto
  then show ?case
    using item_nodes_append by (fastforce simp: list_all_iff)
qed auto

lemma assign_items_source:
  assumes "all_fl P (flds n)"
  shows "list_all (all_n P) (item_nodes (assign_items n v))"
proof (simp add: list_all_iff, rule ballI)
  fix m assume "m \<in> set (item_nodes (assign_items n v))"
  then obtain t where t: "t \<in> set (get_nodes n ''targets'')" "m \<in> set (item_nodes (flat_target v t))"
    by (auto simp: assign_items_def dest!: concat_items)
  then have "all_n P t" using all_get_nodes [OF assms] by (auto simp: list_all_iff)
  then show "all_n P m" using flat_target_source(1) t(2) by (fastforce simp: list_all_iff)
qed

fun item_value :: "titem \<Rightarrow> node list" where
  "item_value (TAttr obj a v) = [v]"
| "item_value (TPlain t v) = [v]"
| "item_value TStar = []"

lemma flat_values_gated:
  "gated v \<Longrightarrow> list_all gated (concat (map item_value (flat_target v t)))"
  "gated v \<Longrightarrow> list_all gated (concat (map item_value (flat_elts v i es)))"
  by (induction v t and v i es rule: flat_target_flat_elts.induct)
    (auto split: option.splits)

lemma emit_items_gated:
  "emit_items items ms = Inr out \<Longrightarrow> list_all gated ms \<Longrightarrow>
   list_all gated (concat (map item_value items)) \<Longrightarrow> list_all gated out"
  by (induction items ms arbitrary: out rule: emit_items.induct)
    (auto simp: rbind_eq_Inr_iff refuse_def)

lemma assign_values_gated:
  assumes "gated v"
  shows "list_all gated (concat (map item_value (assign_items n v)))"
proof -
  have "list_all gated (concat (map item_value (concat (map (flat_target v) ts))))" for ts
    using flat_values_gated(1) [OF assms] by (induction ts) auto
  then show ?thesis by (simp add: assign_items_def)
qed

section \<open>The handlers\<close>

lemma visit_special:
  assumes "t \<in> set special_tags" "tag n = t"
  shows "(tag n \<in> set (recurse_tags m)) = False"
  using assms by simp

lemma visit_Assign_gated:
  assumes "below cfg (nsz n)" "source_tree n" "tag n = ''Assign''" "visit cfg n k = Inr (r, k')"
  shows "res_gated r"
proof -
  note visit_n = assms(4) [unfolded visit.simps [of cfg n k]]
  show ?thesis
  proof (cases "any_attr (get_vals n ''targets'')")
  case False
  with assms(3) visit_n have "rbind (visit_fields cfg (flds n) k) (\<lambda>(fs, k1). Inr (VOne (Node (tag n) fs), k1)) = Inr (r, k')"
    by (auto simp: rbind_eq_Inr_iff)
  with assms show ?thesis by (intro plain_recursion_gated) auto
next
  case True
  with assms(3) visit_n obtain v v1 k1
    where v: "get_node n ''value'' = Some v" "visit cfg v k = Inr (v1, k1)"
      and rest: "(case assign_prologue n (expr_of v1) k1 of (ref, pre, k2) \<Rightarrow>
                    rbind (visit_list cfg (item_nodes (assign_items n ref)) k2) (\<lambda>(ms, k3).
                    rbind (emit_items (assign_items n ref) ms) (\<lambda>out.
                      Inr (VMany (pre @ out), k3)))) = Inr (r, k')"
    by (auto simp: rbind_eq_Inr_iff [of "check_targets x" for x] rbind_eq_Inr_iff [of "visit c m j" for c m j]
        no_field_def split: option.splits)
  obtain ref pre k2 where ref: "assign_prologue n (expr_of v1) k1 = (ref, pre, k2)"
    by (metis prod_cases3)
  with rest obtain ms k3 out
    where ms: "visit_list cfg (item_nodes (assign_items n ref)) k2 = Inr (ms, k3)"
      and out: "emit_items (assign_items n ref) ms = Inr out" "r = VMany (pre @ out)"
    by (auto simp: rbind_eq_Inr_iff)
  have g: "gated (expr_of v1)" using child_gated assms(1,2) v by blast
  with ref have r: "gated ref" "list_all gated pre" by (auto simp: assign_prologue_def split: if_splits)
  have "list_all gated ms"
    using visit_list_gated [OF assms(1) assign_items_nmax _ ms]
      assign_items_source [OF all_n_fl [OF assms(2)]] by blast
  then have "list_all gated out"
    using emit_items_gated [OF out(1)] assign_values_gated r(1) by blast
  with r out(2) show ?thesis by simp
qed
qed

lemma visit_AugAssign_gated:
  assumes "below cfg (nsz n)" "source_tree n" "tag n = ''AugAssign''" "visit cfg n k = Inr (r, k')"
  shows "res_gated r"
proof -
  note visit_n = assms(4) [unfolded visit.simps [of cfg n k]]
  show ?thesis
  proof (cases "target_attr n")
  case None
  with assms(3) visit_n have "rbind (visit_fields cfg (flds n) k) (\<lambda>(fs, k1). Inr (VOne (Node (tag n) fs), k1)) = Inr (r, k')"
    by simp
  with assms show ?thesis by (intro plain_recursion_gated) auto
next
  case (Some oa)
  obtain obj a where oa: "oa = (obj, a)" by (cases oa)
  obtain p where p: "get_node n ''op'' = Some (leaf p)" "p \<in> set operators"
    using all_n_root [OF assms(2)] assms(3) by (auto simp: source_node_def wf_node_def split: option.splits)
  from assms(3) visit_n Some oa p obtain v o1 v1 k1 k2 where
    v: "get_node n ''value'' = Some v" "visit cfg obj k = Inr (o1, k1)" "visit cfg v k1 = Inr (v1, k2)"
    and r: "r = VMany [mk_assign (mk_name (new_tmp k2) ''Store'') (expr_of o1),
         make_setattr (mk_name (new_tmp k2) ''Load'') a
          (Node ''BinOp'' [(''left'', One (N (make_getattr (mk_name (new_tmp k2) ''Load'') a))),
             (''op'', One (N (leaf p))), (''right'', One (N (expr_of v1)))])]"
    by
      (auto simp: rbind_eq_Inr_iff Let_def no_field_def split: option.splits)
  have "source_tree obj" "nsz obj < nsz n"
    using target_attr_child target_attr_nsz Some oa all_n_fl [OF assms(2)] by blast+
  with belowD [OF assms(1) v(2)] have "gated (expr_of o1)" by simp
  moreover have "gated (expr_of v1)" using child_gated assms(1,2) v(1,3) by blast
  moreover have "gated (leaf p)" using p(2)
    by (auto simp: leaf_def operators_def constrained_tags_def intro!: gated_node_free)
  ultimately show ?thesis by (simp add: r gated_node_free)
qed
qed

lemma visit_Delete_gated:
  assumes "below cfg (nsz n)" "source_tree n" "tag n = ''Delete''" "visit cfg n k = Inr (r, k')"
  shows "res_gated r"
proof -
  note visit_n = assms(4) [unfolded visit.simps [of cfg n k]]
  show ?thesis
  proof (cases "list_ex (\<lambda>t. tag t = ''Attribute'') (get_nodes n ''targets'')")
  case False
  with assms(3) visit_n have "rbind (visit_fields cfg (flds n) k) (\<lambda>(fs, k1). Inr (VOne (Node (tag n) fs), k1)) = Inr (r, k')"
    by (auto simp: rbind_eq_Inr_iff)
  with assms show ?thesis by (intro plain_recursion_gated) auto
next
  case True
  with assms(3) visit_n obtain ms k1 where
    ms: "visit_list cfg (map delete_node (get_nodes n ''targets'')) k = Inr (ms, k1)"
    and r: "r = VMany (map2 delete_stmt (get_nodes n ''targets'') ms)"
    by (auto simp: rbind_eq_Inr_iff)
  have "list_all source_tree (map delete_node (get_nodes n ''targets''))"
    using all_get_nodes [OF all_n_fl [OF assms(2)], of "''targets''"] delete_node_source
    by (simp add: list_all_iff)
  with visit_list_gated [OF assms(1) delete_nodes_nmax _ ms] have "list_all gated ms" by blast
  then have "list_all gated (map2 delete_stmt ts ms)" for ts
    by (auto simp: list_all_iff delete_stmt_def gated_node_free dest!: set_zip_rightD split: option.splits)
  with r show ?thesis by simp
qed
qed

lemma visit_AnnAssign_gated:
  assumes "below cfg (nsz n)" "source_tree n" "tag n = ''AnnAssign''" "visit cfg n k = Inr (r, k')"
    and "\<not> postponed cfg"
  shows "res_gated r"
proof -
  note visit_n = assms(4) [unfolded visit.simps [of cfg n k]]
  have held: "hold_annotations cfg n = []" "without_annotations cfg n = n" "put_back cfg n m = m" for m
    using assms(5) by (simp_all add: hold_annotations_def without_annotations_def put_back_def)
  show ?thesis
  proof (cases "\<exists>obj a v. target_attr n = Some (obj, a) \<and> get_node n ''value'' = Some v")
    case True
    then obtain obj a v where t: "target_attr n = Some (obj, a)" "get_node n ''value'' = Some v" by blast
    with visit_n assms(3) obtain o1 k1 v1 k2
      where v: "visit cfg obj k = Inr (o1, k1)" "visit cfg v k1 = Inr (v1, k2)"
        and r: "r = VOne (make_setattr (expr_of o1) a (expr_of v1))"
      by (auto simp: rbind_eq_Inr_iff)
    have "source_tree obj" "nsz obj < nsz n"
      using target_attr_child target_attr_nsz t all_n_fl [OF assms(2)] by blast+
    with belowD [OF assms(1) v(1)] have "gated (expr_of o1)" by simp
    moreover have "gated (expr_of v1)" using child_gated assms(1,2) t(2) v(2) by blast
    ultimately show ?thesis by (simp add: r)
  next
    case False
    with visit_n assms(3) held
    have "rbind (visit_fields cfg (flds n) k) (\<lambda>(fs, k1). Inr (VOne (Node (tag n) fs), k1)) = Inr (r, k')"
      by (auto split: option.splits prod.splits)
    with assms show ?thesis by (intro plain_recursion_gated) auto
  qed
qed

lemma visit_def_gated:
  assumes "below cfg (nsz n)" "source_tree n" "tag n = ''FunctionDef'' \<or> tag n = ''AsyncFunctionDef''"
    and "visit cfg n k = Inr (r, k')" and "\<not> postponed cfg"
  shows "res_gated r"
proof -
  note visit_n = assms(4) [unfolded visit.simps [of cfg n k]]
  have held: "hold_annotations cfg n = []" "without_annotations cfg n = n" "put_back cfg n m = m" for m
    using assms(5) by (simp_all add: hold_annotations_def without_annotations_def put_back_def)
  from visit_n assms(3) held obtain fs k2 where fs: "visit_fields cfg (flds n) k = Inr (fs, k2)"
    and r: "r = VMany (wrap_context_capture (add_checkpoint (Node (tag n) fs)))"
    by (auto simp: rbind_eq_Inr_iff)
  have g: "gated (add_checkpoint (Node (tag n) fs))"
    using gated_add_checkpoint fields_gated [OF assms(1,2) fs] assms(3) by (auto simp: looping_tags_def)
  have "get_id (add_checkpoint (Node (tag n) fs)) ''name'' = get_id n ''name''"
    using visit_fields_str [OF fs, of "''name''"] by (simp add: add_checkpoint_def get_id_add)
  moreover have "plain_def n" using all_n_root [OF assms(2)] by (simp add: source_node_def)
  ultimately show ?thesis
    using gated_wrap_capture [OF g] assms(3) r by (auto simp: plain_def_def add_checkpoint_def)
qed

lemma visit_context:
  assumes "c \<in> set contexts"
  shows "visit cfg c k = Inr (VOne c, k)"
proof -
  have "tag c \<in> set (recurse_tags (py_minor cfg))" "flds c = []"
    using assms by (auto simp: contexts_def leaf_def recurse_tags_defs)
  then show ?thesis by (cases c) (subst visit.simps, simp)
qed

lemma wf_Name:
  assumes "wf_node n" "tag n = ''Name''"
  obtains i c where "n = Node ''Name'' [(''id'', One (K (KStr i))), (''ctx'', One (N c))]" "c \<in> set contexts"
  using assms unfolding wf_node_def
  by (cases n) (auto elim!: name_fieldsE attribute_fieldsE)

lemma wf_Attribute:
  assumes "wf_node n" "tag n = ''Attribute''"
  obtains v a c where
    "n = Node ''Attribute'' [(''value'', One (N v)), (''attr'', One (K (KStr a))), (''ctx'', One (N c))]"
    "c \<in> set contexts"
  using assms unfolding wf_node_def
  by (cases n) (auto elim!: name_fieldsE attribute_fieldsE)

lemma gated_context: "c \<in> set contexts \<Longrightarrow> gated c"
  by (auto simp: contexts_def leaf_def intro!: gated_node_free)

lemma name_shape:
  "has_ctx (Node ''Name'' [(''id'', One (K (KStr i))), (''ctx'', One (N c))]) x \<longleftrightarrow> tag c = x"
  "get_id (Node ''Name'' [(''id'', One (K (KStr i))), (''ctx'', One (N c))]) ''id'' = i"
  by (auto simp: has_ctx_def get_node_def fld_def get_id_def get_str_def get_const_def)

lemma visit_Name_gated:
  assumes "source_tree n" "tag n = ''Name''" "visit cfg n k = Inr (r, k')"
  shows "res_gated r"
proof -
  note visit_n = assms(3) [unfolded visit.simps [of cfg n k]]
  have "wf_node n" using all_n_root [OF assms(1)] by (simp add: source_node_def)
  then obtain i c where n: "n = Node ''Name'' [(''id'', One (K (KStr i))), (''ctx'', One (N c))]"
    and c: "c \<in> set contexts"
    using assms(2) wf_Name by blast
  have same: "visit_fields cfg (flds n) k = Inr (flds n, k)" by (simp add: n visit_context [OF c])
  have "gated_node n" if "\<not> (tag c = ''Load'' \<and> (i = ''__import__'' \<or> i \<in> set BLOCKED_LOAD_NAMES))"
    using that by (auto simp: n gated_node_def name_shape looping_tags_def BLOCKED_LOAD_NAMES_def)
  then have "gated n" if "\<not> (tag c = ''Load'' \<and> (i = ''__import__'' \<or> i \<in> set BLOCKED_LOAD_NAMES))"
    using that gated_context [OF c] by (simp add: n)
  with visit_n same show ?thesis
    by (auto simp: n name_shape refuse_def rbind_eq_Inr_iff DYNAMIC_IMPORT_GATE_def split: if_splits)
qed

lemma visit_Attribute_gated:
  assumes "below cfg (nsz n)" "source_tree n" "tag n = ''Attribute''" "visit cfg n k = Inr (r, k')"
  shows "res_gated r"
proof -
  note visit_n = assms(4) [unfolded visit.simps [of cfg n k]]
  have "wf_node n" using all_n_root [OF assms(2)] by (simp add: source_node_def)
  then obtain v a c where
    n: "n = Node ''Attribute'' [(''value'', One (N v)), (''attr'', One (K (KStr a))), (''ctx'', One (N c))]"
    and c: "c \<in> set contexts"
    using assms(3) wf_Attribute by blast
  have get: "get_node n ''value'' = Some v" by (simp add: n get_node_def fld_def)
  from visit_n assms(3) get obtain v1 k1 where v: "visit cfg v k = Inr (v1, k1)"
    and r: "r = VOne (if has_ctx n ''Load'' then make_getattr (expr_of v1) (get_id n ''attr'')
              else set_fld ''value'' (One (N (expr_of v1))) n)"
    by (auto simp: rbind_eq_Inr_iff)
  have "gated (expr_of v1)" using child_gated [OF assms(1,2) get v] .
  moreover have "has_ctx n ''Load'' \<longleftrightarrow> tag c = ''Load''"
    by (simp add: n has_ctx_def get_node_def fld_def)
  ultimately show ?thesis using gated_context [OF c]
    by (auto simp: r n set_fld_def gated_node_def looping_tags_def has_ctx_def get_node_def fld_def)
qed

lemma fill_handler_type: "\<exists>m. fld (fill_handler n) ''type'' = Some (One (N m))"
  by (auto simp: fill_handler_def get_node_fld)

lemma visit_ExceptHandler_gated:
  assumes "below cfg (nsz n)" "source_tree n" "tag n = ''ExceptHandler''" "visit cfg n k = Inr (r, k')"
  shows "res_gated r"
proof -
  note visit_n = assms(4) [unfolded visit.simps [of cfg n k]]
  from visit_n assms(3) obtain fs k1
    where fs: "visit_fields cfg (flds (fill_handler n)) k = Inr (fs, k1)" and r: "r = VOne (Node (tag n) fs)"
    by (auto simp: rbind_eq_Inr_iff)
  have "source_tree (mk_name ''Exception'' ''Load'')"
    by (simp add: mk_defs source_node_def wf_node_def plain_def_def contexts_def)
  then have "all_fl source_node (flds (fill_handler n))"
    using all_n_fl [OF assms(2)] by (auto simp: fill_handler_def set_fld_def intro!: all_fl_dset)
  then have g: "all_fl gated_node fs"
    using visit_fields_gated [OF assms(1) fill_handler_size [OF assms(3)] _ fs] by blast
  obtain m where m: "dget (flds (fill_handler n)) ''type'' = Some (One (N m))"
    using fill_handler_type by (auto simp: fld_def)
  then have "dget fs ''type'' \<noteq> Some (One (K c))" for c using visit_fields_const [OF fs] by auto
  moreover have "dget fs ''type'' \<noteq> None"
    using m visit_fields_dom [OF fs] by (metis map_of_eq_None_iff option.distinct(1) set_map)
  ultimately have "gated_node (Node (tag n) fs)"
    using assms(3) by (simp add: gated_node_def looping_tags_def fld_def)
  with g r show ?thesis by simp
qed

lemma visit_loop_gated:
  assumes "below cfg (nsz n)" "source_tree n" "tag n \<in> {''For'', ''AsyncFor'', ''While''}"
    and "visit cfg n k = Inr (r, k')"
  shows "res_gated r"
proof -
  note visit_n = assms(4) [unfolded visit.simps [of cfg n k]]
  from visit_n assms(3) obtain fs k1 where fs: "visit_fields cfg (flds n) k = Inr (fs, k1)"
    and r: "r = VOne (add_checkpoint (Node (tag n) fs))"
    by (auto simp: rbind_eq_Inr_iff)
  then show ?thesis
    using gated_add_checkpoint fields_gated [OF assms(1,2) fs] assms(3) by (auto simp: looping_tags_def)
qed

lemma visit_wrapping_gated:
  assumes "below cfg (nsz n)" "source_tree n" "tag n \<in> {''Lambda'', ''comprehension'', ''Module''}"
    and "visit cfg n k = Inr (r, k')"
  shows "res_gated r"
proof -
  note visit_n = assms(4) [unfolded visit.simps [of cfg n k]]
  from visit_n assms(3) obtain fs k1 where fs: "visit_fields cfg (flds n) k = Inr (fs, k1)"
    by (auto simp: rbind_eq_Inr_iff)
  have g: "all_fl gated_node fs" using fields_gated [OF assms(1,2) fs] .
  have "gated (finish_module cfg (Node ''Module'' fs))"
    using g gated_inject_display [of "Node ''Module'' fs"] by (simp add: finish_module_def gated_node_free)
  with visit_n assms(3) fs g gated_finish_comprehension [OF g] show ?thesis
    by (auto simp: gated_node_free)
qed

lemma visit_plain_gated:
  assumes "below cfg (nsz n)" "source_tree n"
    and "tag n \<in> set (recurse_tags (py_minor cfg)) \<union> {''Global'', ''Nonlocal'', ''ClassDef'', ''With'', ''AsyncWith''}"
    and "visit cfg n k = Inr (r, k')"
  shows "res_gated r"
proof -
  note visit_n = assms(4) [unfolded visit.simps [of cfg n k]]
  have free: "tag n \<notin> set constrained_tags" using assms(3) recurse_free by auto
  from visit_n assms(3)
  have "rbind (visit_fields cfg (flds n) k) (\<lambda>(fs, k1). Inr (VOne (Node (tag n) fs), k1)) = Inr (r, k')"
    by (auto simp: rbind_eq_Inr_iff [of "check_global x y" for x y] rbind_eq_Inr_iff [of "check_classdef x" for x]
        rbind_eq_Inr_iff [of "check_with x" for x])
  with assms free show ?thesis by (intro plain_recursion_gated) auto
qed

lemma visit_import_gated:
  assumes "tag n = ''Import'' \<or> tag n = ''ImportFrom''" "visit cfg n k = Inr (r, k')"
  shows "res_gated r"
proof -
  note visit_n = assms(2) [unfolded visit.simps [of cfg n k]]
  have "res_gated (stmts_result ss)" if "list_all gated ss" for ss
    using that by (auto simp: stmts_result_def split: list.splits)
  with visit_n assms(1) show ?thesis by (auto simp: rbind_eq_Inr_iff list_all_iff)
qed

lemma visit_supported:
  assumes "visit cfg n k = Inr (r, k')"
  shows "tag n \<in> set (recurse_tags (py_minor cfg)) \<union> set special_tags"
  using assms [unfolded visit.simps [of cfg n k]]
  by (auto simp: special_tags_def refuse_def split: if_splits)

lemma visit_gated:
  assumes "\<not> postponed cfg" "source_tree n" "visit cfg n k = Inr (r, k')"
  shows "res_gated r"
  using assms(2,3)
proof (induction "nsz n" arbitrary: n k r k' rule: less_induct)
  case less
  then have b: "below cfg (nsz n)" by (auto simp: below_def)
  note facts = b less.prems(1) less.prems(2)
  consider "tag n \<in> set (recurse_tags (py_minor cfg)) \<union> {''Global'', ''Nonlocal'', ''ClassDef'', ''With'', ''AsyncWith''}"
    | "tag n \<in> {''Lambda'', ''comprehension'', ''Module''}" | "tag n \<in> {''For'', ''AsyncFor'', ''While''}"
    | "tag n = ''Import'' \<or> tag n = ''ImportFrom''" | "tag n = ''FunctionDef'' \<or> tag n = ''AsyncFunctionDef''"
    | "tag n = ''AnnAssign''" | "tag n = ''Assign''" | "tag n = ''AugAssign''" | "tag n = ''Delete''"
    | "tag n = ''Attribute''" | "tag n = ''Name''" | "tag n = ''ExceptHandler''"
    using visit_supported [OF less.prems(2)] by (auto simp: special_tags_def)
  then show ?case
  proof cases
    case 1 with facts show ?thesis by (intro visit_plain_gated)
  next
    case 2 with facts show ?thesis by (intro visit_wrapping_gated)
  next
    case 3 with facts show ?thesis by (intro visit_loop_gated)
  next
    case 4 with facts show ?thesis by (intro visit_import_gated)
  next
    case 5 with facts assms(1) show ?thesis by (intro visit_def_gated)
  next
    case 6 with facts assms(1) show ?thesis by (intro visit_AnnAssign_gated)
  next
    case 7 with facts show ?thesis by (intro visit_Assign_gated)
  next
    case 8 with facts show ?thesis by (intro visit_AugAssign_gated)
  next
    case 9 with facts show ?thesis by (intro visit_Delete_gated)
  next
    case 10 with facts show ?thesis by (intro visit_Attribute_gated)
  next
    case 11 with facts show ?thesis by (intro visit_Name_gated)
  next
    case 12 with facts show ?thesis by (intro visit_ExceptHandler_gated)
  qed
qed

section \<open>Which nodes a visit reaches\<close>

definition nodes_in :: "(string \<times> field) list \<Rightarrow> node list" where
  "nodes_in fs = concat (map (\<lambda>(k, f). case f of One v \<Rightarrow> nodes_of [v] | Many vs \<Rightarrow> nodes_of vs) fs)"

definition recursing_tags :: "string list" where
  "recursing_tags = [''Module'', ''Global'', ''Nonlocal'', ''ClassDef'', ''Lambda'', ''For'', ''AsyncFor'',
     ''While'', ''With'', ''AsyncWith'', ''comprehension'']"

text \<open>The nodes that the handler of a node visits itself, in the cases where it descends into all fields.\<close>

definition parts :: "rcfg \<Rightarrow> node \<Rightarrow> node list" where
  "parts cfg n =
     (if tag n \<in> set (recurse_tags (py_minor cfg)) \<union> set recursing_tags then nodes_in (flds n)
      else if tag n = ''FunctionDef'' \<or> tag n = ''AsyncFunctionDef'' then
        hold_annotations cfg n @ nodes_in (flds (without_annotations cfg n))
      else if tag n = ''ExceptHandler'' then nodes_in (flds (fill_handler n))
      else if tag n = ''Assign'' \<and> \<not> any_attr (get_vals n ''targets'') then nodes_in (flds n)
      else if tag n = ''Assign'' \<or> tag n = ''Attribute'' then
        (case get_node n ''value'' of Some v \<Rightarrow> [v] | None \<Rightarrow> [])
      else if tag n = ''Delete'' then
        (if list_ex (\<lambda>t. tag t = ''Attribute'') (get_nodes n ''targets'')
         then map delete_node (get_nodes n ''targets'') else nodes_in (flds n))
      else if tag n = ''AugAssign'' then
        (case target_attr n of
           None \<Rightarrow> nodes_in (flds n)
         | Some (obj, a) \<Rightarrow> obj # (case get_node n ''value'' of Some v \<Rightarrow> [v] | None \<Rightarrow> []))
      else [])"

inductive reaches :: "rcfg \<Rightarrow> node \<Rightarrow> node \<Rightarrow> bool" for cfg :: rcfg where
  here: "reaches cfg n n"
| deeper: "m \<in> set (parts cfg n) \<Longrightarrow> reaches cfg m x \<Longrightarrow> reaches cfg n x"

inductive_cases reachesE: "reaches cfg n x"

definition accepts :: "rcfg \<Rightarrow> node \<Rightarrow> bool" where
  "accepts cfg n = (\<exists>k r. visit cfg n k = Inr r)"

lemma acceptsI: "visit cfg n k = Inr r \<Longrightarrow> accepts cfg n"
  unfolding accepts_def by blast

lemma visit_vals_accepts:
  "visit_vals cfg vs k = Inr r \<Longrightarrow> m \<in> set (nodes_of vs) \<Longrightarrow> accepts cfg m"
proof (induction vs arbitrary: k r)
  case (Cons v vs)
  then show ?case by (cases v) (auto simp: rbind_eq_Inr_iff intro: acceptsI)
qed simp

lemma visit_list_accepts:
  "visit_list cfg ms k = Inr r \<Longrightarrow> m \<in> set ms \<Longrightarrow> accepts cfg m"
  by (induction ms arbitrary: k r) (auto simp: rbind_eq_Inr_iff intro: acceptsI)

lemma nodes_in_Cons:
  "nodes_in [] = []"
  "nodes_in ((k, f) # fs) =
    (case f of One v \<Rightarrow> nodes_of [v] | Many vs \<Rightarrow> nodes_of vs) @ nodes_in fs"
  by (simp_all add: nodes_in_def)

lemma visit_fields_accepts:
  "visit_fields cfg fs k = Inr r \<Longrightarrow> m \<in> set (nodes_in fs) \<Longrightarrow> accepts cfg m"
proof (induction cfg fs k arbitrary: r rule: visit_fields_induct)
  case (4 cfg f vs fs k)
  then show ?case
    by (auto simp: nodes_in_Cons rbind_eq_Inr_iff dest: visit_vals_accepts)
qed (auto simp: nodes_in_Cons rbind_eq_Inr_iff intro: acceptsI)

lemmas accepts_parts = visit_fields_accepts visit_list_accepts visit_vals_accepts

lemma parts_accepted_plain:
  assumes "visit cfg n k = Inr r" "m \<in> set (nodes_in (flds n))"
    and "tag n \<in> set (recurse_tags (py_minor cfg)) \<union> set recursing_tags"
  shows "accepts cfg m"
  using assms(1) [unfolded visit.simps [of cfg n k]] assms(2,3)
  by (auto simp: recursing_tags_def rbind_eq_Inr_iff dest: visit_fields_accepts)

lemma parts_accepted:
  assumes "accepts cfg n" "m \<in> set (parts cfg n)"
  shows "accepts cfg m"
proof -
  obtain k r where v: "visit cfg n k = Inr r" using assms(1) by (auto simp: accepts_def)
  note visit_n = v [unfolded visit.simps [of cfg n k]]
  consider "tag n \<in> set (recurse_tags (py_minor cfg)) \<union> set recursing_tags"
    | "tag n = ''FunctionDef'' \<or> tag n = ''AsyncFunctionDef''" | "tag n = ''ExceptHandler''"
    | "tag n = ''Assign''" | "tag n = ''Attribute''" | "tag n = ''Delete''" | "tag n = ''AugAssign''"
    using assms(2) by (auto simp: parts_def split: if_splits)
  then show ?thesis
  proof cases
    case 1 with v assms(2) parts_accepted_plain show ?thesis by (auto simp: parts_def split: if_splits)
  next
    case 2 with visit_n assms(2) show ?thesis
      by (auto simp: parts_def recursing_tags_def rbind_eq_Inr_iff dest: accepts_parts)
  next
    case 3 with visit_n assms(2) show ?thesis
      by (auto simp: parts_def recursing_tags_def rbind_eq_Inr_iff dest: accepts_parts)
  next
    case 4 with visit_n assms(2) show ?thesis
      by (auto simp: parts_def recursing_tags_def rbind_eq_Inr_iff no_field_def
          split: if_splits option.splits dest: accepts_parts intro: acceptsI)
  next
    case 5 with visit_n assms(2) show ?thesis
      by (auto simp: parts_def recursing_tags_def rbind_eq_Inr_iff no_field_def
          split: option.splits intro: acceptsI)
  next
    case 6 with visit_n assms(2) show ?thesis
      by (auto simp: parts_def recursing_tags_def rbind_eq_Inr_iff
          split: if_splits dest!: accepts_parts intro: accepts_parts)
  next
    case 7 with visit_n assms(2) show ?thesis
      by (auto simp: parts_def recursing_tags_def rbind_eq_Inr_iff no_field_def Let_def
          split: option.splits dest: accepts_parts intro: acceptsI)
  qed
qed

lemma reaches_accepted: "reaches cfg n m \<Longrightarrow> accepts cfg n \<Longrightarrow> accepts cfg m"
  by (induction rule: reaches.induct) (auto dest: parts_accepted)

end
