(* ===== verification/Vfs.thy ===== *)
theory Vfs
  imports Policy Rewriter
begin

text \<open>
  The loader of workspace modules (\<open>_VFSLoader\<close> of \<open>gates.py\<close>): resolving a
  dotted name on the virtual file system, building the packages on the way,
  running a module's body and caching the module object.

  The file system and the interpreter are parameters: \<open>vfsys\<close> answers \<open>exists\<close>,
  \<open>open\<close>, \<open>list\<close> and \<open>isdir\<close>; \<open>runtime\<close> parses source text and runs a rewritten
  tree as the body of a module. A body may itself import, so running it takes
  and returns the loader's state.
\<close>

section \<open>State\<close>

record vfsys =
  fs_exists :: "string \<Rightarrow> bool"
  fs_read :: "string \<Rightarrow> string res"
  fs_list :: "string \<Rightarrow> string list res"
  fs_isdir :: "string \<Rightarrow> bool res"

record loader =
  l_fs :: "vfsys option"
  l_root :: string

definition VFSLoader :: "vfsys option \<Rightarrow> string \<Rightarrow> loader" where
  "VFSLoader fs rt = \<lparr>l_fs = fs, l_root = (if rt = ''/'' then [] else rstrip {CHR ''/''} rt)\<rparr>"

text \<open>
  The cache, the identity of the next module object, what module objects were
  given as \<open>__file__\<close> and \<open>__path__\<close>, and the attributes the loader has bound.
\<close>

record vstate =
  v_cache :: "(string, oid) dict"
  v_next :: oid
  v_files :: "(oid, string \<times> string option) dict"
  v_bound :: "(oid \<times> string \<times> oid) list"

record runtime =
  rt_parse :: "string \<Rightarrow> node res"
  rt_run :: "string \<Rightarrow> node \<Rightarrow> oid \<Rightarrow> vstate \<Rightarrow> unit res \<times> vstate"
  rt_minor :: nat

section \<open>Running a body\<close>

text \<open>The tree a module's source becomes: futures off the front, then rewritten.\<close>

definition rewrite_source :: "runtime \<Rightarrow> string \<Rightarrow> node res" where
  "rewrite_source rt source =
     rbind (rt_parse rt source) (\<lambda>tree.
     rbind (take_future tree) (\<lambda>(tree, future).
     rbind (visit \<lparr>rw_echo = ''none'', future_flags = future, py_minor = rt_minor rt\<rparr> tree 0)
       (\<lambda>(v, _). Inr (expr_of v))))"

definition compile_and_exec ::
  "runtime \<Rightarrow> oid \<Rightarrow> string \<Rightarrow> string \<Rightarrow> vstate \<Rightarrow> unit res \<times> vstate" where
  "compile_and_exec rt m source module_name s =
     (case rewrite_source rt source of
        Inl e \<Rightarrow> (Inl e, s)
      | Inr tree \<Rightarrow> rt_run rt module_name tree m s)"

section \<open>Resolving\<close>

definition module_base :: "loader \<Rightarrow> string \<Rightarrow> string" where
  "module_base L name = l_root L @ ''/'' @ replace_char CHR ''.'' ''/'' name"

text \<open>The file of a module and whether it is a package's.\<close>

definition module_file :: "vfsys \<Rightarrow> string \<Rightarrow> (string \<times> bool) option" where
  "module_file fs base =
     (if fs_exists fs (base @ ''/__init__.py'') then Some (base @ ''/__init__.py'', True)
      else if fs_exists fs (base @ ''.py'') then Some (base @ ''.py'', False)
      else None)"

definition drop_failed :: "string \<Rightarrow> bool \<Rightarrow> vstate \<Rightarrow> vstate" where
  "drop_failed name is_package s =
     (let c = dpop name (v_cache s)
      in s\<lparr>v_cache := (if is_package then filter (\<lambda>(n, _). \<not> startswith n (name @ ''.'')) c else c)\<rparr>)"

definition new_module :: "string \<Rightarrow> string \<Rightarrow> string option \<Rightarrow> vstate \<Rightarrow> vstate" where
  "new_module name file path s =
     s\<lparr>v_cache := dset name (v_next s) (v_cache s),
       v_files := dset (v_next s) (file, path) (v_files s),
       v_next := v_next s + 1\<rparr>"

definition bind_on :: "oid option \<Rightarrow> string \<Rightarrow> oid \<Rightarrow> vstate \<Rightarrow> vstate" where
  "bind_on parent leaf_name m s =
     (case parent of Some p \<Rightarrow> s\<lparr>v_bound := v_bound s @ [(p, leaf_name, m)]\<rparr> | None \<Rightarrow> s)"

definition load_module ::
  "runtime \<Rightarrow> vfsys \<Rightarrow> string \<Rightarrow> string \<Rightarrow> string \<Rightarrow> bool \<Rightarrow> oid option \<Rightarrow> vstate \<Rightarrow> oid option res \<times> vstate" where
  "load_module rt fs name base path is_package parent s =
     (case fs_read fs path of
        Inl e \<Rightarrow> (Inl e, s)
      | Inr source \<Rightarrow>
          (let m = v_next s;
               s1 = new_module name path (if is_package then Some base else None) s
           in case compile_and_exec rt m source name s1 of
                (Inl e, s2) \<Rightarrow> (Inl e, drop_failed name is_package s2)
              | (Inr _, s2) \<Rightarrow>
                  (Inr (Some m), bind_on parent (snd (rpartition CHR ''.'' name)) m s2)))"

lemma parent_shorter:
  assumes "fst (rpartition c name) \<noteq> []"
  shows "length (fst (rpartition c name)) < length name"
proof (cases "c \<in> set name")
  case True
  show ?thesis by (subst (2) rpartition_dotted(1) [OF True]) simp
next
  case False
  with assms show ?thesis by (simp add: rpartition_absent)
qed

function vfs_resolve :: "loader \<Rightarrow> runtime \<Rightarrow> string \<Rightarrow> vstate \<Rightarrow> oid option res \<times> vstate"
  and vfs_package :: "loader \<Rightarrow> runtime \<Rightarrow> string \<Rightarrow> vstate \<Rightarrow> oid res \<times> vstate"
where
  "vfs_resolve L rt name s =
     (case l_fs L of
        None \<Rightarrow> (Inr None, s)
      | Some fs \<Rightarrow>
     (case dget (v_cache s) name of
        Some m \<Rightarrow> (Inr (Some m), s)
      | None \<Rightarrow>
     (case module_file fs (module_base L name) of
        None \<Rightarrow> (Inr None, s)
      | Some (path, is_package) \<Rightarrow>
          if fst (rpartition CHR ''.'' name) = [] then
            load_module rt fs name (module_base L name) path is_package None s
          else
            (case vfs_package L rt (fst (rpartition CHR ''.'' name)) s of
               (Inl e, s1) \<Rightarrow> (Inl e, s1)
             | (Inr p, s1) \<Rightarrow>
                 (case dget (v_cache s1) name of
                    Some m \<Rightarrow> (Inr (Some m), s1)
                  | None \<Rightarrow>
                      load_module rt fs name (module_base L name) path is_package (Some p) s1)))))"
| "vfs_package L rt name s =
     (case dget (v_cache s) name of
        Some m \<Rightarrow> (Inr m, s)
      | None \<Rightarrow>
     (case vfs_resolve L rt name s of
        (Inl e, s1) \<Rightarrow> (Inl e, s1)
      | (Inr (Some m), s1) \<Rightarrow> (Inr m, s1)
      | (Inr None, s1) \<Rightarrow>
          if fst (rpartition CHR ''.'' name) = [] then
            (Inr (v_next s1),
             new_module name (module_base L name @ ''/__init__.py'') (Some (module_base L name)) s1)
          else
            (case vfs_package L rt (fst (rpartition CHR ''.'' name)) s1 of
               (Inl e, s2) \<Rightarrow> (Inl e, s2)
             | (Inr g, s2) \<Rightarrow>
                 (Inr (v_next s2),
                  bind_on (Some g) (snd (rpartition CHR ''.'' name)) (v_next s2)
                    (new_module name (module_base L name @ ''/__init__.py'')
                       (Some (module_base L name)) s2)))))"
  by pat_completeness auto
termination
  by (relation "measure (\<lambda>x. case x of Inl (L, rt, name, s) \<Rightarrow> 2 * length name
                                    | Inr (L, rt, name, s) \<Rightarrow> 2 * length name + 1)")
    (use parent_shorter in \<open>fastforce+\<close>)

declare vfs_resolve.simps [simp del] vfs_package.simps [simp del]

text \<open>\<open>import a.b.c\<close> binds \<open>a\<close>: a missing entry is a \<open>KeyError\<close>.\<close>

definition ensure_package_chain :: "loader \<Rightarrow> runtime \<Rightarrow> string \<Rightarrow> vstate \<Rightarrow> oid option res \<times> vstate" where
  "ensure_package_chain L rt name s =
     (case vfs_resolve L rt name s of
        (Inl e, s1) \<Rightarrow> (Inl e, s1)
      | (Inr None, s1) \<Rightarrow> (Inr None, s1)
      | (Inr (Some _), s1) \<Rightarrow>
          (let top = hd (split_on CHR ''.'' name) in
           case dget (v_cache s1) top of
             Some m \<Rightarrow> (Inr (Some m), s1)
           | None \<Rightarrow> (Inl (Exc KeyError top), s1)))"

section \<open>The contract of a module loader\<close>

text \<open>
  What importing relies on: a cached module is returned as it is, a module that
  was returned is cached, later imports keep it, a failed import leaves nothing.
  Then a name keeps its module whatever is imported in between.
\<close>

locale module_loader =
  fixes resolve :: "string \<Rightarrow> 's \<Rightarrow> 'm option res \<times> 's"
    and ok :: "'s \<Rightarrow> bool"
    and cached :: "'s \<Rightarrow> string \<Rightarrow> 'm option"
    and valid :: "string \<Rightarrow> bool"
  assumes hit: "ok s \<Longrightarrow> cached s n = Some m \<Longrightarrow> resolve n s = (Inr (Some m), s)"
    and keeps_ok: "ok s \<Longrightarrow> valid n \<Longrightarrow> resolve n s = (r, s') \<Longrightarrow> ok s'"
    and keeps: "ok s \<Longrightarrow> valid n \<Longrightarrow> resolve n s = (r, s') \<Longrightarrow> cached s k = Some m \<Longrightarrow> cached s' k = Some m"
    and returned: "ok s \<Longrightarrow> valid n \<Longrightarrow> resolve n s = (Inr (Some m), s') \<Longrightarrow> cached s' n = Some m"
begin

fun resolve_all :: "string list \<Rightarrow> 's \<Rightarrow> 's" where
  "resolve_all [] s = s"
| "resolve_all (n # ns) s = resolve_all ns (snd (resolve n s))"

lemma resolve_all_keeps:
  assumes "ok s" "list_all valid ns"
  shows "ok (resolve_all ns s) \<and> (cached s k = Some m \<longrightarrow> cached (resolve_all ns s) k = Some m)"
  using assms
proof (induction ns arbitrary: s)
  case (Cons n ns)
  then have "ok (snd (resolve n s))" "cached s k = Some m \<longrightarrow> cached (snd (resolve n s)) k = Some m"
    using keeps_ok keeps by (metis list.pred_inject(2) prod.collapse)+
  with Cons show ?case by simp
qed simp

lemma same_module:
  assumes "ok s" "valid n" "resolve n s = (Inr (Some m), s')" "list_all valid ns"
  shows "fst (resolve n (resolve_all ns s')) = Inr (Some m)"
proof -
  have "ok s'" "cached s' n = Some m" using assms(1-3) keeps_ok returned by blast+
  then have "ok (resolve_all ns s')" "cached (resolve_all ns s') n = Some m"
    using resolve_all_keeps [of s' ns n m] assms(4) by auto
  then show ?thesis using hit by (metis fst_conv)
qed

end

section \<open>The cache invariant\<close>

text \<open>A module that is a single file: a directory of the same name is not its package.\<close>

definition plain_module :: "loader \<Rightarrow> string \<Rightarrow> bool" where
  "plain_module L n =
     (case l_fs L of Some fs \<Rightarrow> (\<exists>p. module_file fs (module_base L n) = Some (p, False)) | None \<Rightarrow> False)"

definition has_file :: "loader \<Rightarrow> string \<Rightarrow> bool" where
  "has_file L n = (case l_fs L of Some fs \<Rightarrow> module_file fs (module_base L n) \<noteq> None | None \<Rightarrow> False)"

abbreviation inside :: "string \<Rightarrow> string \<Rightarrow> bool" where
  "inside n p \<equiv> startswith n (p @ ''.'')"

text \<open>Every package above a cached module is cached, and is not a single file.\<close>

definition cache_ok :: "loader \<Rightarrow> vstate \<Rightarrow> bool" where
  "cache_ok L s =
     (\<forall>n p. dget (v_cache s) n \<noteq> None \<and> p \<noteq> [] \<and> inside n p \<longrightarrow>
        dget (v_cache s) p \<noteq> None \<and> \<not> plain_module L p)"

definition cache_le :: "vstate \<Rightarrow> vstate \<Rightarrow> bool" where
  "cache_le s s' = (\<forall>n m. dget (v_cache s) n = Some m \<longrightarrow> dget (v_cache s') n = Some m)"

text \<open>
  What is assumed: no module lies below a single-file module of the same name,
  and a body, which can change the cache only by importing, keeps the invariant
  and every entry it found.
\<close>

definition layout_ok :: "loader \<Rightarrow> bool" where
  "layout_ok L = (\<forall>n p. has_file L n \<and> p \<noteq> [] \<and> inside n p \<longrightarrow> \<not> plain_module L p)"

definition bodies_keep_cache :: "loader \<Rightarrow> runtime \<Rightarrow> bool" where
  "bodies_keep_cache L rt =
     (\<forall>n t m s r s'. rt_run rt n t m s = (r, s') \<and> cache_ok L s \<longrightarrow> cache_ok L s' \<and> cache_le s s')"

lemma cache_le_refl [simp]: "cache_le s s"
  by (simp add: cache_le_def)

lemma cache_le_trans: "cache_le s s1 \<Longrightarrow> cache_le s1 s2 \<Longrightarrow> cache_le s s2"
  by (simp add: cache_le_def)

lemma cache_bind_on [simp]: "v_cache (bind_on p l m s) = v_cache s"
  by (simp add: bind_on_def split: option.splits)

lemma cache_ok_cong: "v_cache s = v_cache s' \<Longrightarrow> cache_ok L s = cache_ok L s'"
  by (simp add: cache_ok_def)

lemma cache_le_cong: "v_cache s1 = v_cache s2 \<Longrightarrow> cache_le s s1 = cache_le s s2"
  by (simp add: cache_le_def)

lemma cache_new_module [simp]: "v_cache (new_module n f p s) = dset n (v_next s) (v_cache s)"
  by (simp add: new_module_def)

lemma cache_drop_failed:
  "dget (v_cache (drop_failed n pkg s)) k =
     (if k = n \<or> pkg \<and> inside k n then None else dget (v_cache s) k)"
proof -
  have "dget (filter (\<lambda>(x, _). \<not> P x) d) k = (if P k then None else dget d k)"
    for P k and d :: "(string, oid) dict"
    by (induction d) auto
  then show ?thesis by (auto simp: drop_failed_def Let_def)
qed

text \<open>The packages above a name are its parent and those above the parent.\<close>

lemma inside_parent:
  assumes "inside n p" "p \<noteq> []"
  shows "fst (rpartition CHR ''.'' n) \<noteq> []"
    and "p = fst (rpartition CHR ''.'' n) \<or> inside (fst (rpartition CHR ''.'' n)) p"
proof -
  obtain q where q: "n = p @ CHR ''.'' # q" using assms(1) by (auto simp: startswith_iff)
  then have dot: "CHR ''.'' \<in> set n" by simp
  let ?P = "fst (rpartition CHR ''.'' n)" and ?l = "snd (rpartition CHR ''.'' n)"
  have n: "?P @ CHR ''.'' # ?l = p @ CHR ''.'' # q" "CHR ''.'' \<notin> set ?l"
    using rpartition_dotted [OF dot] q by auto
  from n(1) consider us where "?P = p @ us" "us @ CHR ''.'' # ?l = CHR ''.'' # q"
    | us where "p = ?P @ us" "us @ CHR ''.'' # q = CHR ''.'' # ?l"
    by (auto simp: append_eq_append_conv2)
  then have "p = ?P \<or> inside ?P p"
  proof cases
    case (1 us)
    then show ?thesis by (cases us) (auto simp: startswith_iff)
  next
    case (2 us)
    show ?thesis
    proof (cases us)
      case (Cons a vs)
      with 2(2) have "?l = vs @ CHR ''.'' # q" by simp
      with n(2) show ?thesis by (metis in_set_conv_decomp)
    qed (use 2 in simp)
  qed
  then show "p = ?P \<or> inside ?P p" .
  then show "?P \<noteq> []" using assms(2) by (auto simp: startswith_iff)
qed

lemma parent_inside: "fst (rpartition CHR ''.'' n) \<noteq> [] \<Longrightarrow> inside n (fst (rpartition CHR ''.'' n))"
proof (cases "CHR ''.'' \<in> set n")
  case True
  from rpartition_dotted(1) [OF True] show ?thesis unfolding startswith_iff by (metis append_Cons append_Nil append.assoc)
qed (simp add: rpartition_absent)

lemma inside_trans: "inside n p \<Longrightarrow> inside p q \<Longrightarrow> inside n q"
  by (auto simp: startswith_iff)

text \<open>A new entry keeps the invariant when its parent is cached.\<close>

lemma cache_ok_new:
  assumes "cache_ok L s" "v_cache s' = dset name m (v_cache s)"
    and "\<And>p. p \<noteq> [] \<Longrightarrow> inside name p \<Longrightarrow> \<not> plain_module L p"
    and "fst (rpartition CHR ''.'' name) \<noteq> [] \<Longrightarrow> dget (v_cache s) (fst (rpartition CHR ''.'' name)) \<noteq> None"
  shows "cache_ok L s'"
  unfolding cache_ok_def
proof (intro allI impI)
  fix n p assume np: "dget (v_cache s') n \<noteq> None \<and> p \<noteq> [] \<and> inside n p"
  show "dget (v_cache s') p \<noteq> None \<and> \<not> plain_module L p"
  proof (cases "n = name")
    case True
    let ?P = "fst (rpartition CHR ''.'' name)"
    have "dget (v_cache s) ?P \<noteq> None" "p = ?P \<or> inside ?P p"
      using np True assms(4) inside_parent by auto
    then have "dget (v_cache s) p \<noteq> None" using assms(1) np unfolding cache_ok_def by blast
    with True np assms(2,3) show ?thesis by auto
  next
    case False
    with np assms(1,2) show ?thesis unfolding cache_ok_def by auto
  qed
qed

lemma cache_ok_drop_failed:
  assumes "cache_ok L s" "\<not> is_package \<longrightarrow> plain_module L name"
  shows "cache_ok L (drop_failed name is_package s)"
  using assms unfolding cache_ok_def cache_drop_failed
  by (auto split: if_splits dest: inside_trans)

text \<open>What every import does to the cache.\<close>

definition import_effect :: "loader \<Rightarrow> string \<Rightarrow> vstate \<Rightarrow> oid option res \<Rightarrow> vstate \<Rightarrow> bool" where
  "import_effect L name s r s' =
     (cache_ok L s' \<and> cache_le s s' \<and>
      (case r of
         Inl _ \<Rightarrow> dget (v_cache s') name = None
       | Inr (Some m) \<Rightarrow> dget (v_cache s') name = Some m
       | Inr None \<Rightarrow> True))"

lemma load_module_effect:
  assumes keep: "bodies_keep_cache L rt" and ok: "cache_ok L s" and new: "dget (v_cache s) name = None"
    and plain: "\<not> is_package \<longrightarrow> plain_module L name" and named: "name \<noteq> []"
    and above: "\<And>p. p \<noteq> [] \<Longrightarrow> inside name p \<Longrightarrow> \<not> plain_module L p"
    and parent: "fst (rpartition CHR ''.'' name) \<noteq> [] \<Longrightarrow> dget (v_cache s) (fst (rpartition CHR ''.'' name)) \<noteq> None"
    and run: "load_module rt fs name base path is_package pa s = (r, s')"
  shows "import_effect L name s r s'"
proof (cases "fs_read fs path")
  case (Inl e)
  with run ok new show ?thesis by (auto simp: load_module_def import_effect_def)
next
  case (Inr source)
  let ?s1 = "new_module name path (if is_package then Some base else None) s"
  obtain q s2 where body: "compile_and_exec rt (v_next s) source name ?s1 = (q, s2)" by fastforce
  have ok1: "cache_ok L ?s1" by (rule cache_ok_new [OF ok _ above parent]) simp
  have le1: "cache_le s ?s1" using new by (auto simp: cache_le_def)
  have s2: "cache_ok L s2" "cache_le ?s1 s2"
    using body keep ok1 unfolding compile_and_exec_def bodies_keep_cache_def
    by (auto split: sum.splits)
  then have own: "dget (v_cache s2) name = Some (v_next s)" by (simp add: cache_le_def)
  show ?thesis
  proof (cases q)
    case (Inl e)
    have gone: "dget (v_cache s) k = None" if "k = name \<or> is_package \<and> inside k name" for k
    proof (rule ccontr)
      assume k: "dget (v_cache s) k \<noteq> None"
      with new that have "inside k name" by auto
      with ok k named new show False unfolding cache_ok_def by blast
    qed
    have "r = Inl e" "s' = drop_failed name is_package s2"
      using run Inr body Inl by (auto simp: load_module_def Let_def)
    moreover have "cache_le s (drop_failed name is_package s2)"
      using cache_le_trans [OF le1 s2(2)] gone unfolding cache_le_def cache_drop_failed by fastforce
    ultimately show ?thesis
      using cache_ok_drop_failed [OF s2(1) plain] by (auto simp: import_effect_def cache_drop_failed)
  next
    case (Inr u)
    then have "r = Inr (Some (v_next s))" "v_cache s' = v_cache s2"
      using run \<open>fs_read fs path = Inr source\<close> body by (auto simp: load_module_def Let_def)
    with s2 own cache_le_trans [OF le1 s2(2)] show ?thesis
      by (auto simp: import_effect_def cache_le_def cong: cache_ok_cong)
  qed
qed

text \<open>A bare package object, for a directory without \<open>__init__.py\<close>.\<close>

lemma bare_package_effect:
  assumes "cache_ok L s1" "cache_le s s1" "dget (v_cache s) name = None"
    and "\<And>p. p \<noteq> [] \<Longrightarrow> inside name p \<Longrightarrow> \<not> plain_module L p"
    and "fst (rpartition CHR ''.'' name) \<noteq> [] \<Longrightarrow> dget (v_cache s1) (fst (rpartition CHR ''.'' name)) \<noteq> None"
    and "v_cache s' = dset name (v_next s1) (v_cache s1)"
  shows "import_effect L name s (Inr (Some (v_next s1))) s'"
proof -
  have "cache_ok L s'" by (rule cache_ok_new [OF assms(1,6,4,5)])
  with assms(2,3,6) show ?thesis by (auto simp: import_effect_def cache_le_def)
qed

lemma failed_parent_effect:
  assumes "import_effect L p s (Inl e) s'" "p \<noteq> []" "inside name p"
  shows "import_effect L name s (Inl e) s'"
  using assms unfolding import_effect_def cache_ok_def by (auto, blast)

lemma resolve_package_effect:
  assumes "bodies_keep_cache L rt" and "layout_ok L"
  shows "cache_ok L s \<Longrightarrow> name \<noteq> [] \<Longrightarrow> vfs_resolve L rt name s = (r, s') \<Longrightarrow> import_effect L name s r s'"
    and "cache_ok L s \<Longrightarrow> name \<noteq> [] \<Longrightarrow> (\<And>p. p \<noteq> [] \<Longrightarrow> inside name p \<Longrightarrow> \<not> plain_module L p) \<Longrightarrow>
      vfs_package L rt name s = (q, s') \<Longrightarrow> import_effect L name s (map_sum id Some q) s'"
  using assms
proof (induction L rt name s and L rt name s arbitrary: r s' and q s' rule: vfs_resolve_vfs_package.induct)
  case (1 L rt name s)
  let ?P = "fst (rpartition CHR ''.'' name)"
  show ?case
  proof (cases "\<exists>fs path pkg. l_fs L = Some fs \<and> dget (v_cache s) name = None
      \<and> module_file fs (module_base L name) = Some (path, pkg)")
    case False
    with "1.prems" show ?thesis
      by (subst (asm) vfs_resolve.simps) (auto simp: import_effect_def split: option.splits)
  next
    case True
    then obtain fs path pkg where f: "l_fs L = Some fs" "dget (v_cache s) name = None"
      "module_file fs (module_base L name) = Some (path, pkg)" by blast
    have above: "\<not> plain_module L p" if "p \<noteq> []" "inside name p" for p
      using that f \<open>layout_ok L\<close> by (auto simp: layout_ok_def has_file_def)
    have plain: "\<not> pkg \<longrightarrow> plain_module L name" using f by (auto simp: plain_module_def)
    show ?thesis
    proof (cases "?P = []")
      case True
      with f "1.prems" have "load_module rt fs name (module_base L name) path pkg None s = (r, s')"
        by (subst (asm) vfs_resolve.simps) simp
      with True above plain f "1.prems" show ?thesis by (intro load_module_effect) auto
    next
      case False
      obtain q1 s1 where p1: "vfs_package L rt ?P s = (q1, s1)" by fastforce
      have "\<not> plain_module L p" if "p \<noteq> []" "inside ?P p" for p
        using that above inside_trans [OF parent_inside [OF False]] by blast
      with "1.IH" [OF f(1,2,3) refl False] "1.prems" False p1
      have eff: "import_effect L ?P s (map_sum id Some q1) s1" by blast
      show ?thesis
      proof (cases q1)
        case (Inl e)
        with p1 f False "1.prems" have "r = Inl e" "s' = s1"
          by (auto simp: vfs_resolve.simps [of L rt name s])
        with Inl eff failed_parent_effect [OF _ False parent_inside [OF False]] show ?thesis by simp
      next
        case (Inr p)
        then have s1: "cache_ok L s1" "cache_le s s1" "dget (v_cache s1) ?P = Some p"
          using eff by (auto simp: import_effect_def)
        show ?thesis
        proof (cases "dget (v_cache s1) name")
          case None
          with Inr p1 f False "1.prems"
          have "load_module rt fs name (module_base L name) path pkg (Some p) s1 = (r, s')"
            by (simp add: vfs_resolve.simps [of L rt name s])
          with None above plain s1 "1.prems" have "import_effect L name s1 r s'"
            by (intro load_module_effect) auto
          with s1(2) show ?thesis unfolding import_effect_def using cache_le_trans by blast
        next
          case (Some m)
          with Inr p1 f False "1.prems" s1 show ?thesis
            by (auto simp: vfs_resolve.simps [of L rt name s] import_effect_def)
        qed
      qed
    qed
  qed
next
  case (2 L rt name s)
  let ?P = "fst (rpartition CHR ''.'' name)"
  show ?case
  proof (cases "dget (v_cache s) name")
    case (Some m)
    with "2.prems" show ?thesis
      by (auto simp: vfs_package.simps [of L rt name s] import_effect_def)
  next
    case None
    obtain r1 s1 where r1: "vfs_resolve L rt name s = (r1, s1)" by fastforce
    with "2.IH"(1) [OF None] "2.prems" have eff: "import_effect L name s r1 s1" by blast
    consider (failed) e where "r1 = Inl e" | (found) m where "r1 = Inr (Some m)" | (bare) "r1 = Inr None"
      by (metis option.exhaust sum.exhaust)
    then show ?thesis
    proof cases
      case bare
      have s1: "cache_ok L s1" "cache_le s s1" using eff by (simp_all add: import_effect_def)
      show ?thesis
      proof (cases "?P = []")
        case True
        with r1 bare None "2.prems" have "q = Inr (v_next s1)" "v_cache s' = dset name (v_next s1) (v_cache s1)"
          by (auto simp: vfs_package.simps [of L rt name s])
        with bare_package_effect [OF s1 None] True "2.prems"(3) show ?thesis by simp
      next
        case False
        obtain q2 s2 where p2: "vfs_package L rt ?P s1 = (q2, s2)" by fastforce
        have "\<not> plain_module L p" if "p \<noteq> []" "inside ?P p" for p
          using that "2.prems"(3) inside_trans [OF parent_inside [OF False]] by blast
        with "2.IH"(2) [OF None r1 [symmetric] bare refl False] "2.prems" False s1 p2
        have g: "import_effect L ?P s1 (map_sum id Some q2) s2" by blast
        show ?thesis
        proof (cases q2)
          case (Inl e)
          with r1 bare None False p2 "2.prems" have "q = Inl e" "s' = s2"
            by (auto simp: vfs_package.simps [of L rt name s])
          with Inl g failed_parent_effect [OF _ False parent_inside [OF False]] s1(2) show ?thesis
            by (auto simp: import_effect_def intro: cache_le_trans)
        next
          case (Inr g')
          with r1 bare None False p2 "2.prems"
          have "q = Inr (v_next s2)" "v_cache s' = dset name (v_next s2) (v_cache s2)"
            by (auto simp: vfs_package.simps [of L rt name s])
          moreover have "cache_ok L s2" "cache_le s s2" "dget (v_cache s2) ?P \<noteq> None"
            using Inr g s1(2) by (auto simp: import_effect_def intro: cache_le_trans)
          ultimately show ?thesis using bare_package_effect [OF _ _ None] "2.prems"(3) by simp
        qed
      qed
    qed (use eff r1 None "2.prems" in \<open>auto simp: vfs_package.simps [of L rt name s]\<close>)
  qed
qed

section \<open>The loader meets the contract\<close>

definition loader_ok :: "loader \<Rightarrow> runtime \<Rightarrow> vstate \<Rightarrow> bool" where
  "loader_ok L rt s = (l_fs L \<noteq> None \<and> bodies_keep_cache L rt \<and> layout_ok L \<and> cache_ok L s)"

lemma resolve_effect:
  assumes "loader_ok L rt s" "name \<noteq> []" "vfs_resolve L rt name s = (r, s')"
  shows "import_effect L name s r s'"
  using resolve_package_effect(1) assms by (auto simp: loader_ok_def)

definition named :: "string \<Rightarrow> bool" where
  "named n = (n \<noteq> [])"

interpretation vfs: module_loader "vfs_resolve L rt" "loader_ok L rt" "\<lambda>s. dget (v_cache s)" named for L rt
proof
  fix s :: vstate and n m assume "loader_ok L rt s" "dget (v_cache s) n = Some m"
  then show "vfs_resolve L rt n s = (Inr (Some m), s)"
    by (auto simp: loader_ok_def vfs_resolve.simps [of L rt n s])
next
  fix s s' :: vstate and n r assume s: "loader_ok L rt s" "named n" "vfs_resolve L rt n s = (r, s')"
  then have eff: "import_effect L n s r s'" by (auto simp: named_def intro: resolve_effect)
  show "loader_ok L rt s'" using s(1) eff by (simp add: loader_ok_def import_effect_def)
  fix k m assume "dget (v_cache s) k = Some m"
  then show "dget (v_cache s') k = Some m" using eff by (simp add: import_effect_def cache_le_def)
next
  fix s s' :: vstate and n m assume "loader_ok L rt s" "named n" "vfs_resolve L rt n s = (Inr (Some m), s')"
  then have "import_effect L n s (Inr (Some m)) s'" by (auto simp: named_def intro: resolve_effect)
  then show "dget (v_cache s') n = Some m" by (simp add: import_effect_def)
qed

text \<open>The top package of a cached dotted name is cached.\<close>

lemma top_cached:
  assumes "cache_ok L s" "dget (v_cache s) name \<noteq> None" "hd (split_on CHR ''.'' name) \<noteq> []"
  shows "dget (v_cache s) (hd (split_on CHR ''.'' name)) \<noteq> None"
proof -
  obtain w ws where sp: "split_on CHR ''.'' name = w # ws"
    using split_on_not_Nil by (cases "split_on CHR ''.'' name") auto
  then have name: "name = join ''.'' (w # ws)" using join_split_on by metis
  show ?thesis
  proof (cases ws)
    case Nil
    with name sp assms(2) show ?thesis by simp
  next
    case (Cons v vs)
    with name have "inside name w" by (auto simp: startswith_iff)
    with assms sp show ?thesis unfolding cache_ok_def by auto
  qed
qed

section \<open>Example workspaces\<close>

definition files_fs :: "string list \<Rightarrow> vfsys" where
  "files_fs files =
     \<lparr>fs_exists = (\<lambda>p. List.member files p),
      fs_read = (\<lambda>p. if List.member files p then Inr p else Inl (Exc FileNotFoundError p)),
      fs_list = (\<lambda>_. Inr []), fs_isdir = (\<lambda>_. Inr False)\<rparr>"

definition files_loader :: "string list \<Rightarrow> loader" where
  "files_loader files = VFSLoader (Some (files_fs files)) ''/''"

definition empty_module :: node where
  "empty_module = Node ''Module'' [(''body'', Many []), (''type_ignores'', Many [])]"

definition body_runtime :: "(string \<Rightarrow> vstate \<Rightarrow> unit res \<times> vstate) \<Rightarrow> runtime" where
  "body_runtime body =
     \<lparr>rt_parse = (\<lambda>_. Inr empty_module), rt_run = (\<lambda>n _ _ s. body n s), rt_minor = 12\<rparr>"

definition quiet :: runtime where
  "quiet = body_runtime (\<lambda>_ s. (Inr (), s))"

definition empty_cache :: vstate where
  "empty_cache = \<lparr>v_cache = [], v_next = 100, v_files = [], v_bound = []\<rparr>"

lemma base_inside: "inside n p \<Longrightarrow> startswith (module_base L n) (module_base L p @ ''/'')"
  by (auto simp: startswith_iff module_base_def replace_char_def)

lemma layout_ok_files:
  assumes "\<And>x f. x @ ''.py'' \<in> set files \<Longrightarrow> f \<in> set files \<Longrightarrow> \<not> startswith f (x @ ''/'')"
  shows "layout_ok (files_loader files)"
  unfolding layout_ok_def
proof (intro allI impI notI)
  let ?L = "files_loader files"
  fix n p assume a: "has_file ?L n \<and> p \<noteq> [] \<and> inside n p" and "plain_module ?L p"
  then have py: "module_base ?L p @ ''.py'' \<in> set files"
    by (auto simp: plain_module_def files_loader_def VFSLoader_def module_file_def files_fs_def split: if_splits)
  from a obtain suf where f: "module_base ?L n @ suf \<in> set files"
    by (auto simp: has_file_def files_loader_def VFSLoader_def module_file_def files_fs_def split: if_splits)
  obtain u where "module_base ?L n = (module_base ?L p @ ''/'') @ u"
    using a base_inside [of n p ?L] by (auto simp: startswith_iff)
  then have "startswith (module_base ?L n @ suf) (module_base ?L p @ ''/'')" by (simp add: startswith_iff)
  with assms [OF py f] show False ..
qed

lemma quiet_keeps: "bodies_keep_cache L quiet"
  by (simp add: bodies_keep_cache_def quiet_def body_runtime_def)

lemma empty_cache_ok: "cache_ok L empty_cache"
  by (simp add: cache_ok_def empty_cache_def)

definition ex_files :: "string list" where
  "ex_files = [''/pkg/__init__.py'', ''/pkg/sub.py'']"

lemma ex_loader_ok: "loader_ok (files_loader ex_files) quiet empty_cache"
proof -
  have "layout_ok (files_loader ex_files)"
  proof (rule layout_ok_files)
    fix x f assume "x @ ''.py'' \<in> set ex_files" and f: "f \<in> set ex_files"
    then have "x @ ''.py'' = ''/pkg/__init__'' @ ''.py'' \<or> x @ ''.py'' = ''/pkg/sub'' @ ''.py''"
      by (auto simp: ex_files_def)
    then have "x = ''/pkg/__init__'' \<or> x = ''/pkg/sub''" by (simp only: append_same_eq)
    with f show "\<not> startswith f (x @ ''/'')" by (auto simp: ex_files_def)
  qed
  with quiet_keeps empty_cache_ok show ?thesis
    by (simp add: loader_ok_def files_loader_def VFSLoader_def)
qed

lemma ex_import:
  "fst (vfs_resolve (files_loader ex_files) quiet ''pkg.sub'' empty_cache) = Inr (Some 101)"
  by code_simp

section \<open>Properties\<close>



text \<open>
  A workspace module is loaded once: after a successful import, importing the
  same name again returns the same object whatever was imported, or failed to
  import, in between.
\<close>

theorem import_same_module:
  assumes "loader_ok L rt s" and "named name" and "vfs_resolve L rt name s = (Inr (Some m), s')"
    and "list_all named others"
  shows "fst (vfs_resolve L rt name (vfs.resolve_all L rt others s')) = Inr (Some m)"
  using assms by (rule vfs.same_module)

theorem import_same_module_witness:
  "\<exists>s'. vfs_resolve (files_loader ex_files) quiet ''pkg.sub'' empty_cache = (Inr (Some 101), s')
     \<and> fst (vfs_resolve (files_loader ex_files) quiet ''pkg.sub''
             (vfs.resolve_all (files_loader ex_files) quiet [''pkg'', ''nothing''] s')) = Inr (Some 101)"
proof -
  obtain s' where run: "vfs_resolve (files_loader ex_files) quiet ''pkg.sub'' empty_cache = (Inr (Some 101), s')"
    using ex_import by (metis prod.collapse)
  from import_same_module [OF ex_loader_ok _ run, of "[''pkg'', ''nothing'']"] run show ?thesis
    by (auto simp: named_def)
qed

section \<open>Where the hypotheses are needed\<close>

text \<open>
  A bare package is built after its own parent without looking at the cache
  again. When the parent's \<open>__init__\<close> imports a module below it, a second package
  object replaces the first, and the module is not bound on it.
\<close>

definition ex_bare_files :: "string list" where
  "ex_bare_files = [''/a/__init__.py'', ''/a/b/c.py'', ''/a/b/d.py'']"

definition ex_bare_runtime :: runtime where
  "ex_bare_runtime = body_runtime (\<lambda>n s.
     if n = ''a'' then (Inr (), snd (vfs_resolve (files_loader ex_bare_files) quiet ''a.b.c'' s))
     else (Inr (), s))"

theorem bare_package_built_twice:
  "let s = snd (vfs_resolve (files_loader ex_bare_files) ex_bare_runtime ''a.b.d'' empty_cache)
   in dget (v_cache s) ''a.b'' = Some 103 \<and> (101, ''c'', 102) \<in> set (v_bound s)
      \<and> (103, ''c'', 102) \<notin> set (v_bound s)"
  by code_simp

text \<open>
  A single-file module beside a directory of its name: its body imports a module
  from that directory and then fails. The failure drops the module but not the
  one below it, and the next import of that one raises \<open>KeyError\<close>.
\<close>

definition ex_shadow_files :: "string list" where
  "ex_shadow_files = [''/x.py'', ''/x/sub.py'']"

definition ex_shadow_runtime :: runtime where
  "ex_shadow_runtime = body_runtime (\<lambda>n s.
     if n = ''x'' then (Inl (Exc ValueError []), snd (vfs_resolve (files_loader ex_shadow_files) quiet ''x.sub'' s))
     else (Inr (), s))"

theorem failed_plain_module_keeps_children:
  "let s = snd (vfs_resolve (files_loader ex_shadow_files) ex_shadow_runtime ''x'' empty_cache)
   in dget (v_cache s) ''x'' = None
      \<and> fst (ensure_package_chain (files_loader ex_shadow_files) ex_shadow_runtime ''x.sub'' s)
        = Inl (Exc KeyError ''x'')"
  by code_simp

end
