(* ===== verification/ImportGate.thy ===== *)
theory ImportGate
  imports AttrGate Vfs "HOL-Library.List_Lexorder" "HOL-Library.Char_ord"
begin

text \<open>
  The import gates of \<open>gates.py\<close>: \<open>import m\<close>, \<open>from m import x\<close> and \<open>__import__\<close>
  of sandboxed code are calls of \<open>__st_import__\<close>, \<open>__st_importfrom__\<close> and
  \<open>__st_dynimport__\<close> after rewriting. Each tries, in this order, the synthetic
  \<open>sys\<close>, the modules handed to the execution, the policy's modules, the
  workspace, and the running namespace under the name \<open>main\<close>.
\<close>

section \<open>The environment of the gates\<close>

text \<open>
  What a gate closes over: the policy, the loader, the synthetic \<open>sys\<close> and the
  modules of this execution; and what it reads of its caller: globals and
  \<open>__file__\<close>. \<open>g_dict\<close> is the dictionary of a workspace module object.
\<close>

record gate_env =
  g_world :: pyworld
  g_policy :: policy
  g_loader :: loader
  g_runtime :: runtime
  g_sys :: "oid option"
  g_exec_modules :: "(string, oid) dict"
  g_globals :: "(string, oid) dict"
  g_file :: string
  g_dict :: "vstate \<Rightarrow> oid \<Rightarrow> (string, oid) dict"

datatype imported = IObj oid | IProxy "(string, oid) dict" | IGate gate_value

section \<open>The search behind an import error\<close>

text \<open>\<open>str.isidentifier\<close> on ASCII text.\<close>

definition ident_start :: "char \<Rightarrow> bool" where
  "ident_start c = (let n = of_char c :: nat in (65 \<le> n \<and> n \<le> 90) \<or> (97 \<le> n \<and> n \<le> 122) \<or> n = 95)"

definition ident_char :: "char \<Rightarrow> bool" where
  "ident_char c = (ident_start c \<or> (let n = of_char c :: nat in 48 \<le> n \<and> n \<le> 57))"

definition isidentifier :: "string \<Rightarrow> bool" where
  "isidentifier s = (case s of [] \<Rightarrow> False | c # cs \<Rightarrow> ident_start c \<and> list_all ident_char cs)"

definition is_dunder :: "string \<Rightarrow> bool" where
  "is_dunder s = (startswith s ''__'' \<and> endswith s ''__'')"

abbreviation no_slash_end :: "string \<Rightarrow> string" where
  "no_slash_end s \<equiv> rstrip {CHR ''/''} s"

text \<open>One directory: \<open>Inl\<close> is the hit, \<open>Inr\<close> the subdirectories to visit.\<close>

fun scan_entries :: "vfsys \<Rightarrow> string \<Rightarrow> string \<Rightarrow> string \<Rightarrow> string list \<Rightarrow> (string + string list) res" where
  "scan_entries fs target mroot d [] = Inr (Inr [])"
| "scan_entries fs target mroot d (entry # es) =
     (if entry = target \<and> no_slash_end d \<noteq> no_slash_end mroot
      then Inr (Inl (no_slash_end d @ ''/'' @ entry))
      else if \<not> isidentifier entry \<or> is_dunder entry then scan_entries fs target mroot d es
      else
        (let full = no_slash_end d @ ''/'' @ entry in
         case fs_isdir fs full of
           Inl e \<Rightarrow>
             if exc_caught_by (err_class e) Exception then scan_entries fs target mroot d es
             else Inl e
         | Inr b \<Rightarrow>
             rbind (scan_entries fs target mroot d es) (\<lambda>r.
             Inr (case r of Inl hit \<Rightarrow> Inl hit | Inr ds \<Rightarrow> Inr (if b then full # ds else ds)))))"

fun find_loop :: "vfsys \<Rightarrow> string \<Rightarrow> string \<Rightarrow> nat \<Rightarrow> string list \<Rightarrow> string option res" where
  "find_loop fs target mroot 0 queue = Inr None"
| "find_loop fs target mroot (Suc n) [] = Inr None"
| "find_loop fs target mroot (Suc n) (d # queue) =
     (case fs_list fs d of
        Inl e \<Rightarrow>
          if exc_caught_by (err_class e) Exception then find_loop fs target mroot n queue
          else Inl e
      | Inr entries \<Rightarrow>
          rbind (scan_entries fs target mroot d (sort entries)) (\<lambda>r.
          case r of
            Inl hit \<Rightarrow> Inr (Some hit)
          | Inr ds \<Rightarrow> find_loop fs target mroot n (queue @ ds)))"

definition max_dirs :: nat where
  "max_dirs = 200"

definition find_module_file :: "loader \<Rightarrow> string \<Rightarrow> string option res" where
  "find_module_file L stem =
     (case l_fs L of
        None \<Rightarrow> Inr None
      | Some fs \<Rightarrow>
          find_loop fs (stem @ ''.py'') (if l_root L = [] then ''/'' else l_root L) max_dirs [''/''])"

definition import_error_message :: "loader \<Rightarrow> string \<Rightarrow> string res" where
  "import_error_message L module_name =
     (let parts = split_on CHR ''.'' module_name;
          mroot = (if l_root L = [] then ''/'' else l_root L)
      in
      rbind (find_module_file L (hd parts)) (\<lambda>hit1.
      rbind (if hit1 = None \<and> length parts > 1 then find_module_file L (last parts) else Inr hit1) (\<lambda>hit.
      Inr (case hit of
        None \<Rightarrow> ''Import of '' @ module_name @ '' is not allowed''
      | Some h \<Rightarrow>
          (let at_root = ''No module named '' @ module_name @ '' at the module root (imports of '' @
                 ''filesystem modules resolve from '' @ mroot @ ''). Found '' @ h in
           if l_root L = [] \<or> startswith h (l_root L @ ''/'') then
             (let rel = drop (length (l_root L)) h;
                  dotted = replace_char CHR ''/'' ''.'' (drop 1 (take (length rel - 3) rel));
                  pl = rpartition CHR ''.'' dotted
              in at_root @ '' - try: from '' @ fst pl @ '' import '' @ snd pl)
           else at_root @ '', which is OUTSIDE the module root - move it under '' @ mroot @
                  '' to import it'')))))"

section \<open>Exports\<close>

text \<open>\<open>_module_export\<close>: \<open>None\<close> is \<open>_MISSING\<close>.\<close>

definition module_export :: "gate_env \<Rightarrow> vstate \<Rightarrow> oid \<Rightarrow> string \<Rightarrow> imported option" where
  "module_export g s md name =
     (if name \<in> set MODULE_METADATA_DUNDERS
      then map_option (\<lambda>m. IGate (Meta m)) (module_metadata (g_world g) md name)
      else if is_dunder name then None
      else map_option IObj (dget (g_dict g s md) name))"

definition is_internal :: "string \<Rightarrow> bool" where
  "is_internal name = (name = ''__builtins__'' \<or> startswith name ''__st_'')"

definition MAIN_NAMES :: "string list" where
  "MAIN_NAMES = [''main'', ''__main__'']"

section \<open>\<open>import m\<close>\<close>

definition import_failed :: "gate_env \<Rightarrow> string \<Rightarrow> pyerr" where
  "import_failed g name =
     (case import_error_message (g_loader g) name of
        Inl e \<Rightarrow> e
      | Inr msg \<Rightarrow> Exc ImportError msg)"

definition st_import ::
  "gate_env \<Rightarrow> string \<Rightarrow> string option \<Rightarrow> vstate \<Rightarrow> imported res \<times> vstate" where
  "st_import g name alias s =
     (if g_sys g \<noteq> None \<and> name = ''sys'' then (Inr (IObj (the (g_sys g))), s)
      else
        (case dget (g_exec_modules g) name of
           Some m \<Rightarrow> (Inr (IObj m), s)
         | None \<Rightarrow>
     (if is_import_allowed (g_policy g) name then
        (rbind (resolve_module (g_world g) (g_policy g)
                  (if alias \<noteq> None then name else hd (split_on CHR ''.'' name)))
           (\<lambda>m. Inr (IObj m)), s)
      else
        (case (if alias \<noteq> None \<or> CHR ''.'' \<notin> set name
               then vfs_resolve (g_loader g) (g_runtime g) name s
               else ensure_package_chain (g_loader g) (g_runtime g) name s) of
           (Inl e, s1) \<Rightarrow> (Inl e, s1)
         | (Inr (Some m), s1) \<Rightarrow> (Inr (IObj m), s1)
         | (Inr None, s1) \<Rightarrow>
             (if name \<in> set MAIN_NAMES
              then (Inr (IProxy (filter (\<lambda>(k, _). \<not> is_internal k) (g_globals g))), s1)
              else (Inl (import_failed g name), s1))))))"

section \<open>\<open>from m import x\<close>\<close>

text \<open>\<open>posixpath.dirname\<close>.\<close>

definition dirname :: "string \<Rightarrow> string" where
  "dirname p =
     (let head = rev (dropWhile (\<lambda>c. c \<noteq> CHR ''/'') (rev p))
      in if list_all (\<lambda>c. c = CHR ''/'') head then head else no_slash_end head)"

text \<open>The absolute name a relative import means, from the caller's \<open>__file__\<close>.\<close>

definition relative_module :: "loader \<Rightarrow> string \<Rightarrow> string \<Rightarrow> string \<Rightarrow> nat \<Rightarrow> string" where
  "relative_module L caller_file module_name name level =
     (let base = (dirname ^^ level) caller_file;
          base = (if l_root L \<noteq> [] \<and> startswith base (l_root L) then drop (length (l_root L)) base else base)
      in if module_name \<noteq> []
         then replace_char CHR ''/'' ''.''
                (lstrip {CHR ''/''} (base @ ''/'' @ replace_char CHR ''.'' ''/'' module_name))
         else
           (let abs_parts = lstrip {CHR ''/''} (no_slash_end base)
            in if abs_parts \<noteq> [] then replace_char CHR ''/'' ''.'' abs_parts @ ''.'' @ name else name))"

definition cannot_import :: "string \<Rightarrow> string \<Rightarrow> pyerr" where
  "cannot_import name m = Exc ImportError (''cannot import name '' @ name @ '' from '' @ m)"

definition import_relative ::
  "gate_env \<Rightarrow> string \<Rightarrow> string \<Rightarrow> nat \<Rightarrow> vstate \<Rightarrow> imported res \<times> vstate" where
  "import_relative g module_name name level s =
     (let abs_module = relative_module (g_loader g) (g_file g) module_name name level in
      case vfs_resolve (g_loader g) (g_runtime g) abs_module s of
        (Inl e, s1) \<Rightarrow> (Inl e, s1)
      | (Inr None, s1) \<Rightarrow>
          (Inl (Exc ImportError (''No module named '' @ abs_module @ '' (resolved from relative import)'')), s1)
      | (Inr (Some m), s1) \<Rightarrow>
          (if module_name = [] then (Inr (IObj m), s1)
           else
             (case module_export g s1 m name of
                Some v \<Rightarrow> (Inr v, s1)
              | None \<Rightarrow> (Inl (cannot_import name abs_module), s1))))"

text \<open>The registration that governs a module's members, by name.\<close>

definition member_registration :: "policy \<Rightarrow> string \<Rightarrow> registration option" where
  "member_registration pol m =
     (case dget (pol_modules pol) m of
        Some r \<Rightarrow> Some (MReg r)
      | None \<Rightarrow> map_option (\<lambda>(_, r). MReg r) (first_recursive (pol_modules pol) (parent_names m)))"

definition import_policy_member :: "gate_env \<Rightarrow> string \<Rightarrow> string \<Rightarrow> imported res" where
  "import_policy_member g m name =
     rbind (resolve_module_member (g_world g) (g_policy g) m name) (\<lambda>v.
     Inr (case v of
       MemberObj x \<Rightarrow> IGate (maybe_wrap_privileged (g_world g) x (member_registration (g_policy g) m) name)
     | MemberMeta d \<Rightarrow> IGate (Meta d)))"

definition import_from_main :: "gate_env \<Rightarrow> string \<Rightarrow> string \<Rightarrow> imported res" where
  "import_from_main g m name =
     (case (if m \<in> set MAIN_NAMES \<and> \<not> is_dunder name then dget (g_globals g) name else None) of
        Some v \<Rightarrow> Inr (IObj v)
      | None \<Rightarrow> Inl (import_failed g m))"

definition import_workspace ::
  "gate_env \<Rightarrow> string \<Rightarrow> string \<Rightarrow> vstate \<Rightarrow> imported res \<times> vstate" where
  "import_workspace g m name s =
     (case vfs_resolve (g_loader g) (g_runtime g) m s of
        (Inl e, s1) \<Rightarrow> (Inl e, s1)
      | (Inr found, s1) \<Rightarrow>
          (case (case found of Some md \<Rightarrow> module_export g s1 md name | None \<Rightarrow> None) of
             Some v \<Rightarrow> (Inr v, s1)
           | None \<Rightarrow>
               (case vfs_resolve (g_loader g) (g_runtime g) (m @ ''.'' @ name) s1 of
                  (Inl e, s2) \<Rightarrow> (Inl e, s2)
                | (Inr (Some sub), s2) \<Rightarrow> (Inr (IObj sub), s2)
                | (Inr None, s2) \<Rightarrow>
                    ((if found \<noteq> None then Inl (cannot_import name m)
                      else import_from_main g m name), s2))))"

definition st_importfrom ::
  "gate_env \<Rightarrow> string \<Rightarrow> string \<Rightarrow> nat \<Rightarrow> vstate \<Rightarrow> imported res \<times> vstate" where
  "st_importfrom g m name level s =
     (if is_internal name
      then (Inl (Exc ImportError (''cannot import name '' @ name @ '' from '' @ m @
                   '': sandbox internals are not importable'')), s)
      else if g_sys g \<noteq> None \<and> m = ''sys'' then
        (rbind (has_attr (g_world g) (the (g_sys g)) name) (\<lambda>b.
           if b then rbind (get_attr (g_world g) (the (g_sys g)) name) (\<lambda>v. Inr (IObj v))
           else Inl (cannot_import name m)), s)
      else
        (case dget (g_exec_modules g) m of
           Some md \<Rightarrow>
             ((case exec_module_of (g_world g) md of
                 Some em \<Rightarrow>
                   (case dget (em_attributes em) name of
                      Some v \<Rightarrow> Inr (IObj v)
                    | None \<Rightarrow> Inl (cannot_import name m))
               | None \<Rightarrow> Inl (cannot_import name m)), s)
         | None \<Rightarrow>
             (if level > 0 then import_relative g m name level s
              else if is_import_allowed (g_policy g) m then (import_policy_member g m name, s)
              else import_workspace g m name s)))"

section \<open>\<open>__import__\<close>\<close>

text \<open>An attribute of what an import returned, as \<open>hasattr\<close> and \<open>getattr\<close> see it.\<close>

definition imported_has :: "gate_env \<Rightarrow> imported \<Rightarrow> string \<Rightarrow> bool res" where
  "imported_has g v entry =
     (case v of
        IObj m \<Rightarrow> has_attr (g_world g) m entry
      | IProxy d \<Rightarrow> Inr (dmem entry d)
      | IGate _ \<Rightarrow> Inr False)"

fun walk_down :: "gate_env \<Rightarrow> oid \<Rightarrow> string list \<Rightarrow> oid option res" where
  "walk_down g obj [] = Inr (Some obj)"
| "walk_down g obj (part # rest) =
     rbind (getattr_none (g_world g) obj part)
       (\<lambda>x. if x = py_None then Inr None else walk_down g x rest)"

text \<open>The first fromlist entry that names a workspace module builds the package. An entry that is not text is \<open>None\<close>.\<close>

fun dyn_package :: "gate_env \<Rightarrow> string \<Rightarrow> string option list \<Rightarrow> vstate \<Rightarrow> oid option res \<times> vstate" where
  "dyn_package g name [] s = (Inr None, s)"
| "dyn_package g name (e # es) s =
     (case e of
        None \<Rightarrow> dyn_package g name es s
      | Some entry \<Rightarrow>
          if entry = ''*'' then dyn_package g name es s
          else
            (case ensure_package_chain (g_loader g) (g_runtime g) (name @ ''.'' @ entry) s of
               (Inl x, s1) \<Rightarrow> (Inl x, s1)
             | (Inr None, s1) \<Rightarrow> dyn_package g name es s1
             | (Inr (Some tp), s1) \<Rightarrow>
                 (case walk_down g tp (tl (split_on CHR ''.'' name)) of
                    Inl x \<Rightarrow> (Inl x, s1)
                  | Inr (Some obj) \<Rightarrow> (Inr (Some obj), s1)
                  | Inr None \<Rightarrow> dyn_package g name es s1)))"

definition submodule_exists :: "gate_env \<Rightarrow> string \<Rightarrow> bool res" where
  "submodule_exists g full =
     rcatch (find_spec (g_world g) full)
       (\<lambda>c. exc_caught_by c ImportError \<or> exc_caught_by c AttributeError \<or> exc_caught_by c ValueError)
       (\<lambda>_. Inr False)"

fun load_fromlist ::
  "gate_env \<Rightarrow> string \<Rightarrow> imported \<Rightarrow> string option list \<Rightarrow> vstate \<Rightarrow> unit res \<times> vstate" where
  "load_fromlist g name md [] s = (Inr (), s)"
| "load_fromlist g name md (e # es) s =
     (case e of
        None \<Rightarrow> load_fromlist g name md es s
      | Some entry \<Rightarrow>
          if entry = ''*'' then load_fromlist g name md es s
          else
            (case imported_has g md entry of
               Inl x \<Rightarrow> (Inl x, s)
             | Inr True \<Rightarrow> load_fromlist g name md es s
             | Inr False \<Rightarrow>
                 (let full = name @ ''.'' @ entry in
                  case vfs_resolve (g_loader g) (g_runtime g) full s of
                    (Inl x, s1) \<Rightarrow> (Inl x, s1)
                  | (Inr (Some _), s1) \<Rightarrow> load_fromlist g name md es s1
                  | (Inr None, s1) \<Rightarrow>
                      if \<not> is_import_allowed (g_policy g) full then load_fromlist g name md es s1
                      else
                        (case submodule_exists g full of
                           Inl x \<Rightarrow> (Inl x, s1)
                         | Inr False \<Rightarrow> load_fromlist g name md es s1
                         | Inr True \<Rightarrow>
                             (case st_importfrom g name entry 0 s1 of
                                (Inl x, s2) \<Rightarrow> (Inl x, s2)
                              | (Inr _, s2) \<Rightarrow> load_fromlist g name md es s2)))))"

definition st_dynimport ::
  "gate_env \<Rightarrow> string \<Rightarrow> string option list \<Rightarrow> nat \<Rightarrow> vstate \<Rightarrow> imported res \<times> vstate" where
  "st_dynimport g name fromlist level s =
     (if level \<noteq> 0
      then (Inl (Exc ImportError ''Relative __import__ (level > 0) is not supported''), s)
      else if fromlist = [] then st_import g name None s
      else
        (case (case st_import g name (Some name) s of
                 (Inr md, s1) \<Rightarrow> (Inr md, s1)
               | (Inl e, s1) \<Rightarrow>
                   if exc_caught_by (err_class e) ImportError then
                     (case dyn_package g name fromlist s1 of
                        (Inl x, s2) \<Rightarrow> (Inl x, s2)
                      | (Inr (Some obj), s2) \<Rightarrow> (Inr (IObj obj), s2)
                      | (Inr None, s2) \<Rightarrow> (Inl e, s2))
                   else (Inl e, s1)) of
           (Inl e, s1) \<Rightarrow> (Inl e, s1)
         | (Inr md, s1) \<Rightarrow>
             (case load_fromlist g name md fromlist s1 of
                (Inl e, s2) \<Rightarrow> (Inl e, s2)
              | (Inr _, s2) \<Rightarrow> (Inr md, s2))))"

section \<open>Where an import can come from\<close>

text \<open>The sources of what \<open>import m\<close> returns.\<close>

definition import_source :: "gate_env \<Rightarrow> string \<Rightarrow> imported \<Rightarrow> vstate \<Rightarrow> bool" where
  "import_source g name v s' =
     (case v of
        IObj m \<Rightarrow>
          (name = ''sys'' \<and> g_sys g = Some m)
          \<or> dget (g_exec_modules g) name = Some m
          \<or> (is_import_allowed (g_policy g) name \<and>
             (\<exists>n \<in> {name, hd (split_on CHR ''.'' name)}. resolve_module (g_world g) (g_policy g) n = Inr m))
          \<or> (\<not> is_import_allowed (g_policy g) name \<and> (\<exists>n. dget (v_cache s') n = Some m))
      | IProxy d \<Rightarrow>
          name \<in> set MAIN_NAMES \<and> \<not> is_import_allowed (g_policy g) name
          \<and> set d \<subseteq> set (g_globals g) \<and> (\<forall>(k, _) \<in> set d. \<not> is_internal k)
      | IGate _ \<Rightarrow> False)"

lemma st_import_source:
  assumes "st_import g name alias s = (Inr v, s')" "name \<noteq> []" "loader_ok (g_loader g) (g_runtime g) s"
  shows "import_source g name v s'"
proof (cases "(g_sys g \<noteq> None \<and> name = ''sys'') \<or> dget (g_exec_modules g) name \<noteq> None
    \<or> is_import_allowed (g_policy g) name")
  case True
  with assms(1) show ?thesis
    by (auto simp: st_import_def import_source_def res_simps split: option.splits if_splits)
next
  case False
  let ?r = "if alias \<noteq> None \<or> CHR ''.'' \<notin> set name
    then vfs_resolve (g_loader g) (g_runtime g) name s
    else ensure_package_chain (g_loader g) (g_runtime g) name s"
  obtain r s1 where r: "?r = (r, s1)" by fastforce
  have cached: "\<exists>n. dget (v_cache s1) n = Some m" if "r = Inr (Some m)" for m
    using r that vfs.returned [OF assms(3)] assms(2)
    by (auto simp: named_def ensure_package_chain_def Let_def split: if_splits prod.splits sum.splits option.splits)
  have "st_import g name alias s = (case (r, s1) of
      (Inl e, s1) \<Rightarrow> (Inl e, s1) | (Inr (Some m), s1) \<Rightarrow> (Inr (IObj m), s1)
    | (Inr None, s1) \<Rightarrow> (if name \<in> set MAIN_NAMES
        then (Inr (IProxy (filter (\<lambda>(k, _). \<not> is_internal k) (g_globals g))), s1)
        else (Inl (import_failed g name), s1)))"
    using False unfolding r [symmetric] by (auto simp: st_import_def)
  with assms(1) False cached show ?thesis
    by (auto simp: import_source_def split: sum.splits option.splits if_splits)
qed

text \<open>The sources of what \<open>from m import x\<close> returns.\<close>

definition workspace_member :: "gate_env \<Rightarrow> string \<Rightarrow> imported \<Rightarrow> vstate \<Rightarrow> bool" where
  "workspace_member g name v s' =
     ((\<exists>n m. v = IObj m \<and> dget (v_cache s') n = Some m)
      \<or> (\<exists>n md s1. dget (v_cache s1) n = Some md \<and> cache_le s1 s' \<and> module_export g s1 md name = Some v))"

definition member_source :: "gate_env \<Rightarrow> string \<Rightarrow> string \<Rightarrow> imported \<Rightarrow> vstate \<Rightarrow> bool" where
  "member_source g m name v s' =
     ((m = ''sys'' \<and> (\<exists>sy x. g_sys g = Some sy \<and> get_attr (g_world g) sy name = Inr x \<and> v = IObj x))
      \<or> (\<exists>md em x. dget (g_exec_modules g) m = Some md \<and> exec_module_of (g_world g) md = Some em
           \<and> dget (em_attributes em) name = Some x \<and> v = IObj x)
      \<or> (is_import_allowed (g_policy g) m \<and> import_policy_member g m name = Inr v)
      \<or> workspace_member g name v s'
      \<or> (m \<in> set MAIN_NAMES \<and> \<not> is_dunder name \<and> (\<exists>x. dget (g_globals g) name = Some x \<and> v = IObj x)))"

lemma import_relative_source:
  assumes "import_relative g m name level s = (Inr v, s')" "loader_ok (g_loader g) (g_runtime g) s"
    and "relative_module (g_loader g) (g_file g) m name level \<noteq> []"
  shows "workspace_member g name v s'"
proof -
  let ?n = "relative_module (g_loader g) (g_file g) m name level"
  from assms(1) obtain md where r: "vfs_resolve (g_loader g) (g_runtime g) ?n s = (Inr (Some md), s')"
    and v: "v = IObj md \<or> module_export g s' md name = Some v"
    by (auto simp: import_relative_def Let_def split: prod.splits sum.splits option.splits if_splits)
  have "dget (v_cache s') ?n = Some md" using vfs.returned [OF assms(2) _ r] assms(3) by (simp add: named_def)
  with v show ?thesis unfolding workspace_member_def using cache_le_refl by blast
qed

lemma import_workspace_source:
  assumes "import_workspace g m name s = (Inr v, s')" "loader_ok (g_loader g) (g_runtime g) s" "m \<noteq> []"
  shows "workspace_member g name v s'
    \<or> (m \<in> set MAIN_NAMES \<and> \<not> is_dunder name \<and> (\<exists>x. dget (g_globals g) name = Some x \<and> v = IObj x))"
proof -
  obtain r s1 where r: "vfs_resolve (g_loader g) (g_runtime g) m s = (r, s1)" by fastforce
  obtain r2 s2 where r2: "vfs_resolve (g_loader g) (g_runtime g) (m @ ''.'' @ name) s1 = (r2, s2)" by fastforce
  have ok1: "loader_ok (g_loader g) (g_runtime g) s1"
    using vfs.keeps_ok [OF assms(2) _ r] assms(3) by (simp add: named_def)
  have hit: "dget (v_cache s1) m = Some md" if "r = Inr (Some md)" for md
    using vfs.returned [OF assms(2)] r that assms(3) by (simp add: named_def)
  have sub: "dget (v_cache s2) (m @ ''.'' @ name) = Some md" if "r2 = Inr (Some md)" for md
    using vfs.returned [OF ok1] r2 that by (simp add: named_def)
  obtain found where found: "r = Inr found" using assms(1) r by (cases r) (auto simp: import_workspace_def)
  let ?e = "case found of Some md \<Rightarrow> module_export g s1 md name | None \<Rightarrow> None"
  have step: "import_workspace g m name s = (case ?e of Some u \<Rightarrow> (Inr u, s1) | None \<Rightarrow>
      (case (r2, s2) of (Inl e, s2) \<Rightarrow> (Inl e, s2) | (Inr (Some sub), s2) \<Rightarrow> (Inr (IObj sub), s2)
       | (Inr None, s2) \<Rightarrow> ((if found \<noteq> None then Inl (cannot_import name m) else import_from_main g m name), s2)))"
    unfolding import_workspace_def r r2 found sum.case prod.case ..
  consider (exported) md where "r = Inr (Some md)" "module_export g s1 md name = Some v" "s' = s1"
    | (submodule) md where "r2 = Inr (Some md)" "v = IObj md" "s' = s2"
    | (main) "import_from_main g m name = Inr v" "s' = s2"
  proof (cases ?e)
    case (Some u)
    then obtain md where "found = Some md" "module_export g s1 md name = Some u" by (cases found) auto
    moreover have "v = u" "s' = s1" using step Some assms(1) by simp_all
    ultimately show thesis using found that(1) by blast
  next
    case None
    with step assms(1) that(2,3) show thesis
      by (cases r2; cases found) (auto split: option.splits)
  qed
  then show ?thesis
  proof cases
    case exported
    with hit show ?thesis unfolding workspace_member_def using cache_le_refl by blast
  next
    case submodule
    with sub show ?thesis unfolding workspace_member_def by blast
  next
    case main
    then show ?thesis by (auto simp: import_from_main_def split: option.splits if_splits)
  qed
qed

lemma st_importfrom_source:
  assumes "st_importfrom g m name level s = (Inr v, s')" "loader_ok (g_loader g) (g_runtime g) s"
    and "level = 0 \<longrightarrow> m \<noteq> []" "level > 0 \<longrightarrow> relative_module (g_loader g) (g_file g) m name level \<noteq> []"
  shows "\<not> is_internal name \<and> member_source g m name v s'"
proof -
  have int: "\<not> is_internal name" using assms(1) by (auto simp: st_importfrom_def split: if_splits)
  show ?thesis
  proof (cases "(g_sys g \<noteq> None \<and> m = ''sys'') \<or> dget (g_exec_modules g) m \<noteq> None")
    case True
    with assms(1) int show ?thesis
      by (auto simp: st_importfrom_def member_source_def res_simps split: option.splits if_splits)
  next
    case False
    with assms int show ?thesis
      by (auto simp: st_importfrom_def member_source_def split: if_splits
          dest: import_relative_source import_workspace_source)
  qed
qed

text \<open>What sandbox-run modules and the running namespace never give away.\<close>

lemma module_export_no_dunder:
  "module_export g s md name = Some v \<Longrightarrow> is_dunder name \<Longrightarrow> \<exists>m. v = IGate (Meta m)"
  by (auto simp: module_export_def split: if_splits)

section \<open>Paths and dotted names\<close>

definition seg_ok :: "string \<Rightarrow> bool" where
  "seg_ok s = (s \<noteq> [] \<and> CHR ''/'' \<notin> set s \<and> CHR ''.'' \<notin> set s)"

definition dir_path :: "string \<Rightarrow> string list \<Rightarrow> string" where
  "dir_path rt segs = rt @ concat (map (\<lambda>s. CHR ''/'' # s) segs)"

lemma replace_char_id: "c \<notin> set s \<Longrightarrow> replace_char c d s = s"
  by (induction s) (auto simp: replace_char_def)

lemma replace_char_Nil [simp]: "replace_char c d [] = []"
  by (simp add: replace_char_def)

lemma replace_char_append: "replace_char c d (s @ u) = replace_char c d s @ replace_char c d u"
  by (simp add: replace_char_def)

lemma replace_char_join:
  "\<forall>x \<in> set xs. c \<notin> set x \<Longrightarrow> replace_char c [d] (join [c] xs) = join [d] xs"
proof (induction "[c]" xs rule: join.induct)
  case (3 x y zs)
  then show ?case by (simp add: replace_char_append replace_char_id) (simp add: replace_char_def)
qed (simp_all add: replace_char_id)

lemma concat_slashes: "concat (map (\<lambda>s. CHR ''/'' # s) xs) = (if xs = [] then [] else CHR ''/'' # join ''/'' xs)"
proof (induction xs)
  case (Cons x xs)
  then show ?case by (cases xs) auto
qed simp

lemma lstrip_slash: "lstrip {CHR ''/''} (CHR ''/'' # s) = lstrip {CHR ''/''} s"
  by (simp add: lstrip_def)

lemma lstrip_join:
  assumes "xs \<noteq> []" "list_all seg_ok xs"
  shows "lstrip {CHR ''/''} (join ''/'' xs) = join ''/'' xs"
proof -
  obtain x ys where xs: "xs = x # ys" using assms(1) by (cases xs) auto
  obtain c cs where x: "x = c # cs" using assms(2) by (cases x) (auto simp: xs seg_ok_def)
  have "\<exists>r. join ''/'' xs = c # r" by (cases ys) (auto simp: xs x)
  with assms(2) show ?thesis by (auto simp: lstrip_def xs x seg_ok_def)
qed

lemma dirname_leaf:
  assumes "CHR ''/'' \<notin> set l" "d \<noteq> []" "last d \<noteq> CHR ''/''"
  shows "dirname (d @ ''/'' @ l) = d"
proof -
  obtain d' x where d: "d = d' @ [x]" "x \<noteq> CHR ''/''"
    using assms(2,3) by (metis append_butlast_last_id last_snoc)
  have "dropWhile (\<lambda>c. c \<noteq> CHR ''/'') (rev l @ CHR ''/'' # rev d) = CHR ''/'' # rev d"
    using assms(1) by (subst dropWhile_append2) auto
  then have "rev (dropWhile (\<lambda>c. c \<noteq> CHR ''/'') (rev (d @ ''/'' @ l))) = d @ ''/''" by simp
  then show ?thesis by (simp add: dirname_def Let_def d rstrip_def)
qed

lemma dir_path_last:
  assumes "rt = [] \<or> last rt \<noteq> CHR ''/''" "list_all seg_ok segs" "dir_path rt segs \<noteq> []"
  shows "last (dir_path rt segs) \<noteq> CHR ''/''"
proof (cases segs rule: rev_cases)
  case (snoc ys y)
  then have "y \<noteq> []" "CHR ''/'' \<notin> set y" using assms(2) by (auto simp: seg_ok_def)
  then have "last (dir_path rt segs) = last y" by (simp add: dir_path_def snoc)
  with \<open>CHR ''/'' \<notin> set y\<close> \<open>y \<noteq> []\<close> show ?thesis by (metis last_in_set)
qed (use assms in \<open>simp add: dir_path_def\<close>)

lemma dirname_dir_path:
  assumes "rt = [] \<or> last rt \<noteq> CHR ''/''" "list_all seg_ok segs" "segs \<noteq> []" "CHR ''/'' \<notin> set l"
  shows "dirname (dir_path rt segs @ ''/'' @ l) = dir_path rt segs"
proof -
  have "dir_path rt segs \<noteq> []" using assms(3) by (cases segs) (auto simp: dir_path_def)
  with dirname_leaf [OF assms(4)] dir_path_last [OF assms(1,2)] show ?thesis by blast
qed

text \<open>Going up from a directory.\<close>

lemma dirname_up:
  assumes "rt = [] \<or> last rt \<noteq> CHR ''/''" "list_all seg_ok segs" "k < length segs"
    and "CHR ''/'' \<notin> set l"
  shows "(dirname ^^ Suc k) (dir_path rt segs @ ''/'' @ l) = dir_path rt (take (length segs - k) segs)"
  using assms
proof (induction k arbitrary: segs l)
  case 0
  then show ?case using dirname_dir_path [of rt segs l] by auto
next
  case (Suc k)
  then obtain ys y where segs: "segs = ys @ [y]" by (cases segs rule: rev_cases) auto
  have y: "list_all seg_ok ys" "CHR ''/'' \<notin> set y"
    using Suc.prems(2) unfolding segs by (simp_all, simp add: seg_ok_def)
  have "dirname (dir_path rt segs @ ''/'' @ l) = dir_path rt segs"
    using Suc.prems segs by (intro dirname_dir_path) auto
  moreover have "dir_path rt segs = dir_path rt ys @ ''/'' @ y" by (simp add: dir_path_def segs)
  ultimately have "(dirname ^^ Suc (Suc k)) (dir_path rt segs @ ''/'' @ l)
      = (dirname ^^ Suc k) (dir_path rt ys @ ''/'' @ y)"
    by (metis funpow_Suc_right o_apply)
  with Suc.IH [of ys y] Suc.prems y segs show ?case by simp
qed

lemma relative_from_dir:
  assumes "rt = [] \<or> last rt \<noteq> CHR ''/''" "list_all seg_ok segs" "list_all seg_ok ms" "ms \<noteq> []"
    and "base = dir_path rt segs"
  shows "replace_char CHR ''/'' ''.'' (lstrip {CHR ''/''}
      ((if rt \<noteq> [] \<and> startswith base rt then drop (length rt) base else base)
       @ ''/'' @ replace_char CHR ''.'' ''/'' (join ''.'' ms))) = join ''.'' (segs @ ms)"
proof -
  have ok: "list_all seg_ok (segs @ ms)" "segs @ ms \<noteq> []" using assms by auto
  have "replace_char CHR ''.'' ''/'' (join ''.'' ms) = join ''/'' ms"
    using assms(3) by (intro replace_char_join) (auto simp: list_all_iff seg_ok_def)
  moreover have "(if rt \<noteq> [] \<and> startswith base rt then drop (length rt) base else base)
      = concat (map (\<lambda>s. CHR ''/'' # s) segs)"
    by (auto simp: assms(5) dir_path_def)
  moreover have "concat (map (\<lambda>s. CHR ''/'' # s) segs) @ ''/'' @ join ''/'' ms = CHR ''/'' # join ''/'' (segs @ ms)"
    using assms(4) by (auto simp: concat_slashes join_append)
  ultimately show ?thesis
    using lstrip_join [OF ok(2,1)] ok(1) replace_char_join [of "segs @ ms" "CHR ''/''" "CHR ''.''"]
    by (auto simp: lstrip_slash list_all_iff seg_ok_def)
qed

section \<open>An example environment\<close>

definition ex_gate :: gate_env where
  "ex_gate =
     \<lparr>g_world = empty_world, g_policy = empty_policy, g_loader = files_loader ex_files,
      g_runtime = quiet, g_sys = None, g_exec_modules = [],
      g_globals = [(''x'', 5), (''__builtins__'', 6)], g_file = ''/pkg/__init__.py'',
      g_dict = (\<lambda>_ m. if m = 101 then [(''f'', 55)] else [])\<rparr>"

lemma ex_gate_ok: "loader_ok (g_loader ex_gate) (g_runtime ex_gate) empty_cache"
  using ex_loader_ok by (simp add: ex_gate_def)

lemma ex_gate_runs:
  "fst (st_import ex_gate ''main'' None empty_cache) = Inr (IProxy [(''x'', 5)])"
  "fst (st_importfrom ex_gate ''sub'' ''f'' 1 empty_cache) = Inr (IObj 55)"
  "relative_module (g_loader ex_gate) (g_file ex_gate) ''sub'' ''f'' 1 = ''pkg.sub''"
  "fst (st_dynimport ex_gate ''pkg.sub'' [] 0 empty_cache) = Inr (IObj 100)"
  by code_simp+

section \<open>Properties\<close>





text \<open>
  A computed \<open>__import__\<close> is decided like the statement: what it returns the
  import gate returned for the same name, or, after the gate refused the name, a
  workspace package that holds one of the names asked for; relative levels are refused.
\<close>

theorem dynimport_gated:
  assumes "st_dynimport g name fromlist level s = (Inr v, s')"
  shows "level = 0 \<and>
    ((\<exists>alias s1. st_import g name alias s = (Inr v, s1))
     \<or> (\<exists>e s1 s2 obj. st_import g name (Some name) s = (Inl e, s1) \<and> exc_caught_by (err_class e) ImportError
          \<and> dyn_package g name fromlist s1 = (Inr (Some obj), s2) \<and> v = IObj obj))"
proof (cases "level \<noteq> 0 \<or> fromlist = []")
  case True
  with assms show ?thesis by (auto simp: st_dynimport_def split: if_splits)
next
  case False
  obtain r s1 where r: "st_import g name (Some name) s = (r, s1)" by fastforce
  obtain q s2 where q: "dyn_package g name fromlist s1 = (q, s2)" by fastforce
  show ?thesis
  proof (cases r)
    case (Inr md)
    with assms False r have "v = md"
      by (cases "load_fromlist g name md fromlist s1") (auto simp: st_dynimport_def split: sum.splits)
    with Inr r False show ?thesis by blast
  next
    case (Inl e)
    with assms False r q obtain obj where "exc_caught_by (err_class e) ImportError" "q = Inr (Some obj)"
      by (cases "exc_caught_by (err_class e) ImportError"; cases q) (auto simp: st_dynimport_def split: option.splits)
    moreover from this have "v = IObj obj"
      using assms False r q Inl
      by (cases "load_fromlist g name (IObj obj) fromlist s2") (auto simp: st_dynimport_def split: sum.splits)
    ultimately show ?thesis using r q Inl False by blast
  qed
qed

theorem dynimport_gated_witness:
  "\<exists>alias s1. st_import ex_gate ''pkg.sub'' alias empty_cache = (Inr (IObj 100), s1)"
proof -
  obtain s' where "st_dynimport ex_gate ''pkg.sub'' [] 0 empty_cache = (Inr (IObj 100), s')"
    using ex_gate_runs(4) by (metis prod.collapse)
  from dynimport_gated [OF this] show ?thesis by auto
qed

text \<open>
  Relative imports go up from the caller's package: in a package whose dotted
  name has the parts \<open>segs\<close>, \<open>from ..(k dots above the first).m import x\<close> means the
  module \<open>m\<close> of the package \<open>k\<close> levels up, wherever the module root is.
\<close>

theorem relative_import_resolves:
  assumes "l_root L = [] \<or> last (l_root L) \<noteq> CHR ''/''"
    and "list_all seg_ok segs" "list_all seg_ok ms" "ms \<noteq> []" "k < length segs"
  shows "relative_module L (module_base L (join ''.'' segs) @ ''/__init__.py'') (join ''.'' ms) name (Suc k)
     = join ''.'' (take (length segs - k) segs @ ms)"
proof -
  have segs: "segs \<noteq> []" using assms(5) by auto
  have "replace_char CHR ''.'' ''/'' (join ''.'' segs) = join ''/'' segs"
    using assms(2) by (intro replace_char_join) (auto simp: list_all_iff seg_ok_def)
  then have path: "module_base L (join ''.'' segs) @ ''/__init__.py'' = dir_path (l_root L) segs @ ''/'' @ ''__init__.py''"
    using segs by (simp add: module_base_def dir_path_def concat_slashes)
  let ?segs = "take (length segs - k) segs"
  have "(dirname ^^ Suc k) (dir_path (l_root L) segs @ ''/'' @ ''__init__.py'') = dir_path (l_root L) ?segs"
    using dirname_up [OF assms(1,2,5), of "''__init__.py''"] by simp
  moreover have "list_all seg_ok ?segs" using assms(2) by (auto simp: list_all_iff dest: in_set_takeD)
  moreover have "join ''.'' ms \<noteq> []"
  proof -
    obtain x ys where "ms = x # ys" using assms(4) by (cases ms) auto
    with assms(3) show ?thesis by (cases ys) (auto simp: seg_ok_def)
  qed
  ultimately show ?thesis
    using relative_from_dir [OF assms(1) _ assms(3,4) refl, of ?segs]
    unfolding relative_module_def Let_def path by (simp only: if_True if_False simp_thms)
qed

theorem relative_import_witness:
  "relative_module (VFSLoader None ''/srv/app/'') ''/srv/app/pkg/sub/__init__.py'' ''util.text'' ''f'' 2
     = ''pkg.util.text''"
proof -
  have L: "l_root (VFSLoader None ''/srv/app/'') = ''/srv/app''"
    by (simp add: VFSLoader_def rstrip_def)
  have "relative_module (VFSLoader None ''/srv/app/'')
      (module_base (VFSLoader None ''/srv/app/'') (join ''.'' [''pkg'', ''sub'']) @ ''/__init__.py'')
      (join ''.'' [''util'', ''text'']) ''f'' (Suc 1) = join ''.'' (take (2 - 1) [''pkg'', ''sub''] @ [''util'', ''text''])"
    using relative_import_resolves [of "VFSLoader None ''/srv/app/''" "[''pkg'', ''sub'']" "[''util'', ''text'']" 1 "''f''"]
    by (simp add: L seg_ok_def)
  then show ?thesis by (simp add: module_base_def L replace_char_def numeral_2_eq_2)
qed

text \<open>
  The synthetic \<open>sys\<close> and the modules of the execution are looked up before the
  level is: \<open>from .tools import f\<close> inside a package answers from a module
  \<open>tools\<close> handed to the execution, not from the package's own.
\<close>

theorem relative_import_shadowed:
  "g_sys g \<noteq> None \<and> m = ''sys'' \<or> dget (g_exec_modules g) m \<noteq> None \<Longrightarrow>
   st_importfrom g m name level s = st_importfrom g m name 0 s"
  by (auto simp: st_importfrom_def)

end
