(* ===== verification/Portable.thy ===== *)
theory Portable
  imports Policy Errors
begin

text \<open>
  Sending a policy to a worker that was not forked from this process
  (\<open>sandtrap/policy.py\<close>, \<open>process/sandbox.py\<close>): what may cross, the check that says
  so beforehand, the pickled form with modules by name and without the indexes by
  identity, and rebuilding it in the receiving process. The theorems: a policy the
  check passes pickles and holds nothing live; and a policy that arrived decides
  as the one that was sent.
\<close>

section \<open>What carries state of this process\<close>

fun carries :: "nat \<Rightarrow> pyfun \<Rightarrow> string option" where
  "carries (Suc n) (FPartial f args kws) =
     (case filter (\<lambda>d. d \<noteq> None) (map (carries 16) (args @ kws)) of
        Some d # _ \<Rightarrow> Some (''a partial binding '' @ d)
      | _ \<Rightarrow> carries n f)"
| "carries 0 (FPartial f args kws) = Some ''a callable partial instance''"
| "carries n (FMethod owner_is_type owner) =
     (if owner_is_type then None else Some (''a method bound to a live '' @ owner @ '' instance''))"
| "carries n FPlain = None"
| "carries n (FCallable t) = Some (''a callable '' @ t @ '' instance'')"
| "carries n FValue = None"

definition carries_host_state :: "pyfun \<Rightarrow> string option" where
  "carries_host_state f = carries 16 f"

section \<open>The pickled form\<close>

text \<open>
  What \<open>pickle\<close> does with what a registration holds, on either side: an object
  is written as some bytes or refused, and bytes are read as an object of the
  receiving process or refused; \<open>up_import\<close> is \<open>importlib.import_module\<close> there.
\<close>

record pickler =
  pk_ref :: "oid \<Rightarrow> string res"
  pk_pred :: "(string \<Rightarrow> bool) \<Rightarrow> string res"

record unpickler =
  up_ref :: "string \<Rightarrow> oid res"
  up_pred :: "string \<Rightarrow> (string \<Rightarrow> bool) res"
  up_import :: "string \<Rightarrow> oid res"

datatype pk_pattern = PkNone | PkGlob string | PkPred string | PkPatterns "pk_pattern list"

definition rmap_values :: "('a \<Rightarrow> 'b res) \<Rightarrow> ('k, 'a) dict \<Rightarrow> ('k, 'b) dict res" where
  "rmap_values f = rmap (\<lambda>(k, v). rbind (f v) (\<lambda>v'. Inr (k, v')))"

fun dump_pattern :: "pickler \<Rightarrow> pattern \<Rightarrow> pk_pattern res" where
  "dump_pattern pk NoPattern = Inr PkNone"
| "dump_pattern pk (Glob p) = Inr (PkGlob p)"
| "dump_pattern pk (Pred f) = rbind (pk_pred pk f) (\<lambda>r. Inr (PkPred r))"
| "dump_pattern pk (Patterns ps) = rbind (rmap (dump_pattern pk) ps) (\<lambda>qs. Inr (PkPatterns qs))"

fun load_pattern :: "unpickler \<Rightarrow> pk_pattern \<Rightarrow> pattern res" where
  "load_pattern up PkNone = Inr NoPattern"
| "load_pattern up (PkGlob p) = Inr (Glob p)"
| "load_pattern up (PkPred r) = rbind (up_pred up r) (\<lambda>f. Inr (Pred f))"
| "load_pattern up (PkPatterns qs) = rbind (rmap (load_pattern up) qs) (\<lambda>ps. Inr (Patterns ps))"

text \<open>A registration in transit: its object as bytes or as a module's name, its filters, and its other fields.\<close>

record 'r transit =
  tr_object :: string
  tr_include :: pk_pattern
  tr_exclude :: pk_pattern
  tr_rest :: 'r

definition live_grant :: "string \<Rightarrow> pyerr" where
  "live_grant name = Exc PicklingError (''grant '' @ name @ '' registers a live object, which cannot cross to a worker'')"

text \<open>\<open>_FnRegistration.__getstate__\<close>.\<close>

definition fn_getstate :: "pyworld \<Rightarrow> pickler \<Rightarrow> fn_registration \<Rightarrow> (string \<times> fn_registration) res" where
  "fn_getstate w pk r =
     (case carries_host_state (fun_shape w (fr_func r)) of
        Some d \<Rightarrow> Inl (live_grant (fr_name r))
      | None \<Rightarrow> rbind (pk_ref pk (fr_func r)) (\<lambda>b. Inr (b, r)))"

definition fn_setstate :: "unpickler \<Rightarrow> string \<times> fn_registration \<Rightarrow> fn_registration res" where
  "fn_setstate up s = rbind (up_ref up (fst s)) (\<lambda>f. Inr ((snd s)\<lparr>fr_func := f\<rparr>))"

text \<open>\<open>_ReconstructsPredicates\<close>: the compiled predicates stay behind and are compiled again from the patterns.\<close>

definition cls_getstate :: "pickler \<Rightarrow> cls_registration \<Rightarrow> cls_registration transit res" where
  "cls_getstate pk r =
     rbind (pk_ref pk (cr_cls r)) (\<lambda>b.
       rbind (dump_pattern pk (cr_include r)) (\<lambda>i.
         rbind (dump_pattern pk (cr_exclude r)) (\<lambda>x.
           Inr \<lparr>tr_object = b, tr_include = i, tr_exclude = x, tr_rest = r\<rparr>)))"

definition cls_setstate :: "unpickler \<Rightarrow> cls_registration transit \<Rightarrow> cls_registration res" where
  "cls_setstate up s =
     rbind (up_ref up (tr_object s)) (\<lambda>c.
       rbind (load_pattern up (tr_include s)) (\<lambda>i.
         rbind (load_pattern up (tr_exclude s)) (\<lambda>x.
           Inr ((tr_rest s)\<lparr>cr_cls := c, cr_include := i, cr_exclude := x\<rparr>))))"

text \<open>\<open>_ModuleRegistration\<close>: a module crosses by name and is imported again; anything else is refused.\<close>

definition module_getstate :: "pyworld \<Rightarrow> pickler \<Rightarrow> module_registration \<Rightarrow> module_registration transit res" where
  "module_getstate w pk r =
     (if is_module w (mr_obj r)
      then (case obj_name w (mr_obj r) of
              None \<Rightarrow> Inl (Exc AttributeError ''__name__'')
            | Some n \<Rightarrow>
                rbind (dump_pattern pk (mr_include r)) (\<lambda>i.
                  rbind (dump_pattern pk (mr_exclude r)) (\<lambda>x.
                    Inr \<lparr>tr_object = n, tr_include = i, tr_exclude = x, tr_rest = r\<rparr>)))
      else Inl (live_grant (mr_name r)))"

definition module_setstate :: "unpickler \<Rightarrow> module_registration transit \<Rightarrow> module_registration res" where
  "module_setstate up s =
     rbind (load_pattern up (tr_include s)) (\<lambda>i.
       rbind (load_pattern up (tr_exclude s)) (\<lambda>x.
         case up_import up (tr_object s) of
           Inr m \<Rightarrow> Inr ((tr_rest s)\<lparr>mr_obj := m, mr_include := i, mr_exclude := x\<rparr>)
         | Inl e \<Rightarrow>
             if exc_caught_by (err_class e) Exception
             then Inl (Exc ImportError (''policy module grant '' @ tr_object s @
                    '' could not be re-imported in this process: '' @ err_msg e))
             else Inl e))"

text \<open>A policy in transit: its plain fields as they are, without the two indexes.\<close>

record pk_policy =
  pp_functions :: "(string, string \<times> fn_registration) dict"
  pp_classes :: "(string, cls_registration transit) dict"
  pp_modules :: "(string, module_registration transit) dict"
  pp_policy :: policy

definition policy_getstate :: "pyworld \<Rightarrow> pickler \<Rightarrow> policy \<Rightarrow> pk_policy res" where
  "policy_getstate w pk pol =
     rbind (rmap_values (fn_getstate w pk) (pol_functions pol)) (\<lambda>fs.
       rbind (rmap_values (cls_getstate pk) (pol_classes pol)) (\<lambda>cs.
         rbind (rmap_values (module_getstate w pk) (pol_modules pol)) (\<lambda>ms.
           Inr \<lparr>pp_functions = fs, pp_classes = cs, pp_modules = ms,
                pp_policy = pol\<lparr>pol_functions := [], pol_classes := [], pol_modules := [],
                                reg_by_cls_id := [], reg_by_module_id := []\<rparr>\<rparr>)))"

definition cls_index :: "(string, cls_registration) dict \<Rightarrow> (oid, cls_registration) dict" where
  "cls_index d = fold (\<lambda>(k, r). dset (cr_cls r) r) d []"

definition module_index :: "(string, module_registration) dict \<Rightarrow> (oid, module_registration) dict" where
  "module_index d = fold (\<lambda>(k, r). dset (mr_obj r) r) d []"

definition policy_setstate :: "unpickler \<Rightarrow> pk_policy \<Rightarrow> policy res" where
  "policy_setstate up s =
     rbind (rmap_values (fn_setstate up) (pp_functions s)) (\<lambda>fs.
       rbind (rmap_values (cls_setstate up) (pp_classes s)) (\<lambda>cs.
         rbind (rmap_values (module_setstate up) (pp_modules s)) (\<lambda>ms.
           Inr ((pp_policy s)\<lparr>pol_functions := fs, pol_classes := cs, pol_modules := ms,
                 reg_by_cls_id := cls_index cs, reg_by_module_id := module_index ms\<rparr>))))"

section \<open>The check beforehand\<close>

text \<open>A problem: its kind, the registration, and what its detail says that is not fixed by the kind.\<close>

record policy_problem =
  pr_kind :: string
  pr_name :: string
  pr_detail :: string

definition problem :: "string \<Rightarrow> string \<Rightarrow> string \<Rightarrow> policy_problem" where
  "problem kind name detail = \<lparr>pr_kind = kind, pr_name = name, pr_detail = detail\<rparr>"

definition is_importable :: "pyworld \<Rightarrow> string \<Rightarrow> bool res" where
  "is_importable w name =
     rcatch (find_spec w name)
       (\<lambda>c. exc_caught_by c ImportError \<or> exc_caught_by c ValueError \<or> exc_caught_by c AttributeError
          \<or> exc_caught_by c TypeError)
       (\<lambda>_. Inr False)"

fun is_predicate :: "pattern \<Rightarrow> bool" where
  "is_predicate (Pred f) = True"
| "is_predicate _ = False"

definition filter_problems :: "string \<Rightarrow> pattern \<Rightarrow> pattern \<Rightarrow> policy_problem list" where
  "filter_problems name inc exc =
     (if is_predicate inc then [problem ''callable filter'' name ''include''] else []) @
     (if is_predicate exc then [problem ''callable filter'' name ''exclude''] else [])"

definition residual_problem :: "string \<Rightarrow> 'a res \<Rightarrow> policy_problem list res" where
  "residual_problem name dumped =
     (case dumped of
        Inr _ \<Rightarrow> Inr []
      | Inl e \<Rightarrow>
          if exc_caught_by (err_class e) Exception then Inr [problem ''unpicklable'' name (err_msg e)] else Inl e)"

definition check_module :: "pyworld \<Rightarrow> pickler \<Rightarrow> string \<times> module_registration \<Rightarrow> policy_problem list res" where
  "check_module w pk kr =
     (case kr of (name, r) \<Rightarrow>
        if \<not> is_module w (mr_obj r)
        then Inr [problem ''live-object grant'' name (type_name w (type_of w (mr_obj r)))]
        else
          (let real_name = (case obj_name w (mr_obj r) of Some n \<Rightarrow> n | None \<Rightarrow> name) in
           rbind (is_importable w real_name) (\<lambda>ok.
             if \<not> ok then Inr [problem ''unimportable module'' name real_name]
             else
               (let named = filter_problems name (mr_include r) (mr_exclude r) in
                if named \<noteq> [] then Inr named else residual_problem name (module_getstate w pk r)))))"

definition check_class :: "pickler \<Rightarrow> string \<times> cls_registration \<Rightarrow> policy_problem list res" where
  "check_class pk kr =
     (case kr of (name, r) \<Rightarrow>
        (let named = filter_problems name (cr_include r) (cr_exclude r) in
         if named \<noteq> [] then Inr named else residual_problem name (cls_getstate pk r)))"

definition check_function :: "pyworld \<Rightarrow> pickler \<Rightarrow> string \<times> fn_registration \<Rightarrow> policy_problem list res" where
  "check_function w pk kr =
     (case kr of (name, r) \<Rightarrow>
        (case carries_host_state (fun_shape w (fr_func r)) of
           Some d \<Rightarrow> Inr [problem ''live callable'' name d]
         | None \<Rightarrow> residual_problem name (fn_getstate w pk r)))"

definition check_picklable :: "pyworld \<Rightarrow> pickler \<Rightarrow> policy \<Rightarrow> policy_problem list res" where
  "check_picklable w pk pol =
     rbind (rmap (check_module w pk) (pol_modules pol)) (\<lambda>ms.
       rbind (rmap (check_class pk) (pol_classes pol)) (\<lambda>cs.
         rbind (rmap (check_function w pk) (pol_functions pol)) (\<lambda>fs.
           Inr (concat ms @ concat cs @ concat fs))))"

definition problem_line :: "policy_problem \<Rightarrow> string" where
  "problem_line p = pr_name p @ '' ('' @ pr_kind p @ ''): '' @ pr_detail p"

definition require_portable_policy :: "pyworld \<Rightarrow> pickler \<Rightarrow> policy \<Rightarrow> string \<Rightarrow> unit res" where
  "require_portable_policy w pk pol start_method =
     rbind (check_picklable w pk pol) (\<lambda>ps.
       if ps = [] then Inr ()
       else Inl (Exc StPolicyNotPortable
              (''This policy cannot be sent to a worker started with '' @ start_method @ '': '' @
               join '', '' (map problem_line ps))))"

section \<open>Laws of sending things one by one\<close>

lemma rmap_values_succeeds:
  assumes "\<And>k v. (k, v) \<in> set d \<Longrightarrow> \<exists>v'. f v = Inr v'"
  shows "\<exists>d'. rmap_values f d = Inr d'"
  unfolding rmap_values_def using assms by (intro rmap_succeeds) (fastforce simp: rbind_eq_Inr_iff)

definition map_values :: "('a \<Rightarrow> 'b) \<Rightarrow> ('k, 'a) dict \<Rightarrow> ('k, 'b) dict" where
  "map_values h d = map (\<lambda>(k, v). (k, h v)) d"

lemma map_values_simps [simp]:
  "map_values h [] = []" "map_values h ((k, v) # d) = (k, h v) # map_values h d"
  by (simp_all add: map_values_def)

lemma set_map_values: "set (map_values h d) = (\<lambda>(k, v). (k, h v)) ` set d"
  by (simp add: map_values_def)

lemma dget_map_values: "dget (map_values h d) k = map_option h (dget d k)"
  by (induction d) auto

text \<open>What arrives after a round trip is what a function makes of what was sent, when that is so of each entry.\<close>

lemma rmap_round_trip:
  assumes "rmap f xs = Inr ys" "rmap g ys = Inr zs"
    and "\<And>x y z. x \<in> set xs \<Longrightarrow> f x = Inr y \<Longrightarrow> g y = Inr z \<Longrightarrow> z = h x"
  shows "zs = map h xs"
  using assms
proof (induction xs arbitrary: ys zs)
  case (Cons x xs)
  from Cons.prems(1) obtain y ys' where y: "f x = Inr y" "rmap f xs = Inr ys'" "ys = y # ys'"
    by (auto simp: rbind_eq_Inr_iff)
  with Cons.prems(2) obtain z zs' where z: "g y = Inr z" "rmap g ys' = Inr zs'" "zs = z # zs'"
    by (auto simp: rbind_eq_Inr_iff)
  from Cons.IH [OF y(2) z(2)] Cons.prems(3) have "zs' = map h xs" by auto
  with z(3) Cons.prems(3) [of x y z] y z show ?case by simp
qed simp

lemma rmap_values_round_trip:
  assumes "rmap_values f d = Inr e" "rmap_values g e = Inr d'"
    and "\<And>v y z. f v = Inr y \<Longrightarrow> g y = Inr z \<Longrightarrow> z = h v"
  shows "d' = map_values h d"
  using assms(1,2) unfolding rmap_values_def map_values_def
  by (rule rmap_round_trip) (auto simp: rbind_eq_Inr_iff intro: assms(3))

section \<open>The check is sound\<close>

lemma residual_none: "residual_problem name dumped = Inr [] \<longleftrightarrow> (\<exists>y. dumped = Inr y)"
  by (auto simp: residual_problem_def split: sum.splits if_splits)

lemma check_module_none:
  assumes "check_module w pk (name, r) = Inr []"
  shows "is_module w (mr_obj r) \<and> (\<exists>s. module_getstate w pk r = Inr s)
    \<and> (\<forall>n. obj_name w (mr_obj r) = Some n \<longrightarrow> find_spec w n = Inr True)"
proof -
  let ?n = "case obj_name w (mr_obj r) of Some n \<Rightarrow> n | None \<Rightarrow> name"
  from assms have m: "is_module w (mr_obj r)" and "is_importable w ?n = Inr True"
    and res: "residual_problem name (module_getstate w pk r) = Inr []"
    by (auto simp: check_module_def Let_def rbind_eq_Inr_iff split: if_splits)
  then have "find_spec w ?n = Inr True"
    by (auto simp: is_importable_def rcatch_def split: sum.splits if_splits)
  with m res show ?thesis by (auto simp: residual_none)
qed

lemma check_class_none: "check_class pk (name, r) = Inr [] \<Longrightarrow> \<exists>s. cls_getstate pk r = Inr s"
  by (auto simp: check_class_def Let_def residual_none split: if_splits)

lemma check_function_none:
  "check_function w pk (name, r) = Inr [] \<Longrightarrow>
     carries_host_state (fun_shape w (fr_func r)) = None \<and> (\<exists>s. fn_getstate w pk r = Inr s)"
  by (auto simp: check_function_def residual_none split: option.splits)

lemma rmap_concat_Nil:
  assumes "rmap f xs = Inr ps" "concat ps = []" "x \<in> set xs"
  shows "f x = Inr []"
proof -
  from assms(3) obtain i where i: "i < length xs" "x = xs ! i" by (auto simp: in_set_conv_nth)
  with assms(1) have "f x = Inr (ps ! i)" "ps ! i \<in> set ps"
    by (auto simp: rmap_Inr_iff list_all2_conv_all_nth)
  with assms(2) show ?thesis by auto
qed

lemma check_picklable_parts:
  assumes "check_picklable w pk pol = Inr []"
  shows "(\<forall>kr \<in> set (pol_modules pol). check_module w pk kr = Inr [])
    \<and> (\<forall>kr \<in> set (pol_classes pol). check_class pk kr = Inr [])
    \<and> (\<forall>kr \<in> set (pol_functions pol). check_function w pk kr = Inr [])"
  using assms unfolding check_picklable_def
  by (auto simp: rbind_eq_Inr_iff simp del: concat_eq_Nil_conv split_paired_All elim!: rmap_concat_Nil)

text \<open>A policy in transit holds nothing that lives in the sending process.\<close>

lemma getstate_nothing_live:
  assumes "policy_getstate w pk pol = Inr st"
  shows "(\<forall>(k, r) \<in> set (pol_functions pol). carries_host_state (fun_shape w (fr_func r)) = None)
    \<and> (\<forall>(k, r) \<in> set (pol_modules pol). is_module w (mr_obj r))"
proof -
  from assms obtain fs ms where
    f: "rmap_values (fn_getstate w pk) (pol_functions pol) = Inr fs" and
    m: "rmap_values (module_getstate w pk) (pol_modules pol) = Inr ms"
    by (auto simp: policy_getstate_def rbind_eq_Inr_iff)
  have "\<exists>s. fn_getstate w pk r = Inr s" if "(k, r) \<in> set (pol_functions pol)" for k r
    using f that unfolding rmap_values_def
    by (fastforce simp: rmap_Inr_iff list_all2_conv_all_nth in_set_conv_nth rbind_eq_Inr_iff)
  moreover have "\<exists>s. module_getstate w pk r = Inr s" if "(k, r) \<in> set (pol_modules pol)" for k r
    using m that unfolding rmap_values_def
    by (fastforce simp: rmap_Inr_iff list_all2_conv_all_nth in_set_conv_nth rbind_eq_Inr_iff)
  ultimately show ?thesis
    by (fastforce simp: fn_getstate_def module_getstate_def split: option.splits if_splits)
qed

lemma checked_policy_pickles:
  assumes "check_picklable w pk pol = Inr []"
  shows "\<exists>st. policy_getstate w pk pol = Inr st"
proof -
  note parts = check_picklable_parts [OF assms]
  have "\<exists>fs. rmap_values (fn_getstate w pk) (pol_functions pol) = Inr fs"
    by (rule rmap_values_succeeds) (use parts check_function_none in blast)
  moreover have "\<exists>cs. rmap_values (cls_getstate pk) (pol_classes pol) = Inr cs"
    by (rule rmap_values_succeeds) (use parts check_class_none in blast)
  moreover have "\<exists>ms. rmap_values (module_getstate w pk) (pol_modules pol) = Inr ms"
    by (rule rmap_values_succeeds) (use parts check_module_none in blast)
  ultimately show ?thesis by (auto simp: policy_getstate_def)
qed

section \<open>What is live\<close>

text \<open>Reference: an instance-bound method or a callable instance anywhere in a callable, however it is bound.\<close>

fun holds_live :: "pyfun \<Rightarrow> bool" where
  "holds_live (FPartial f args kws) = (holds_live f \<or> list_ex holds_live args \<or> list_ex holds_live kws)"
| "holds_live (FMethod owner_is_type owner) = (\<not> owner_is_type)"
| "holds_live (FCallable t) = True"
| "holds_live FPlain = False"
| "holds_live FValue = False"

text \<open>Partials nested directly in each other no deeper than \<open>n\<close>, and 16 in every bound argument.\<close>

fun nested_within :: "nat \<Rightarrow> pyfun \<Rightarrow> bool" where
  "nested_within (Suc n) (FPartial f args kws) =
     (nested_within n f \<and> list_all (nested_within 16) args \<and> list_all (nested_within 16) kws)"
| "nested_within 0 (FPartial f args kws) = False"
| "nested_within n (FMethod b t) = True"
| "nested_within n (FCallable t) = True"
| "nested_within n FPlain = True"
| "nested_within n FValue = True"

lemma carries_iff_live: "nested_within n f \<Longrightarrow> carries n f = None \<longleftrightarrow> \<not> holds_live f"
proof (induction n f rule: carries.induct)
  case (1 n f args kws)
  let ?ds = "filter (\<lambda>d. d \<noteq> None) (map (carries 16) (args @ kws))"
  have args: "carries 16 a = None \<longleftrightarrow> \<not> holds_live a" if "a \<in> set (args @ kws)" for a
    using 1 that by (auto simp: list_all_iff)
  show ?case
  proof (cases ?ds)
    case Nil
    then have none: "\<forall>a \<in> set (args @ kws). carries 16 a = None" by (auto simp: filter_empty_conv)
    then have "carries (Suc n) (FPartial f args kws) = carries n f" by simp
    moreover have "carries n f = None \<longleftrightarrow> \<not> holds_live f" using 1 Nil by auto
    ultimately show ?thesis using none args by (auto simp: list_ex_iff)
  next
    case (Cons d ds)
    then have "d \<in> set ?ds" by simp
    then obtain a s where "a \<in> set (args @ kws)" "carries 16 a = Some s" "d = Some s" by auto
    with args [of a] Cons show ?thesis by (auto simp: list_ex_iff)
  qed
qed auto

section \<open>The receiving process\<close>

text \<open>
  The receiving process holds a counterpart of each object that crosses:
  \<open>\<phi>\<close> sends an object to its counterpart, which looks as the original does.
\<close>

definition same_world :: "(oid \<Rightarrow> oid) \<Rightarrow> pyworld \<Rightarrow> pyworld \<Rightarrow> bool" where
  "same_world \<phi> w w' \<longleftrightarrow>
     inj \<phi> \<and> \<phi> py_None = py_None \<and> \<phi> (object_cls w) = object_cls w'
     \<and> (\<forall>x. type_of w' (\<phi> x) = \<phi> (type_of w x)) \<and> (\<forall>x. is_module w' (\<phi> x) = is_module w x)
     \<and> (\<forall>x. is_type w' (\<phi> x) = is_type w x) \<and> (\<forall>x. is_super w' (\<phi> x) = is_super w x)
     \<and> (\<forall>x. self_class w' (\<phi> x) = map_option \<phi> (self_class w x))
     \<and> (\<forall>x. this_class w' (\<phi> x) = map_option \<phi> (this_class w x))
     \<and> (\<forall>x. mro w' (\<phi> x) = map \<phi> (mro w x)) \<and> (\<forall>x. obj_name w' (\<phi> x) = obj_name w x)
     \<and> (\<forall>x. cls_module w' (\<phi> x) = cls_module w x)
     \<and> (\<forall>x a. get_attr w' (\<phi> x) a = map_sum id \<phi> (get_attr w x a))"

text \<open>
  What pickling is documented to do: what crosses by reference is found again as
  its counterpart, and a module imported there under the name a module has here is
  its counterpart.
\<close>

definition faithful :: "(oid \<Rightarrow> oid) \<Rightarrow> pyworld \<Rightarrow> pickler \<Rightarrow> unpickler \<Rightarrow> bool" where
  "faithful \<phi> w pk up \<longleftrightarrow>
     (\<forall>x b y. pk_ref pk x = Inr b \<longrightarrow> up_ref up b = Inr y \<longrightarrow> y = \<phi> x)
     \<and> (\<forall>f b g. pk_pred pk f = Inr b \<longrightarrow> up_pred up b = Inr g \<longrightarrow> g = f)
     \<and> (\<forall>x n y. is_module w x \<longrightarrow> obj_name w x = Some n \<longrightarrow> up_import up n = Inr y \<longrightarrow> y = \<phi> x)"

definition move_cls :: "(oid \<Rightarrow> oid) \<Rightarrow> cls_registration \<Rightarrow> cls_registration" where
  "move_cls \<phi> r = r\<lparr>cr_cls := \<phi> (cr_cls r)\<rparr>"

definition move_module :: "(oid \<Rightarrow> oid) \<Rightarrow> module_registration \<Rightarrow> module_registration" where
  "move_module \<phi> r = r\<lparr>mr_obj := \<phi> (mr_obj r)\<rparr>"

fun move_reg :: "(oid \<Rightarrow> oid) \<Rightarrow> registration \<Rightarrow> registration" where
  "move_reg \<phi> (CReg r) = CReg (move_cls \<phi> r)"
| "move_reg \<phi> (MReg r) = MReg (move_module \<phi> r)"

text \<open>The indexes of a policy agree with its registrations: none was replaced under its name.\<close>

definition indexes_current :: "policy \<Rightarrow> bool" where
  "indexes_current pol \<longleftrightarrow>
     (\<forall>c. dget (reg_by_cls_id pol) c = dget (cls_index (pol_classes pol)) c)
     \<and> (\<forall>c. dget (reg_by_module_id pol) c = dget (module_index (pol_modules pol)) c)"

definition moved :: "(oid \<Rightarrow> oid) \<Rightarrow> policy \<Rightarrow> policy \<Rightarrow> bool" where
  "moved \<phi> pol pol' \<longleftrightarrow>
     pol_functions pol' = map_values (\<lambda>r. r\<lparr>fr_func := \<phi> (fr_func r)\<rparr>) (pol_functions pol)
     \<and> pol_classes pol' = map_values (move_cls \<phi>) (pol_classes pol)
     \<and> pol_modules pol' = map_values (move_module \<phi>) (pol_modules pol)
     \<and> (\<forall>c. dget (reg_by_cls_id pol') (\<phi> c) = map_option (move_cls \<phi>) (dget (reg_by_cls_id pol) c))
     \<and> (\<forall>c. dget (reg_by_module_id pol') (\<phi> c) = map_option (move_module \<phi>) (dget (reg_by_module_id pol) c))
     \<and> allow_network pol' = allow_network pol \<and> tick_limit pol' = tick_limit pol \<and> timeout pol' = timeout pol
     \<and> memory_limit pol' = memory_limit pol \<and> max_stdout pol' = max_stdout pol
     \<and> stdout_keep pol' = stdout_keep pol \<and> module_root pol' = module_root pol"

lemma pattern_round_trip:
  assumes "faithful \<phi> w pk up"
  shows "dump_pattern pk p = Inr q \<Longrightarrow> load_pattern up q = Inr p' \<Longrightarrow> p' = p"
proof (induction p arbitrary: q p')
  case (Pred f)
  then show ?case using assms unfolding faithful_def by (auto simp: rbind_eq_Inr_iff)
next
  case (Patterns ps)
  from Patterns.prems obtain qs ps' where t: "rmap (dump_pattern pk) ps = Inr qs"
    "rmap (load_pattern up) qs = Inr ps'" "p' = Patterns ps'"
    by (auto simp: rbind_eq_Inr_iff)
  have "ps' = map (\<lambda>p. p) ps" by (rule rmap_round_trip [OF t(1,2)]) (rule Patterns.IH)
  with t(3) show ?case by simp
qed auto

lemma index_moves:
  assumes "inj \<phi>" "\<And>r. key (mv r) = \<phi> (key r)"
    and "\<forall>c. dget acc' (\<phi> c) = map_option mv (dget acc c)"
  shows "dget (fold (\<lambda>(k, r). dset (key r) r) (map_values mv d) acc') (\<phi> c)
    = map_option mv (dget (fold (\<lambda>(k, r). dset (key r) r) d acc) c)"
  using assms(3)
proof (induction d arbitrary: acc acc')
  case (Cons kr d)
  obtain k r where kr: "kr = (k, r)" by fastforce
  have "\<forall>c. dget (dset (key (mv r)) (mv r) acc') (\<phi> c) = map_option mv (dget (dset (key r) r acc) c)"
    using Cons.prems assms(1,2) by (auto simp: inj_eq)
  from Cons.IH [OF this] show ?case by (simp add: kr)
qed simp

lemma transported_moved:
  assumes "faithful \<phi> w pk up" "inj \<phi>" "indexes_current pol"
    and "policy_getstate w pk pol = Inr st" "policy_setstate up st = Inr pol'"
  shows "moved \<phi> pol pol'"
proof -
  note pat = pattern_round_trip [OF assms(1)]
  from assms(4,5) obtain fs cs ms fs' cs' ms' where
    dump: "rmap_values (fn_getstate w pk) (pol_functions pol) = Inr fs"
      "rmap_values (cls_getstate pk) (pol_classes pol) = Inr cs"
      "rmap_values (module_getstate w pk) (pol_modules pol) = Inr ms" and
    load: "rmap_values (fn_setstate up) fs = Inr fs'" "rmap_values (cls_setstate up) cs = Inr cs'"
      "rmap_values (module_setstate up) ms = Inr ms'" and
    pol': "pol' = pol\<lparr>pol_functions := fs', pol_classes := cs', pol_modules := ms',
       reg_by_cls_id := cls_index cs', reg_by_module_id := module_index ms'\<rparr>"
    by (auto simp: policy_getstate_def policy_setstate_def rbind_eq_Inr_iff)
  have fs': "fs' = map_values (\<lambda>r. r\<lparr>fr_func := \<phi> (fr_func r)\<rparr>) (pol_functions pol)"
    by (rule rmap_values_round_trip [OF dump(1) load(1)])
      (use assms(1) in \<open>auto simp: fn_getstate_def fn_setstate_def rbind_eq_Inr_iff faithful_def split: option.splits\<close>)
  have cs': "cs' = map_values (move_cls \<phi>) (pol_classes pol)"
  proof (rule rmap_values_round_trip [OF dump(2) load(2)])
    fix r s z assume "cls_getstate pk r = Inr s" "cls_setstate up s = Inr z"
    then obtain b i x c i' x' where p: "pk_ref pk (cr_cls r) = Inr b" "up_ref up b = Inr c"
      "dump_pattern pk (cr_include r) = Inr i" "load_pattern up i = Inr i'"
      "dump_pattern pk (cr_exclude r) = Inr x" "load_pattern up x = Inr x'"
      "z = r\<lparr>cr_cls := c, cr_include := i', cr_exclude := x'\<rparr>"
      by (auto simp: cls_getstate_def cls_setstate_def rbind_eq_Inr_iff)
    moreover have "c = \<phi> (cr_cls r)" using assms(1) p(1,2) unfolding faithful_def by blast
    ultimately show "z = move_cls \<phi> r" using pat [OF p(3,4)] pat [OF p(5,6)] by (simp add: move_cls_def)
  qed
  have ms': "ms' = map_values (move_module \<phi>) (pol_modules pol)"
  proof (rule rmap_values_round_trip [OF dump(3) load(3)])
    fix r s z assume "module_getstate w pk r = Inr s" "module_setstate up s = Inr z"
    then obtain n i x m i' x' where p: "is_module w (mr_obj r)" "obj_name w (mr_obj r) = Some n"
      "up_import up n = Inr m" "dump_pattern pk (mr_include r) = Inr i" "load_pattern up i = Inr i'"
      "dump_pattern pk (mr_exclude r) = Inr x" "load_pattern up x = Inr x'"
      "z = r\<lparr>mr_obj := m, mr_include := i', mr_exclude := x'\<rparr>"
      by (auto simp: module_getstate_def module_setstate_def rbind_eq_Inr_iff
          split: if_splits option.splits sum.splits)
    moreover have "m = \<phi> (mr_obj r)" using assms(1) p(1-3) unfolding faithful_def by blast
    ultimately show "z = move_module \<phi> r" using pat [OF p(4,5)] pat [OF p(6,7)] by (simp add: move_module_def)
  qed
  have "dget (cls_index cs') (\<phi> c) = map_option (move_cls \<phi>) (dget (cls_index (pol_classes pol)) c)" for c
    unfolding cls_index_def cs' by (rule index_moves [OF assms(2)]) (simp_all add: move_cls_def)
  moreover have "dget (module_index ms') (\<phi> c) = map_option (move_module \<phi>) (dget (module_index (pol_modules pol)) c)" for c
    unfolding module_index_def ms' by (rule index_moves [OF assms(2)]) (simp_all add: move_module_def)
  ultimately show ?thesis
    using assms(3) by (simp add: moved_def indexes_current_def pol' fs' cs' ms')
qed

section \<open>A moved policy decides as the original\<close>

lemma move_reg_simps [simp]:
  "reg_include (move_reg \<phi> r) = reg_include r" "reg_exclude (move_reg \<phi> r) = reg_exclude r"
  "reg_configure (move_reg \<phi> r) = reg_configure r" "reg_recursive (move_reg \<phi> r) = reg_recursive r"
  by (cases r; simp add: move_cls_def move_module_def)+

lemma move_reg_filters [simp]:
  "included (move_reg \<phi> r) = included r" "excluded (move_reg \<phi> r) = excluded r"
  "exclude_pred (move_reg \<phi> r) = exclude_pred r" "exclude_qual_pred (move_reg \<phi> r) = exclude_qual_pred r"
  by (simp_all add: fun_eq_iff included_def excluded_def include_pred_def exclude_pred_def include_qual_pred_def
      exclude_qual_pred_def)

lemma first_registered_moves:
  "first_registered (map_values (move_module \<phi>) d) ns = map_option (move_module \<phi>) (first_registered d ns)"
  by (induction ns) (auto simp: dget_map_values split: option.splits)

lemma first_recursive_cover_moves:
  "first_recursive_cover m (map_values (move_module \<phi>) d)
   = map_option (move_module \<phi>) (first_recursive_cover m d)"
  by (induction d) (auto simp: move_module_def)

lemma first_cls_reg_moves:
  assumes "inj \<phi>" "\<forall>c. dget d' (\<phi> c) = map_option (move_cls \<phi>) (dget d c)"
  shows "first_cls_reg d' (map \<phi> cs) = map_option (move_cls \<phi>) (first_cls_reg d cs)"
  using assms by (induction cs) (auto simp: move_cls_def inj_eq split: option.splits)

lemma index_of_moves: "inj \<phi> \<Longrightarrow> index_of (\<phi> x) (map \<phi> xs) = index_of x xs"
  by (auto simp: index_of_def takeWhile_map comp_def inj_eq)

lemma moved_lookups:
  assumes "moved \<phi> pol pol'"
  shows "dget (reg_by_cls_id pol') (\<phi> c) = map_option (move_cls \<phi>) (dget (reg_by_cls_id pol) c)"
    "dget (reg_by_module_id pol') (\<phi> c) = map_option (move_module \<phi>) (dget (reg_by_module_id pol) c)"
    "pol_modules pol' = map_values (move_module \<phi>) (pol_modules pol)"
    "pol_classes pol' = map_values (move_cls \<phi>) (pol_classes pol)"
    "pol_functions pol' = map_values (\<lambda>r. r\<lparr>fr_func := \<phi> (fr_func r)\<rparr>) (pol_functions pol)"
    "allow_network pol' = allow_network pol"
  using assms by (auto simp: moved_def)

lemma same_world_views:
  assumes "same_world \<phi> w w'"
  shows "inj \<phi>" "\<phi> py_None = py_None" "object_cls w' = \<phi> (object_cls w)"
    "type_of w' (\<phi> x) = \<phi> (type_of w x)" "is_module w' (\<phi> x) = is_module w x" "is_type w' (\<phi> x) = is_type w x"
    "is_super w' (\<phi> x) = is_super w x" "self_class w' (\<phi> x) = map_option \<phi> (self_class w x)"
    "this_class w' (\<phi> x) = map_option \<phi> (this_class w x)" "mro w' (\<phi> x) = map \<phi> (mro w x)"
    "obj_name w' (\<phi> x) = obj_name w x" "cls_module w' (\<phi> x) = cls_module w x"
    "get_attr w' (\<phi> x) a = map_sum id \<phi> (get_attr w x a)"
  using assms by (auto simp: same_world_def)

lemma find_registration_moves:
  assumes sw: "same_world \<phi> w w'" and mv: "moved \<phi> pol pol'"
  shows "find_registration_for w' pol' (\<phi> x) = map_option (move_reg \<phi>) (find_registration_for w pol x)"
proof -
  note v = same_world_views [OF sw] and l = moved_lookups [OF mv]
  have inj_iff: "\<phi> a = \<phi> b \<longleftrightarrow> a = b" for a b using v(1) by (simp add: inj_eq)
  have sup: "find_super_registration w' pol' (\<phi> x) = map_option (move_reg \<phi>) (find_super_registration w pol x)"
    using first_cls_reg_moves [OF v(1), of "reg_by_cls_id pol'" "reg_by_cls_id pol"] l(1)
    by (auto simp: find_super_registration_def v index_of_moves [OF v(1)] Let_def option.map_comp comp_def
        drop_map split: option.splits)
  have own: "find_module_registration w' pol' (\<phi> x) = map_option (move_module \<phi>) (find_module_registration w pol x)"
    by (auto simp: find_module_registration_def l inj_iff move_module_def split: option.splits)
  have par: "find_parent_registration w' pol' (\<phi> x) = map_option (move_module \<phi>) (find_parent_registration w pol x)"
    by (simp add: find_parent_registration_def v l first_registered_moves)
  have cls: "find_class_registration w' pol' (\<phi> x) = map_option (move_reg \<phi>) (find_class_registration w pol x)"
    by (auto simp: find_class_registration_def v l inj_iff move_cls_def Let_def split: option.splits)
  have ocls: "find_own_class_registration w' pol' (\<phi> x) = map_option (move_reg \<phi>) (find_own_class_registration w pol x)"
    by (auto simp: find_own_class_registration_def v l inj_iff move_cls_def split: option.splits)
  have cov: "find_covering_registration w' pol' (\<phi> x) = map_option (move_reg \<phi>) (find_covering_registration w pol x)"
    by (auto simp: find_covering_registration_def v l first_recursive_cover_moves option.map_comp comp_def
        split: option.splits)
  have "\<phi> x = py_None \<longleftrightarrow> x = py_None" using inj_iff [of x py_None] v(2) by simp
  then show ?thesis
    by (auto simp: find_registration_for_def v(7) sup own par cls ocls cov move_module_def split: option.splits)
qed

lemma qualified_names_move:
  assumes "same_world \<phi> w w'"
  shows "qualified_names w' (\<phi> x) attr = qualified_names w x attr"
proof -
  note v = same_world_views [OF assms]
  have klass: "(if is_type w x then \<phi> x else \<phi> (type_of w x)) = \<phi> (if is_type w x then x else type_of w x)" by simp
  show ?thesis
    by (simp add: qualified_names_def v Let_def klass filter_map comp_def inj_eq [OF v(1)] del: if_split
        cong: map_cong filter_cong split: option.splits)
qed

lemma attr_decision_moves:
  assumes sw: "same_world \<phi> w w'" and mv: "moved \<phi> pol pol'"
  shows "is_attr_allowed w' pol' (\<phi> x) attr = is_attr_allowed w pol x attr"
proof -
  note v = same_world_views [OF sw] and find = find_registration_moves [OF sw mv]
  have none: "\<phi> y = py_None \<longleftrightarrow> y = py_None" for y using v(1,2) by (metis inj_eq)
  have sub: "getattr_none w' (\<phi> x) attr = map_sum id \<phi> (getattr_none w x attr)"
    by (cases "get_attr w x attr") (auto simp: getattr_none_def v)
  have "registered_attr_rule w' pol' (move_reg \<phi> r) (\<phi> x) attr = registered_attr_rule w pol r x attr" for r
    by (cases "getattr_none w x attr")
      (simp_all add: registered_attr_rule_def v qualified_names_move [OF sw] sub find none Let_def)
  moreover have "default_attr_rule w' (\<phi> x) attr = default_attr_rule w x attr"
    by (simp add: default_attr_rule_def v)
  ultimately show ?thesis by (simp add: is_attr_allowed_def find split: option.splits)
qed

lemma import_decision_moves:
  assumes "moved \<phi> pol pol'"
  shows "is_import_allowed pol' name = is_import_allowed pol name"
proof -
  have "exclude_pred (MReg (move_module \<phi> r)) = exclude_pred (MReg r)"
    "exclude_qual_pred (MReg (move_module \<phi> r)) = exclude_qual_pred (MReg r)" for r
    using move_reg_filters(3,4) [of \<phi> "MReg r"] by simp_all
  then show ?thesis
    by (simp add: is_import_allowed_def moved_lookups [OF assms] dmem_iff dget_map_values first_registered_moves
        move_module_def split: option.splits)
qed

lemma needs_move:
  assumes "moved \<phi> pol pol'"
  shows "needs_network pol' = needs_network pol" "needs_host_fs pol' = needs_host_fs pol"
  by (simp_all add: needs_network_def needs_host_fs_def moved_lookups [OF assms] list_ex_iff set_map_values split_beta
      move_cls_def move_module_def)

section \<open>Properties\<close>

text \<open>
  C9: a policy that was sent to another process decides there as it does here:
  the same attributes of an object's counterpart are readable, the same modules
  importable, the same privileges and limits in force, provided no registration was
  replaced under its name.
\<close>

theorem shipped_policy_decides_alike:
  assumes "same_world \<phi> w w'" "faithful \<phi> w pk up" "indexes_current pol"
    and "policy_getstate w pk pol = Inr st" "policy_setstate up st = Inr pol'"
  shows "is_attr_allowed w' pol' (\<phi> x) attr = is_attr_allowed w pol x attr
    \<and> is_import_allowed pol' name = is_import_allowed pol name
    \<and> needs_network pol' = needs_network pol \<and> needs_host_fs pol' = needs_host_fs pol
    \<and> timeout pol' = timeout pol \<and> tick_limit pol' = tick_limit pol \<and> memory_limit pol' = memory_limit pol"
proof -
  have mv: "moved \<phi> pol pol'"
    using transported_moved [OF assms(2) _ assms(3-5)] same_world_views(1) [OF assms(1)] by blast
  then show ?thesis
    using attr_decision_moves [OF assms(1) mv] import_decision_moves [OF mv] needs_move [OF mv]
    by (simp add: moved_def)
qed


section \<open>A finding\<close>

text \<open>
  A class whose registration was replaced by another class under the same name is
  still found by its identity here, but the rebuilt index has no trace of it: the
  attribute denied in this process is readable in the worker.
\<close>

definition ex_grant :: "oid \<Rightarrow> pattern \<Rightarrow> cls_registration" where
  "ex_grant c ex = \<lparr>cr_cls = c, cr_name = [], cr_constructable = True, cr_include = Glob ''*'', cr_exclude = ex,
     cr_configure = [], cr_host_fs = False, cr_network = False, cr_host_time = False\<rparr>"

definition ex_replaced :: policy where
  "ex_replaced = policy_cls empty_world (Some ''Client'') (ex_grant 8 (Glob ''*''))
     (policy_cls empty_world (Some ''Client'') (ex_grant 7 (Glob ''secret'')) empty_policy)"

lemma replaced_registration_lost:
  "is_attr_allowed (empty_world\<lparr>type_of := (\<lambda>_. 7)\<rparr>) ex_replaced 20 ''secret'' = Inr False
   \<and> is_attr_allowed (empty_world\<lparr>type_of := (\<lambda>_. 7)\<rparr>)
       (ex_replaced\<lparr>reg_by_cls_id := cls_index (pol_classes ex_replaced)\<rparr>) 20 ''secret'' = Inr True"
  by code_simp

section \<open>A policy that crosses\<close>

definition ex_phi :: "oid \<Rightarrow> oid" where
  "ex_phi x = (if x = 0 then 0 else x + 100)"

definition ex_here :: pyworld where
  "ex_here = empty_world\<lparr>is_module := (\<lambda>x. x = 5), obj_name := (\<lambda>x. if x = 5 then Some ''math'' else None),
     find_spec := (\<lambda>n. Inr (n = ''math''))\<rparr>"

definition ex_there :: pyworld where
  "ex_there = empty_world\<lparr>type_of := (\<lambda>_. 101), mro := (\<lambda>c. [c, 101]), object_cls := 101,
     is_module := (\<lambda>x. x = 105), obj_name := (\<lambda>x. if x = 105 then Some ''math'' else None)\<rparr>"

definition ex_pk :: pickler where
  "ex_pk = \<lparr>pk_ref = (\<lambda>x. Inr (str_of_nat x)), pk_pred = (\<lambda>_. Inl (Exc PicklingError []))\<rparr>"

definition ex_up :: unpickler where
  "ex_up = \<lparr>up_ref = (\<lambda>b. Inr (ex_phi (nat_of_digits b))), up_pred = (\<lambda>_. Inl (Exc PicklingError [])),
     up_import = (\<lambda>n. if n = ''math'' then Inr 105 else Inl (Exc ImportError n))\<rparr>"

definition ex_math :: module_registration where
  "ex_math = \<lparr>mr_obj = 5, mr_name = ''math'', mr_include = Glob ''*'', mr_exclude = Patterns [Glob ''_*'', Glob ''*._*''],
     mr_configure = [], mr_recursive = False, mr_host_fs = False, mr_network = False, mr_host_time = False\<rparr>"

definition ex_sent :: policy where
  "ex_sent = empty_policy\<lparr>pol_modules := [(''math'', ex_math)], reg_by_module_id := [(5, ex_math)]\<rparr>"

definition ex_arrived :: policy where
  "ex_arrived = ex_sent\<lparr>pol_modules := [(''math'', ex_math\<lparr>mr_obj := 105\<rparr>)],
     reg_by_module_id := [(105, ex_math\<lparr>mr_obj := 105\<rparr>)]\<rparr>"

lemma ex_same_world: "same_world ex_phi ex_here ex_there"
  by (auto simp: same_world_def ex_phi_def ex_here_def ex_there_def empty_world_def py_None_def inj_def split: if_splits)

lemma ex_faithful: "faithful ex_phi ex_here ex_pk ex_up"
  by (auto simp: faithful_def ex_pk_def ex_up_def ex_here_def ex_phi_def split: if_splits)

lemma ex_crosses: "rbind (policy_getstate ex_here ex_pk ex_sent) (policy_setstate ex_up) = Inr ex_arrived"
  by (simp add: policy_getstate_def policy_setstate_def rmap_values_def ex_sent_def empty_policy_def ex_arrived_def
      module_getstate_def module_setstate_def ex_here_def ex_math_def ex_up_def cls_index_def module_index_def)

theorem shipped_policy_witness:
  "is_attr_allowed ex_there ex_arrived 105 ''_secret'' = is_attr_allowed ex_here ex_sent 5 ''_secret''
   \<and> is_import_allowed ex_arrived ''math'' = is_import_allowed ex_sent ''math''"
proof -
  from ex_crosses obtain st where st: "policy_getstate ex_here ex_pk ex_sent = Inr st"
    "policy_setstate ex_up st = Inr ex_arrived"
    by (auto simp: rbind_eq_Inr_iff)
  have cur: "indexes_current ex_sent"
    by (simp add: indexes_current_def ex_sent_def empty_policy_def cls_index_def module_index_def ex_math_def)
  show ?thesis
    using shipped_policy_decides_alike [OF ex_same_world ex_faithful cur st, of 5 "''_secret''" "''math''"]
    by (simp add: ex_phi_def)
qed


end
