(* ===== verification/Isolation.thy ===== *)
theory Isolation
  imports Policy Errors
begin

text \<open>
  Kernel isolation of the worker: the seccomp, Landlock and Seatbelt drivers
  (\<open>process/seccomp.py\<close>, \<open>process/landlock.py\<close>, \<open>process/seatbelt.py\<close>), their
  dispatch (\<open>process/platform.py\<close>), the status that reports what took effect
  (\<open>IsolationStatus\<close> of \<open>sandbox.py\<close>) and the parent's decision about it
  (\<open>ProcessSandbox._verify_isolation\<close>).

  The packages \<open>landlock\<close>, \<open>seccomp\<close>, \<open>pyseccomp\<close>, the C library and the kernel
  are not part of the source: they are the fields of the record \<open>host\<close>, over a
  kernel state of an arbitrary type. What the theorems need of them are the
  named hypotheses \<open>landlock_enforces\<close>, \<open>seccomp_enforces\<close> and
  \<open>backend_errors_are_os\<close>.
\<close>

section \<open>The system the drivers talk to\<close>

text \<open>
  \<open>installed\<close> tells whether a package is on the path, \<open>exports\<close> whether it has
  the names the driver imports from it, \<open>site_readable\<close> whether site-packages can be
  read in a kernel state. \<open>fs_may\<close> and \<open>sys_may\<close> observe a kernel state: the
  paths that can be opened and the system calls that do not kill the process.
\<close>

record 'k host =
  sys_platform :: string
  installed :: "string \<Rightarrow> bool"
  exports :: "string \<Rightarrow> bool"
  site_readable :: "'k \<Rightarrow> bool"
  ll_ruleset :: "'k \<Rightarrow> unit res"
  ll_allow :: "'k \<Rightarrow> string \<Rightarrow> unit res"
  ll_apply :: "string list \<Rightarrow> 'k \<Rightarrow> 'k res"
  sc_new :: "'k \<Rightarrow> unit res"
  sc_add_rule :: "'k \<Rightarrow> string \<Rightarrow> unit res"
  sc_load :: "string list \<Rightarrow> 'k \<Rightarrow> 'k res"
  sb_library :: bool
  sb_symbol :: bool
  sb_init :: "string \<Rightarrow> (string \<times> string) list \<Rightarrow> 'k \<Rightarrow> string option + 'k"
  realpath :: "string \<Rightarrow> string"
  base_prefix :: string
  venv_prefix :: string
  fs_may :: "'k \<Rightarrow> string \<Rightarrow> bool"
  sys_may :: "'k \<Rightarrow> string \<Rightarrow> bool"

text \<open>The worker process: its kernel state, \<open>sys.modules\<close>, and the warnings it issued.\<close>

record 'k proc =
  kern :: 'k
  loaded :: "string list"
  warned :: "string list"

definition warn :: "string \<Rightarrow> 'k proc \<Rightarrow> 'k proc" where
  "warn m p = p\<lparr>warned := warned p @ [m]\<rparr>"

text \<open>
  \<open>import name\<close>: a hit in \<open>sys.modules\<close> touches no file; otherwise the package
  must exist and its file must be readable, and a denied read is a
  \<open>PermissionError\<close>, which is not an \<open>ImportError\<close>.
\<close>

definition py_import :: "'k host \<Rightarrow> string \<Rightarrow> 'k proc \<Rightarrow> 'k proc res" where
  "py_import h name p =
     (if name \<in> set (loaded p) then Inr p
      else if \<not> installed h name then Inl (Exc ModuleNotFoundError name)
      else if \<not> site_readable h (kern p) then Inl (Exc PermissionError name)
      else Inr (p\<lparr>loaded := name # loaded p\<rparr>))"

text \<open>\<open>from name import \<dots>\<close> also needs the names.\<close>

definition py_import_from :: "'k host \<Rightarrow> string \<Rightarrow> 'k proc \<Rightarrow> 'k proc res" where
  "py_import_from h name p =
     rbind (py_import h name p)
       (\<lambda>p. if exports h name then Inr p else Inl (Exc ImportError name))"

abbreviation is_import_error :: "exc_class \<Rightarrow> bool" where
  "is_import_error c \<equiv> exc_caught_by c ImportError"

abbreviation is_os_error :: "exc_class \<Rightarrow> bool" where
  "is_os_error c \<equiv> exc_caught_by c OSError"

section \<open>seccomp\<close>

definition ALLOWED_SYSCALLS :: "string list" where
  "ALLOWED_SYSCALLS =
    [''exit'', ''exit_group'', ''rt_sigaction'', ''rt_sigreturn'', ''rt_sigprocmask'',
      ''sigaltstack'', ''brk'', ''mmap'', ''munmap'', ''mprotect'', ''mremap'', ''madvise'',
      ''read'', ''write'', ''readv'', ''writev'', ''open'', ''openat'', ''openat2'', ''close'',
      ''close_range'', ''lseek'', ''pread64'', ''pwrite64'', ''stat'', ''fstat'', ''lstat'',
      ''newfstatat'', ''statx'', ''access'', ''faccessat'', ''faccessat2'', ''getcwd'',
      ''getdents'', ''getdents64'', ''chdir'', ''fchdir'', ''readlink'', ''readlinkat'',
      ''mkdir'', ''mkdirat'', ''unlink'', ''unlinkat'', ''rename'', ''renameat'', ''renameat2'',
      ''truncate'', ''ftruncate'', ''chmod'', ''fchmod'', ''fchmodat'', ''symlink'',
      ''symlinkat'', ''link'', ''linkat'', ''pipe'', ''pipe2'', ''poll'', ''ppoll'', ''select'',
      ''pselect6'', ''epoll_create'', ''epoll_create1'', ''epoll_ctl'', ''epoll_wait'',
      ''epoll_pwait'', ''sendmsg'', ''recvmsg'', ''sendto'', ''recvfrom'', ''getpid'',
      ''getppid'', ''gettid'', ''getuid'', ''getgid'', ''geteuid'', ''getegid'', ''getrlimit'',
      ''setrlimit'', ''prlimit64'', ''getrusage'', ''clock_gettime'', ''clock_getres'',
      ''gettimeofday'', ''nanosleep'', ''clock_nanosleep'', ''futex'', ''set_robust_list'',
      ''get_robust_list'', ''arch_prctl'', ''prctl'', ''set_tid_address'', ''rseq'', ''dup'',
      ''dup2'', ''dup3'', ''fcntl'', ''ioctl'', ''sysinfo'', ''uname'', ''getrandom'',
     ''tgkill'', ''kill'', ''clone'', ''clone3'', ''wait4'', ''waitid'', ''memfd_create'']"

definition NETWORK_SYSCALLS :: "string list" where
  "NETWORK_SYSCALLS =
    [''socket'', ''connect'', ''bind'', ''listen'', ''accept'', ''accept4'', ''getsockopt'',
     ''setsockopt'', ''getsockname'', ''getpeername'', ''shutdown'', ''socketpair'']"

text \<open>\<open>preload\<close> imports whichever binding is there, while site-packages can be read.\<close>

definition seccomp_preload :: "'k host \<Rightarrow> 'k proc \<Rightarrow> (bool \<times> 'k proc) res" where
  "seccomp_preload h p =
     (if sys_platform h \<noteq> ''linux'' then Inr (False, p)
      else
        rcatch (rbind (py_import h ''seccomp'' p) (\<lambda>p. Inr (True, p))) is_import_error (\<lambda>_.
        rcatch (rbind (py_import h ''pyseccomp'' p) (\<lambda>p. Inr (True, p))) is_import_error (\<lambda>_.
          Inr (False, p))))"

text \<open>The rules of the filter: a name the library does not know is skipped.\<close>

fun add_rules :: "'k host \<Rightarrow> 'k \<Rightarrow> string list \<Rightarrow> string list res" where
  "add_rules h k [] = Inr []"
| "add_rules h k (name # names) =
     (case sc_add_rule h k name of
        Inl e \<Rightarrow> if is_os_error (err_class e) then add_rules h k names else Inl e
      | Inr _ \<Rightarrow> rbind (add_rules h k names) (\<lambda>rs. Inr (name # rs)))"

definition seccomp_names :: "bool \<Rightarrow> string list" where
  "seccomp_names net =
     ALLOWED_SYSCALLS @ (if net then NETWORK_SYSCALLS else [])"

definition seccomp_install :: "'k host \<Rightarrow> bool \<Rightarrow> 'k proc \<Rightarrow> (bool \<times> 'k proc) res" where
  "seccomp_install h net p =
     rcatch
       (rbind (sc_new h (kern p)) (\<lambda>_.
        rbind (add_rules h (kern p) (seccomp_names net)) (\<lambda>rules.
        rbind (sc_load h rules (kern p)) (\<lambda>k. Inr (True, p\<lparr>kern := k\<rparr>)))))
       is_os_error
       (\<lambda>e. Inr (False, warn (''seccomp filter not applied: '' @ err_msg e) p))"

definition seccomp_apply :: "'k host \<Rightarrow> bool \<Rightarrow> 'k proc \<Rightarrow> (bool \<times> 'k proc) res" where
  "seccomp_apply h net p =
     (if sys_platform h \<noteq> ''linux'' then Inr (False, p)
      else
        (case rcatch (py_import_from h ''seccomp'' p) is_import_error
                (\<lambda>_. py_import_from h ''pyseccomp'' p) of
           Inl e \<Rightarrow>
             if is_import_error (err_class e)
             then Inr (False, warn (''Neither seccomp nor pyseccomp installed; '' @
                                    ''seccomp filtering not applied'') p)
             else Inl e
         | Inr p' \<Rightarrow> seccomp_install h net p'))"

section \<open>Landlock\<close>

fun ll_allow_all :: "'k host \<Rightarrow> 'k \<Rightarrow> string list \<Rightarrow> unit res" where
  "ll_allow_all h k [] = Inr ()"
| "ll_allow_all h k (path # paths) = rbind (ll_allow h k path) (\<lambda>_. ll_allow_all h k paths)"

definition landlock_apply ::
  "'k host \<Rightarrow> string \<Rightarrow> string list \<Rightarrow> 'k proc \<Rightarrow> (bool \<times> 'k proc) res" where
  "landlock_apply h rt writable p =
     (if sys_platform h \<noteq> ''linux'' then Inr (False, p)
      else
        (case py_import_from h ''landlock'' p of
           Inl e \<Rightarrow>
             if is_import_error (err_class e)
             then Inr (False, warn (''landlock package not installed; '' @
                                    ''Landlock restrictions not applied'') p)
             else Inl e
         | Inr p' \<Rightarrow>
             rcatch
               (rbind (ll_ruleset h (kern p')) (\<lambda>_.
                rbind (ll_allow_all h (kern p') (rt # writable)) (\<lambda>_.
                rbind (ll_apply h (rt # writable) (kern p')) (\<lambda>k. Inr (True, p'\<lparr>kern := k\<rparr>)))))
               is_os_error
               (\<lambda>e. Inr (False, warn (''Landlock not applied: '' @ err_msg e) p'))))"

section \<open>Seatbelt\<close>

definition text_lines :: "string list \<Rightarrow> string" where
  "text_lines ls = concat (map (\<lambda>l. l @ [CHR 0x0A]) ls)"

text \<open>The profile fragments; the em dash of a comment is written as a hyphen.\<close>

definition SB_HEADER :: string where
  "SB_HEADER =
     text_lines
      [''(version 1)'',
       ''(deny default)'',
       ''(import \"bsd.sb\")'']"

definition FS_RESTRICTED :: string where
  "FS_RESTRICTED =
     text_lines
      [''(define sandbox-root (param \"SANDBOX_ROOT\"))'',
       ''(define python-base (param \"PYTHON_BASE\"))'',
       ''(define python-venv (param \"PYTHON_VENV\"))'',
       '''',
       ''; Full file access within the sandbox directory'',
       ''(allow file-read* file-write*'',
       ''  (subpath sandbox-root))'',
       '''',
       ''; Read-only access to the Python installation itself - lazy stdlib /'',
       ''; site-packages imports after lockdown must keep working wherever the'',
       ''; interpreter lives (uv / pyenv / homebrew installs are NOT under'',
       ''; /usr or /Library)'',
       ''(allow file-read*'',
       ''  (subpath python-base)'',
       ''  (subpath python-venv))'',
       '''',
       ''; Read-only access to system paths the Python runtime needs'',
       ''(allow file-read*'',
       ''  (subpath \"/usr\")'',
       ''  (subpath \"/System/Library\")'',
       ''  (subpath \"/Library\")'',
       ''  (literal \"/private/etc/localtime\")'',
       ''  (literal \"/dev/null\")'',
       ''  (literal \"/dev/urandom\")'',
       ''  (literal \"/dev/random\")'',
       ''  (literal \"/dev/fd\"))'',
       '''',
       ''; Allow process management (Python threads)'',
       ''(allow process-exec'',
       ''  (subpath \"/usr\"))'']"

definition FS_WRITABLE :: "string \<Rightarrow> string" where
  "FS_WRITABLE key =
     text_lines
      [''(allow file-read* file-write*'',
       ''  (subpath (param \"'' @ key @ ''\")))'']"

definition FS_OPEN :: string where
  "FS_OPEN =
     text_lines
      [''(allow file-read* file-write*)'',
       ''(allow process-exec)'']"

definition NETWORK_DENY :: string where
  "NETWORK_DENY =
     text_lines
      [''; Block network'',
       ''(deny network*)'']"

definition NETWORK_ALLOW :: string where
  "NETWORK_ALLOW =
     text_lines
      [''; Allow network'',
       ''(allow network*)'']"

definition writable_key :: "nat \<Rightarrow> string" where
  "writable_key i = ''WRITABLE_'' @ str_of_nat i"

definition sb_restricts :: "string option \<Rightarrow> bool \<Rightarrow> bool" where
  "sb_restricts rt hostfs = (rt \<noteq> None \<and> \<not> hostfs)"

definition sb_profile :: "string option \<Rightarrow> bool \<Rightarrow> bool \<Rightarrow> string list \<Rightarrow> string" where
  "sb_profile rt net hostfs writable =
     SB_HEADER @
     (if sb_restricts rt hostfs then FS_RESTRICTED else FS_OPEN) @
     (if sb_restricts rt hostfs
      then concat (map (\<lambda>i. FS_WRITABLE (writable_key i)) [0..<length writable]) else []) @
     (if net then NETWORK_ALLOW else NETWORK_DENY)"

definition sb_params ::
  "'k host \<Rightarrow> string option \<Rightarrow> bool \<Rightarrow> string list \<Rightarrow> (string \<times> string) list" where
  "sb_params h rt hostfs writable =
     (case rt of
        Some r \<Rightarrow>
          if hostfs then []
          else
            [(''SANDBOX_ROOT'', r), (''PYTHON_BASE'', realpath h (base_prefix h)),
             (''PYTHON_VENV'', realpath h (venv_prefix h))] @
            map (\<lambda>i. (writable_key i, writable ! i)) [0..<length writable]
      | None \<Rightarrow> [])"

definition seatbelt_apply ::
  "'k host \<Rightarrow> string option \<Rightarrow> bool \<Rightarrow> bool \<Rightarrow> string list \<Rightarrow> 'k proc \<Rightarrow> bool \<times> 'k proc" where
  "seatbelt_apply h rt net hostfs writable p =
     (if sys_platform h \<noteq> ''darwin'' then (False, p)
      else if \<not> sb_library h then (False, p)
      else if \<not> sb_symbol h then (False, p)
      else
        (case sb_init h (sb_profile rt net hostfs writable)
                (sb_params h rt hostfs writable) (kern p) of
           Inl msg \<Rightarrow>
             (False, warn (''Seatbelt profile not applied: '' @
                           (case msg of Some m \<Rightarrow> m | None \<Rightarrow> ''unknown'')) p)
         | Inr k \<Rightarrow> (True, p\<lparr>kern := k\<rparr>)))"

section \<open>Whether a mechanism is available\<close>

text \<open>
  \<open>available\<close> of the three drivers. \<open>abi_version\<close> is the kernel's answer to
  \<open>landlock_abi_version\<close>, a name of the \<open>landlock\<close> package.
\<close>

definition seccomp_available :: "'k host \<Rightarrow> 'k proc \<Rightarrow> bool res" where
  "seccomp_available h p =
     (if sys_platform h \<noteq> ''linux'' then Inr False
      else
        rcatch (rbind (py_import h ''seccomp'' p) (\<lambda>_. Inr True)) is_import_error (\<lambda>_.
        rcatch (rbind (py_import h ''pyseccomp'' p) (\<lambda>_. Inr True)) is_import_error (\<lambda>_. Inr False)))"

definition landlock_available :: "'k host \<Rightarrow> unit res \<Rightarrow> 'k proc \<Rightarrow> bool res" where
  "landlock_available h abi_version p =
     (if sys_platform h \<noteq> ''linux'' then Inr False
      else
        rcatch (rbind (py_import_from h ''landlock'' p) (\<lambda>_. rbind abi_version (\<lambda>_. Inr True)))
          (\<lambda>c. is_import_error c \<or> is_os_error c) (\<lambda>_. Inr False))"

definition seatbelt_available :: "'k host \<Rightarrow> bool" where
  "seatbelt_available h = (sys_platform h = ''darwin'' \<and> sb_library h \<and> sb_symbol h)"

section \<open>The status and the dispatch\<close>

record isolation_status =
  requested :: bool
  ist_platform :: string
  ist_landlock :: "bool option"
  ist_seccomp :: "bool option"
  ist_seatbelt :: "bool option"
  ist_allow_network :: bool
  ist_allow_host_fs :: bool
  ist_root :: "string option"

text \<open>The mechanisms that were applicable, in the order of the code.\<close>

definition applicable :: "isolation_status \<Rightarrow> bool list" where
  "applicable st = List.map_filter id [ist_landlock st, ist_seccomp st, ist_seatbelt st]"

definition degraded :: "isolation_status \<Rightarrow> bool" where
  "degraded st =
     (if \<not> requested st then False
      else if applicable st = [] then True
      else \<not> list_all id (applicable st))"

definition summary_part :: "string \<times> bool option \<Rightarrow> string list" where
  "summary_part nf =
     (case snd nf of
        None \<Rightarrow> []
      | Some True \<Rightarrow> [fst nf @ ''=applied'']
      | Some False \<Rightarrow> [fst nf @ ''=UNAVAILABLE''])"

definition summary :: "isolation_status \<Rightarrow> string" where
  "summary st =
     (if \<not> requested st then ''process isolation only (no kernel restrictions requested)''
      else
        (let parts = concat (map summary_part
               [(''landlock'', ist_landlock st), (''seccomp'', ist_seccomp st),
                (''seatbelt'', ist_seatbelt st)]);
             applied = (if parts = [] then ''nothing available'' else join '', '' parts);
             pf = (if ist_platform st = [] then ''unknown'' else ist_platform st)
         in ''kernel isolation on '' @ pf @ '': '' @ applied))"

datatype isolation_mode = Iso_auto | Iso_none

definition apply_linux ::
  "'k host \<Rightarrow> string option \<Rightarrow> bool \<Rightarrow> bool \<Rightarrow> string list \<Rightarrow> isolation_status \<Rightarrow> 'k proc \<Rightarrow>
   (isolation_status \<times> 'k proc) res" where
  "apply_linux h rt net hostfs writable st p =
     rbind (seccomp_preload h p) (\<lambda>(_, p).
     rbind (case rt of
              Some r \<Rightarrow>
                if \<not> hostfs then
                  rbind (landlock_apply h r writable p) (\<lambda>(b, p). Inr (st\<lparr>ist_landlock := Some b\<rparr>, p))
                else Inr (st, p)
            | None \<Rightarrow> Inr (st, p)) (\<lambda>(st, p).
     rbind (seccomp_apply h net p) (\<lambda>(b, p). Inr (st\<lparr>ist_seccomp := Some b\<rparr>, p))))"

definition apply_darwin ::
  "'k host \<Rightarrow> string option \<Rightarrow> bool \<Rightarrow> bool \<Rightarrow> string list \<Rightarrow> isolation_status \<Rightarrow> 'k proc \<Rightarrow>
   isolation_status \<times> 'k proc" where
  "apply_darwin h rt net hostfs writable st p =
     (let (b, p) = seatbelt_apply h rt net hostfs writable p in (st\<lparr>ist_seatbelt := Some b\<rparr>, p))"

definition apply_isolation ::
  "'k host \<Rightarrow> isolation_mode \<Rightarrow> string option \<Rightarrow> bool \<Rightarrow> bool \<Rightarrow> string list \<Rightarrow> 'k proc \<Rightarrow>
   (isolation_status \<times> 'k proc) res" where
  "apply_isolation h md rt net hostfs writable p =
     (let st = \<lparr>requested = (md = Iso_auto), ist_platform = sys_platform h,
                ist_landlock = None, ist_seccomp = None, ist_seatbelt = None,
                ist_allow_network = net, ist_allow_host_fs = hostfs, ist_root = rt\<rparr>
      in if md = Iso_none then Inr (st, p)
         else if sys_platform h = ''linux'' then apply_linux h rt net hostfs writable st p
         else if sys_platform h = ''darwin'' then Inr (apply_darwin h rt net hostfs writable st p)
         else Inr (st, p))"

text \<open>The call in \<open>worker_main\<close>: the flags come from the policy, the spool directory stays writable.\<close>

definition worker_isolation ::
  "'k host \<Rightarrow> policy \<Rightarrow> isolation_mode \<Rightarrow> string option \<Rightarrow> string option \<Rightarrow> 'k proc \<Rightarrow>
   (isolation_status \<times> 'k proc) res" where
  "worker_isolation h pol md rt spool_dir p =
     apply_isolation h md rt (needs_network pol) (needs_host_fs pol)
       (case spool_dir of Some d \<Rightarrow> [d] | None \<Rightarrow> []) p"

text \<open>
  The parent's decision. \<open>Inl\<close> is the refusal, after which the worker has been
  killed; \<open>Inr\<close> carries the warnings to issue.
\<close>

definition verify_isolation ::
  "isolation_mode \<Rightarrow> bool \<Rightarrow> isolation_status option \<Rightarrow> string list res" where
  "verify_isolation md allow_degraded status =
     (if md \<noteq> Iso_auto \<or> \<not> (case status of None \<Rightarrow> True | Some st \<Rightarrow> degraded st) then Inr []
      else
        (let s = (case status of
                    Some st \<Rightarrow> summary st
                  | None \<Rightarrow> ''kernel isolation status missing from worker'')
         in if \<not> allow_degraded
            then Inl (Exc IsolationUnavailable
                   (s @ ''. Kernel isolation was requested but could not be fully applied'' @
                    '' (or confirmed) on this platform. Pass allow_degraded=True to proceed'' @
                    '' with reduced isolation, or run on a platform with the required support.''))
            else Inr [s @ ''. Proceeding with reduced isolation (allow_degraded=True).'']))"

section \<open>What the packages and the kernel promise\<close>

text \<open>A path at or below a directory.\<close>

definition lies_below :: "string \<Rightarrow> string \<Rightarrow> bool" where
  "lies_below d q = (q = d \<or> startswith q (d @ ''/''))"

text \<open>
  An applied Landlock ruleset leaves reachable only what was reachable and lies
  below an allowed path; a loaded filter with default action \<open>KILL_PROCESS\<close> lets
  only its rules through and opens no path; the backends fail with \<open>OSError\<close>.
\<close>

definition landlock_enforces :: "'k host \<Rightarrow> bool" where
  "landlock_enforces h =
     (\<forall>ps k k' q. ll_apply h ps k = Inr k' \<longrightarrow> fs_may h k' q \<longrightarrow>
        fs_may h k q \<and> (\<exists>d \<in> set ps. lies_below d q))"

definition seccomp_enforces :: "'k host \<Rightarrow> bool" where
  "seccomp_enforces h =
     (\<forall>rules k k'. sc_load h rules k = Inr k' \<longrightarrow>
        (\<forall>s. sys_may h k' s \<longrightarrow> s \<in> set rules) \<and> (\<forall>q. fs_may h k' q \<longrightarrow> fs_may h k q))"

definition backend_errors_are_os :: "'k host \<Rightarrow> bool" where
  "backend_errors_are_os h =
     ((\<forall>k e. ll_ruleset h k = Inl e \<longrightarrow> is_os_error (err_class e))
      \<and> (\<forall>k q e. ll_allow h k q = Inl e \<longrightarrow> is_os_error (err_class e))
      \<and> (\<forall>ps k e. ll_apply h ps k = Inl e \<longrightarrow> is_os_error (err_class e))
      \<and> (\<forall>k e. sc_new h k = Inl e \<longrightarrow> is_os_error (err_class e))
      \<and> (\<forall>k s e. sc_add_rule h k s = Inl e \<longrightarrow> is_os_error (err_class e))
      \<and> (\<forall>rs k e. sc_load h rs k = Inl e \<longrightarrow> is_os_error (err_class e)))"

section \<open>Lemmas\<close>

lemma import_error_classes [simp]:
  "is_import_error ModuleNotFoundError" "is_import_error ImportError"
  "\<not> is_import_error PermissionError" "is_os_error PermissionError" "is_os_error OSError"
  by (simp_all add: exc_caught_by_def exc_mro.simps)

lemma network_not_allowed: "set NETWORK_SYSCALLS \<inter> set ALLOWED_SYSCALLS = {}"
  by code_simp

lemma add_rules_subset: "add_rules h k names = Inr rs \<Longrightarrow> set rs \<subseteq> set names"
  by (induction h k names arbitrary: rs rule: add_rules.induct)
    (auto simp: res_simps split: sum.splits if_splits)

lemma seccomp_apply_filters:
  assumes "seccomp_apply h net p = Inr (True, p')" and "seccomp_enforces h"
  shows "(\<forall>s. sys_may h (kern p') s \<longrightarrow> s \<in> set (seccomp_names net))
         \<and> (\<forall>q. fs_may h (kern p') q \<longrightarrow> fs_may h (kern p) q)"
proof -
  have kern_import: "kern p1 = kern p" if "py_import_from h m p = Inr p1" for m p1
    using that by (auto simp: py_import_from_def py_import_def split: if_splits)
  obtain p1 where p1: "seccomp_install h net p1 = Inr (True, p')"
    and k: "kern p1 = kern p"
    using assms(1) by (auto simp: seccomp_apply_def rcatch_def kern_import
      split: if_splits sum.splits)
  then obtain rules k' where "add_rules h (kern p1) (seccomp_names net) = Inr rules"
    "sc_load h rules (kern p1) = Inr k'" "kern p' = k'"
    by (auto simp: seccomp_install_def rcatch_def res_simps split: if_splits sum.splits)
  with assms(2) k add_rules_subset show ?thesis
    unfolding seccomp_enforces_def by fastforce
qed

text \<open>A mechanism that took effect is one that reports itself available.\<close>

lemma applied_is_available:
  "seccomp_apply h net p = Inr (True, p') \<Longrightarrow> seccomp_available h p = Inr True"
  "landlock_apply h rt writable p = Inr (True, p') \<Longrightarrow> landlock_available h (Inr ()) p = Inr True"
  "fst (seatbelt_apply h r net hostfs writable p) \<Longrightarrow> seatbelt_available h"
proof -
  assume a: "seccomp_apply h net p = Inr (True, p')"
  then obtain q where "rcatch (py_import_from h ''seccomp'' p) is_import_error
      (\<lambda>_. py_import_from h ''pyseccomp'' p) = Inr q" "sys_platform h = ''linux''"
    by (auto simp: seccomp_apply_def split: if_splits sum.splits)
  then show "seccomp_available h p = Inr True"
    by (cases "py_import h ''seccomp'' p"; cases "py_import h ''pyseccomp'' p")
      (auto simp: seccomp_available_def py_import_from_def split: if_splits)
next
  assume "landlock_apply h rt writable p = Inr (True, p')"
  then show "landlock_available h (Inr ()) p = Inr True"
    by (cases "py_import_from h ''landlock'' p") (auto simp: landlock_apply_def landlock_available_def split: if_splits)
next
  assume "fst (seatbelt_apply h r net hostfs writable p)"
  then show "seatbelt_available h" by (auto simp: seatbelt_apply_def seatbelt_available_def split: if_splits)
qed

lemma landlock_apply_confines:
  assumes "landlock_apply h r writable p = Inr (True, p')" and "landlock_enforces h"
    and "fs_may h (kern p') q"
  shows "lies_below r q \<or> (\<exists>d \<in> set writable. lies_below d q)"
proof -
  have "\<exists>k0. ll_apply h (r # writable) k0 = Inr (kern p')"
    using assms(1) by (auto simp: landlock_apply_def rcatch_def res_simps split: if_splits sum.splits)
  with assms(2,3) show ?thesis unfolding landlock_enforces_def by fastforce
qed

lemmas isolation_defs = apply_isolation_def apply_linux_def Let_def res_simps degraded_def
  applicable_def List.map_filter_simps

lemma apply_isolation_linux:
  assumes "sys_platform h = ''linux''" "apply_isolation h Iso_auto rt net hostfs writable p = Inr (st, p')"
    and "\<not> degraded st"
  obtains p1 where "seccomp_apply h net p1 = Inr (True, p')"
    and "\<And>r. rt = Some r \<Longrightarrow> \<not> hostfs \<Longrightarrow> \<exists>p0. landlock_apply h r writable p0 = Inr (True, p1)"
proof (cases "\<exists>r. rt = Some r \<and> \<not> hostfs")
  case True
  then obtain r where "rt = Some r" "\<not> hostfs" by blast
  with assms that show thesis
    by (force simp: isolation_defs split: if_splits)
next
  case False
  with assms that show thesis
    by (cases rt) (auto simp: isolation_defs split: if_splits)
qed

lemma verify_isolation_ok:
  assumes "verify_isolation Iso_auto False status = Inr ws"
  obtains st where "status = Some st" "\<not> degraded st"
  using assms by (cases status) (auto simp: verify_isolation_def Let_def split: if_splits)

lemma landlock_apply_total:
  assumes "backend_errors_are_os h" "site_readable h (kern p)"
  shows "\<exists>b p'. landlock_apply h r writable p = Inr (b, p') \<and> set (loaded p) \<subseteq> set (loaded p')"
proof -
  have allow: "is_os_error (err_class e)" if "ll_allow_all h k ps = Inl e" for k ps e
    using that assms(1)
    by (induction h k ps rule: ll_allow_all.induct) (auto simp: res_simps backend_errors_are_os_def)
  show ?thesis
  proof (cases "py_import_from h ''landlock'' p")
    case (Inl e)
    then have "is_import_error (err_class e)"
      using assms(2) by (auto simp: py_import_from_def py_import_def split: if_splits)
    with Inl show ?thesis by (auto simp: landlock_apply_def warn_def)
  next
    case (Inr p1)
    then have "set (loaded p) \<subseteq> set (loaded p1)"
      by (auto simp: py_import_from_def py_import_def split: if_splits)
    with Inr assms(1) allow [of "kern p1" "r # writable"] show ?thesis
      unfolding landlock_apply_def backend_errors_are_os_def
      by (cases "ll_ruleset h (kern p1)"; cases "ll_allow_all h (kern p1) (r # writable)";
          cases "ll_apply h (r # writable) (kern p1)") (auto simp: warn_def simp del: ll_allow_all.simps)
  qed
qed

lemma seccomp_install_total:
  assumes "backend_errors_are_os h"
  shows "\<exists>b p'. seccomp_install h net p = Inr (b, p')"
proof -
  have add: "is_os_error (err_class e)" if "add_rules h k ps = Inl e" for k ps e
    using that assms
    by (induction h k ps rule: add_rules.induct)
      (auto simp: res_simps backend_errors_are_os_def split: sum.splits if_splits)
  show ?thesis
    using assms add [of "kern p" "seccomp_names net"]
    unfolding seccomp_install_def backend_errors_are_os_def
    by (cases "sc_new h (kern p)"; cases "add_rules h (kern p) (seccomp_names net)")
      (auto simp: rcatch_def split: sum.splits simp: res_simps)
qed

text \<open>
  After a preload every backend import is either a hit in \<open>sys.modules\<close> or a package
  that is not installed: no file is read any more.
\<close>

definition preloaded :: "'k host \<Rightarrow> 'k proc \<Rightarrow> bool" where
  "preloaded h p =
     (''seccomp'' \<in> set (loaded p)
      \<or> \<not> installed h ''seccomp'' \<and>
        (installed h ''pyseccomp'' \<longrightarrow> ''pyseccomp'' \<in> set (loaded p)))"

lemma seccomp_preload_total:
  assumes "sys_platform h = ''linux''" "site_readable h (kern p)"
  shows "\<exists>b p'. seccomp_preload h p = Inr (b, p') \<and> preloaded h p' \<and> kern p' = kern p"
  using assms by (auto simp: seccomp_preload_def py_import_def preloaded_def)

lemma seccomp_apply_total:
  assumes "backend_errors_are_os h" "preloaded h p" "exports h ''seccomp''"
  shows "\<exists>b p'. seccomp_apply h net p = Inr (b, p')"
proof (cases "rcatch (py_import_from h ''seccomp'' p) is_import_error (\<lambda>_. py_import_from h ''pyseccomp'' p)")
  case (Inl e)
  then have "is_import_error (err_class e)"
    using assms(2,3) by (auto simp: rcatch_def py_import_from_def py_import_def preloaded_def split: if_splits)
  with Inl show ?thesis by (auto simp: seccomp_apply_def)
next
  case (Inr p1)
  with seccomp_install_total [OF assms(1)] show ?thesis by (auto simp: seccomp_apply_def)
qed

lemma writable_key_inj: "inj writable_key"
  by (auto simp: inj_def writable_key_def)

lemma sb_params_restricted:
  "sb_params h (Some r) False writable =
     [(''SANDBOX_ROOT'', r), (''PYTHON_BASE'', realpath h (base_prefix h)),
      (''PYTHON_VENV'', realpath h (venv_prefix h))] @
     map (\<lambda>i. (writable_key i, writable ! i)) [0..<length writable]"
  by (simp add: sb_params_def)

lemma sb_params_writable:
  assumes "i < length writable"
  shows "map_of (sb_params h (Some r) False writable) (writable_key i) = Some (writable ! i)"
proof -
  have "map_of (map (\<lambda>i. (writable_key i, writable ! i)) xs) (writable_key i) =
        (if i \<in> set xs then Some (writable ! i) else None)" for xs
    by (induction xs) (auto simp: inj_eq [OF writable_key_inj])
  with assms show ?thesis
    by (simp add: sb_params_restricted writable_key_def)
qed

text \<open>Where a parameter is read in a profile.\<close>

definition param_ref :: "string \<Rightarrow> string" where
  "param_ref key = ''(param \"'' @ key @ ''\")''"

lemma str_in_append: "str_in p s \<Longrightarrow> str_in p (a @ s @ b)"
  unfolding str_in_iff by (metis append.assoc)

lemma str_in_concat: "x \<in> set xs \<Longrightarrow> str_in p x \<Longrightarrow> str_in p (concat xs)"
proof (induction xs)
  case (Cons y ys)
  then show ?case
    using str_in_append [of p y "[]" "concat ys"] str_in_append [of p "concat ys" y "[]"] by auto
qed simp

lemma text_lines_read: "l \<in> set ls \<Longrightarrow> str_in p l \<Longrightarrow> str_in p (text_lines ls)"
  unfolding text_lines_def
  using str_in_concat [of "l @ [CHR 0x0A]" "map (\<lambda>l. l @ [CHR 0x0A]) ls" p]
    str_in_append [of p l "[]" "[CHR 0x0A]"]
  by simp

lemma fixed_params_read:
  "str_in (param_ref ''SANDBOX_ROOT'') FS_RESTRICTED"
  "str_in (param_ref ''PYTHON_BASE'') FS_RESTRICTED"
  "str_in (param_ref ''PYTHON_VENV'') FS_RESTRICTED"
  unfolding FS_RESTRICTED_def param_ref_def
    apply (rule text_lines_read [of "''(define sandbox-root (param \"SANDBOX_ROOT\"))''"], simp, code_simp)
   apply (rule text_lines_read [of "''(define python-base (param \"PYTHON_BASE\"))''"], simp, code_simp)
  apply (rule text_lines_read [of "''(define python-venv (param \"PYTHON_VENV\"))''"], simp, code_simp)
  done

lemma writable_params_read: "str_in (param_ref key) (FS_WRITABLE key)"
proof -
  have "FS_WRITABLE key =
          (''(allow file-read* file-write*'' @ [CHR 0x0A] @ ''  (subpath '') @ param_ref key @ ''))'' @ [CHR 0x0A]"
    by (simp add: FS_WRITABLE_def text_lines_def param_ref_def)
  then show ?thesis unfolding str_in_iff by (metis append.assoc)
qed

section \<open>Properties\<close>

text \<open>A system with all packages, whose kernel keeps every ruleset and filter it was given.\<close>

definition ex_host :: "(string list list \<times> string list list) host" where
  "ex_host =
     \<lparr>sys_platform = ''linux'', installed = (\<lambda>m. m \<noteq> ''seccomp''), exports = (\<lambda>_. True),
      site_readable = (\<lambda>k. fst k = []),
      ll_ruleset = (\<lambda>_. Inr ()), ll_allow = (\<lambda>_ _. Inr ()),
      ll_apply = (\<lambda>ps k. Inr (ps # fst k, snd k)),
      sc_new = (\<lambda>_. Inr ()), sc_add_rule = (\<lambda>_ _. Inr ()),
      sc_load = (\<lambda>rs k. Inr (fst k, rs # snd k)),
      sb_library = False, sb_symbol = False, sb_init = (\<lambda>_ _ _. Inl None),
      realpath = id, base_prefix = ''/usr'', venv_prefix = ''/venv'',
      fs_may = (\<lambda>k q. list_all (\<lambda>ps. list_ex (\<lambda>d. lies_below d q) ps) (fst k)),
      sys_may = (\<lambda>k s. list_all (\<lambda>rs. List.member rs s) (snd k))\<rparr>"

definition ex_proc :: "(string list list \<times> string list list) proc" where
  "ex_proc = \<lparr>kern = ([], []), loaded = [], warned = []\<rparr>"

lemma ex_host_enforces:
  "landlock_enforces ex_host" "seccomp_enforces ex_host" "backend_errors_are_os ex_host"
  by (auto simp: landlock_enforces_def seccomp_enforces_def backend_errors_are_os_def ex_host_def
      list_ex_iff)

text \<open>
  A kernel worker that the parent accepts without \<open>allow_degraded\<close> is confined
  on Linux: it can make only the system calls of the list, the network ones
  among them only when a grant of the policy asks for network, and unless the
  policy asks for the host file system it reaches only paths below the sandbox
  root and the spool directory.
\<close>

lemma verified_isolation_in_force:
  assumes "landlock_enforces h" "seccomp_enforces h" "sys_platform h = ''linux''"
    and run: "worker_isolation h pol Iso_auto rt spool_dir p = Inr (st, p')"
    and ok: "verify_isolation Iso_auto False (Some st) = Inr ws"
  shows "(\<forall>s. sys_may h (kern p') s \<longrightarrow>
             s \<in> set ALLOWED_SYSCALLS \<or> needs_network pol \<and> s \<in> set NETWORK_SYSCALLS)
       \<and> (\<forall>s \<in> set NETWORK_SYSCALLS. \<not> needs_network pol \<longrightarrow> \<not> sys_may h (kern p') s)
       \<and> (\<forall>r q. rt = Some r \<and> \<not> needs_host_fs pol \<and> fs_may h (kern p') q \<longrightarrow>
             lies_below r q \<or> (\<exists>d. spool_dir = Some d \<and> lies_below d q))"
proof -
  have "\<not> degraded st" using verify_isolation_ok [OF ok] by auto
  then obtain p1 where sc: "seccomp_apply h (needs_network pol) p1 = Inr (True, p')"
    and ll: "\<And>r. rt = Some r \<Longrightarrow> \<not> needs_host_fs pol \<Longrightarrow>
      \<exists>p0. landlock_apply h r (case spool_dir of Some d \<Rightarrow> [d] | None \<Rightarrow> []) p0 = Inr (True, p1)"
    using apply_isolation_linux [OF assms(3) run [unfolded worker_isolation_def]] by metis
  note filt = seccomp_apply_filters [OF sc assms(2)]
  have names: "s \<in> set ALLOWED_SYSCALLS \<or> needs_network pol \<and> s \<in> set NETWORK_SYSCALLS"
    if "sys_may h (kern p') s" for s
    using filt that by (auto simp: seccomp_names_def split: if_splits)
  have paths: "lies_below r q \<or> (\<exists>d. spool_dir = Some d \<and> lies_below d q)"
    if rq: "rt = Some r" "\<not> needs_host_fs pol" "fs_may h (kern p') q" for r q
  proof -
    obtain p0 where "landlock_apply h r (case spool_dir of Some d \<Rightarrow> [d] | None \<Rightarrow> []) p0 = Inr (True, p1)"
      using ll rq(1,2) by blast
    moreover have "fs_may h (kern p1) q" using filt rq(3) by blast
    ultimately show ?thesis
      using landlock_apply_confines [OF _ assms(1)] by (fastforce split: option.splits)
  qed
  have no_net: "\<not> sys_may h (kern p') s" if "s \<in> set NETWORK_SYSCALLS" "\<not> needs_network pol" for s
    using names [of s] that network_not_allowed by auto
  show ?thesis
    by (intro conjI allI ballI impI) (use names no_net paths in auto)
qed

text \<open>
  Applying isolation never raises, whatever is missing: as long as the
  backends fail with \<open>OSError\<close> and site-packages are readable at the start, a
  status comes back. The seccomp package is imported before Landlock takes the
  file system away, so the later import reads nothing.
\<close>

theorem apply_isolation_total:
  assumes "backend_errors_are_os h" "site_readable h (kern p)" "exports h ''seccomp''"
  shows "\<exists>st p'. apply_isolation h md rt net hostfs writable p = Inr (st, p')
           \<and> requested st = (md = Iso_auto)"
proof -
  have "\<exists>st' p'. apply_linux h rt net hostfs writable st p = Inr (st', p') \<and> requested st' = requested st"
    if lin: "sys_platform h = ''linux''" for st
  proof -
    obtain b1 p1 where p1: "seccomp_preload h p = Inr (b1, p1)" "preloaded h p1" "kern p1 = kern p"
      using seccomp_preload_total [OF lin assms(2)] by blast
    have "\<exists>st2 p2. (case rt of
        Some r \<Rightarrow> if \<not> hostfs then
                   rbind (landlock_apply h r writable p1) (\<lambda>(b, p). Inr (st\<lparr>ist_landlock := Some b\<rparr>, p))
                 else Inr (st, p1)
      | None \<Rightarrow> Inr (st, p1)) = Inr (st2, p2) \<and> set (loaded p1) \<subseteq> set (loaded p2)
        \<and> requested st2 = requested st" (is "\<exists>st2 p2. ?ll = _ \<and> _")
    proof (cases "\<exists>r. rt = Some r \<and> \<not> hostfs")
      case True
      then obtain r b p2 where "rt = Some r" "\<not> hostfs" "landlock_apply h r writable p1 = Inr (b, p2)"
        "set (loaded p1) \<subseteq> set (loaded p2)"
        using landlock_apply_total [OF assms(1), of p1] assms(2) p1(3) by metis
      then show ?thesis by simp
    qed (auto split: option.splits)
    then obtain st2 p2 where p2: "?ll = Inr (st2, p2)" "set (loaded p1) \<subseteq> set (loaded p2)"
      "requested st2 = requested st" by blast
    with p1 have "preloaded h p2" by (auto simp: preloaded_def)
    from seccomp_apply_total [OF assms(1) this assms(3), of net] obtain b3 p3
      where "seccomp_apply h net p2 = Inr (b3, p3)" by blast
    with p1 p2 show ?thesis by (simp add: apply_linux_def)
  qed
  note linux = this
  define st0 where "st0 = \<lparr>requested = (md = Iso_auto), ist_platform = sys_platform h,
      ist_landlock = None, ist_seccomp = None, ist_seatbelt = None,
      ist_allow_network = net, ist_allow_host_fs = hostfs, ist_root = rt\<rparr>"
  have "requested st0 = (md = Iso_auto)" by (simp add: st0_def)
  moreover have "requested (fst (apply_darwin h rt net hostfs writable st0 p)) = requested st0"
    by (simp add: apply_darwin_def Let_def split: prod.splits)
  ultimately show ?thesis
    using linux [of st0]
    by (cases "apply_darwin h rt net hostfs writable st0 p")
      (auto simp: apply_isolation_def Let_def st0_def [symmetric])
qed

text \<open>
  The Seatbelt profile denies everything by default and, without a network
  grant, ends by denying network; every parameter it is given is read by it, and
  each writable directory is bound to the parameter of its own rule.
\<close>

theorem seatbelt_profile_params:
  "(\<exists>t. sb_profile rt net hostfs writable = SB_HEADER @ t)
   \<and> (\<exists>t. sb_profile rt net hostfs writable = t @ (if net then NETWORK_ALLOW else NETWORK_DENY))
   \<and> (\<forall>k v. (k, v) \<in> set (sb_params h rt hostfs writable) \<longrightarrow>
        str_in (param_ref k) (sb_profile rt net hostfs writable))
   \<and> (\<forall>i < length writable. sb_restricts rt hostfs \<longrightarrow>
        map_of (sb_params h rt hostfs writable) (writable_key i) = Some (writable ! i))"
proof -
  have read: "str_in (param_ref k) (sb_profile rt net hostfs writable)"
    if kv: "(k, v) \<in> set (sb_params h rt hostfs writable)" for k v
  proof -
    have res: "sb_restricts rt hostfs" using kv
      by (auto simp: sb_params_def sb_restricts_def split: option.splits if_splits)
    let ?w = "concat (map (\<lambda>i. FS_WRITABLE (writable_key i)) [0..<length writable])"
    have "str_in (param_ref k) FS_RESTRICTED \<or> str_in (param_ref k) ?w"
    proof (cases "k \<in> {''SANDBOX_ROOT'', ''PYTHON_BASE'', ''PYTHON_VENV''}")
      case False
      with kv obtain i where "i < length writable" "k = writable_key i"
        by (auto simp: sb_params_def split: option.splits if_splits)
      then show ?thesis using writable_params_read str_in_concat by (metis (no_types, lifting)
          atLeast0LessThan image_eqI lessThan_iff set_map set_upt)
    qed (auto simp: fixed_params_read)
    then show ?thesis
      using str_in_append [of _ FS_RESTRICTED SB_HEADER] str_in_append [of _ ?w "SB_HEADER @ FS_RESTRICTED"]
      by (auto simp: sb_profile_def res)
  qed
  have bound: "map_of (sb_params h rt hostfs writable) (writable_key i) = Some (writable ! i)"
    if "i < length writable" "sb_restricts rt hostfs" for i
    using that sb_params_writable by (cases rt) (auto simp: sb_restricts_def)
  from read bound show ?thesis unfolding sb_profile_def by simp
qed

section \<open>Witnesses\<close>

definition ex_status :: isolation_status where
  "ex_status = \<lparr>requested = True, ist_platform = ''linux'', ist_landlock = Some True,
                ist_seccomp = Some True, ist_seatbelt = None, ist_allow_network = False,
                ist_allow_host_fs = False, ist_root = Some ''/srv''\<rparr>"

lemma ex_host_add_rules: "add_rules ex_host k names = Inr names"
  by (induction names) (auto simp: ex_host_def)

lemma ex_host_fields:
  "sys_platform ex_host = ''linux''" "ll_ruleset ex_host k = Inr ()" "ll_allow ex_host k d = Inr ()"
  "ll_apply ex_host ps k = Inr (ps # fst k, snd k)" "sc_new ex_host k = Inr ()"
  "sc_load ex_host rs k = Inr (fst k, rs # snd k)"
  by (simp_all add: ex_host_def)

lemma ex_host_import:
  assumes "m \<noteq> ''seccomp''" "m \<in> set (loaded p) \<or> fst (kern p) = []"
  shows "py_import_from ex_host m p = Inr (if m \<in> set (loaded p) then p else p\<lparr>loaded := m # loaded p\<rparr>)"
  using assms by (auto simp: py_import_from_def py_import_def ex_host_def)

lemma ex_isolation_run:
  assumes "\<not> needs_network pol" "\<not> needs_host_fs pol" "kern p = ([], [])" "''seccomp'' \<notin> set (loaded p)"
  shows "\<exists>p'. worker_isolation ex_host pol Iso_auto (Some ''/srv'') (Some d) p = Inr (ex_status, p')
    \<and> kern p' = ([[''/srv'', d]], [ALLOWED_SYSCALLS])"
proof -
  define p1 where "p1 = (if ''pyseccomp'' \<in> set (loaded p) then p else p\<lparr>loaded := ''pyseccomp'' # loaded p\<rparr>)"
  define p2 where "p2 = (if ''landlock'' \<in> set (loaded p1) then p1 else p1\<lparr>loaded := ''landlock'' # loaded p1\<rparr>)
    \<lparr>kern := ([[''/srv'', d]], [])\<rparr>"
  have pre: "seccomp_preload ex_host p = Inr (True, p1)"
    using assms(3,4) by (simp add: seccomp_preload_def py_import_def p1_def ex_host_def)
  have k1: "kern p1 = ([], [])" using assms(3) by (simp add: p1_def)
  have ll: "landlock_apply ex_host ''/srv'' [d] p1 = Inr (True, p2)"
    using k1 by (simp add: landlock_apply_def ex_host_import ex_host_fields p2_def)
  have "''seccomp'' \<notin> set (loaded p2)" "''pyseccomp'' \<in> set (loaded p2)"
    using assms(4) by (auto simp: p2_def p1_def)
  then have imp: "rcatch (py_import_from ex_host ''seccomp'' p2) is_import_error
      (\<lambda>_. py_import_from ex_host ''pyseccomp'' p2) = Inr p2"
    by (simp add: py_import_from_def py_import_def ex_host_def)
  have "seccomp_apply ex_host False p2 = Inr (True, p2\<lparr>kern := ([[''/srv'', d]], [ALLOWED_SYSCALLS])\<rparr>)"
    unfolding seccomp_apply_def imp
    by (simp add: seccomp_install_def ex_host_add_rules ex_host_fields seccomp_names_def p2_def)
  with assms(1,2) pre ll show ?thesis
    by (simp add: worker_isolation_def apply_isolation_def apply_linux_def ex_host_fields ex_status_def)
qed

theorem apply_isolation_total_witness:
  "\<exists>st p'. apply_isolation ex_host Iso_auto (Some ''/srv'') True False [] ex_proc = Inr (st, p')
     \<and> requested st"
  using apply_isolation_total [of ex_host ex_proc Iso_auto "Some ''/srv''" True False "[]"]
    ex_host_enforces(3)
  by (simp add: ex_host_def ex_proc_def)

theorem seatbelt_profile_witness:
  "str_in (param_ref ''SANDBOX_ROOT'') (sb_profile (Some ''/srv'') False False [''/spool''])
   \<and> map_of (sb_params ex_host (Some ''/srv'') False [''/spool'']) (writable_key 0) = Some ''/spool''"
  using seatbelt_profile_params [of "Some ''/srv''" False False "[''/spool'']" ex_host]
  by (auto simp: sb_params_restricted sb_restricts_def)

text \<open>
  A missing package is reported by a warning from inside the drivers, although
  \<open>apply_isolation\<close> says of itself that it never warns on unavailability.
\<close>

theorem unavailable_backend_warns:
  "\<exists>st p'. apply_isolation (ex_host\<lparr>installed := \<lambda>_. False\<rparr>) Iso_auto None False False [] ex_proc
       = Inr (st, p') \<and> degraded st \<and> warned p' \<noteq> []"
  by (simp add: isolation_defs seccomp_preload_def seccomp_apply_def py_import_from_def
      py_import_def ex_host_def ex_proc_def warn_def)

end
