(* ===== verification/Broker.thy ===== *)
theory Broker
  imports Isolation "HOL-Library.List_Lexorder" "HOL-Library.Char_ord"
begin

text \<open>
  How worker processes come into being (the module level of
  \<open>process/sandbox.py\<close>): classifying a worker that died before it was ready,
  choosing a start method, what a forkserver broker preloads and what this
  process knows about the broker it uses, and the descriptors a forked worker
  gives up. Signals, process identifiers and the multiprocessing module's
  forkserver state are parameters or fields of the state.
\<close>

section \<open>A worker that died\<close>

text \<open>
  What the host sees of a worker process: its exit code, negative for a signal,
  \<open>None\<close> while it has not exited; the whole is \<open>None\<close> when there is no process.
\<close>

type_synonym worker_exit = "int option option"

record signals =
  sig_number :: "string \<Rightarrow> int option"
  sig_name :: "int \<Rightarrow> string option"

definition CRASH_SIGNALS :: "signals \<Rightarrow> int list" where
  "CRASH_SIGNALS sg =
     List.map_filter (sig_number sg)
       [''SIGSEGV'', ''SIGBUS'', ''SIGABRT'', ''SIGILL'', ''SIGFPE'', ''SIGTRAP'']"

definition exit_signal :: "worker_exit \<Rightarrow> int option" where
  "exit_signal p =
     (case p of
        None \<Rightarrow> None
      | Some None \<Rightarrow> None
      | Some (Some code) \<Rightarrow> if code < 0 then Some (- code) else None)"

definition str_of_int :: "int \<Rightarrow> string" where
  "str_of_int i = (if i < 0 then ''-'' @ str_of_nat (nat (- i)) else str_of_nat (nat i))"

definition describe_exit :: "signals \<Rightarrow> worker_exit \<Rightarrow> string" where
  "describe_exit sg p =
     (case p of
        None \<Rightarrow> ''the worker exited before signalling ready''
      | Some None \<Rightarrow> ''the worker stopped responding before signalling ready''
      | Some (Some code) \<Rightarrow>
          if code < 0 then
            ''the worker was killed by '' @
            (case sig_name sg (- code) of Some n \<Rightarrow> n | None \<Rightarrow> ''signal '' @ str_of_int (- code))
          else ''the worker exited with status '' @ str_of_int code)"

definition native_crash_error :: "signals \<Rightarrow> worker_exit \<Rightarrow> string \<Rightarrow> pyerr" where
  "native_crash_error sg p start_method =
     Exc RuntimeError (''Worker process died during initialisation -- '' @ describe_exit sg p @
       ''. This worker was created with start_method='' @ start_method @
       '', so it inherited nothing from this process: fork hostility is not the cause'')"

definition fork_unsafe_error :: "signals \<Rightarrow> nat \<Rightarrow> worker_exit \<Rightarrow> pyerr" where
  "fork_unsafe_error sg threads p =
     Exc StForkUnsafe (''Worker process died during initialisation -- '' @ describe_exit sg p @ ''.'' @
       (if threads > 1
        then '' The host process has '' @ str_of_nat threads @ '' threads running''
        else '' The host process appears single-threaded''))"

definition init_death_error :: "signals \<Rightarrow> nat \<Rightarrow> worker_exit \<Rightarrow> string \<Rightarrow> pyerr" where
  "init_death_error sg threads p start_method =
     (let sig = exit_signal p in
      if sig \<noteq> None \<and> the sig \<in> set (CRASH_SIGNALS sg) then
        (if start_method = ''fork'' then fork_unsafe_error sg threads p
         else native_crash_error sg p start_method)
      else
        Exc RuntimeError (''Worker process died during initialisation -- '' @ describe_exit sg p @ ''.'' @
          (if sig = sig_number sg ''SIGKILL''
           then '' A SIGKILL usually means something outside the process killed it''
           else '' The worker's own traceback goes to its stderr'')))"

text \<open>An \<open>OSError\<close> with its number; only these say that the platform has no such primitive.\<close>

datatype os_failure = OsErr int pyerr

definition UNSUPPORTED_ERRNOS :: "(string \<Rightarrow> int) \<Rightarrow> int list" where
  "UNSUPPORTED_ERRNOS errno = map errno [''ENOTSUP'', ''EOPNOTSUPP'', ''ENOSYS'']"

definition refuses_workers :: "(string \<Rightarrow> int) \<Rightarrow> os_failure \<Rightarrow> bool" where
  "refuses_workers errno f =
     (case f of OsErr no e \<Rightarrow> is_os_error (err_class e) \<and> no \<in> set (UNSUPPORTED_ERRNOS errno))"

definition no_process_isolation :: "string \<Rightarrow> os_failure \<Rightarrow> pyerr" where
  "no_process_isolation what f =
     (case f of OsErr no e \<Rightarrow>
        Exc IsolationUnavailable (''process isolation is unavailable on this platform: could not '' @
          what @ '' -- '' @ err_msg e))"

section \<open>Start methods\<close>

definition default_start_method :: "string list \<Rightarrow> string" where
  "default_start_method available =
     (case find (\<lambda>c. List.member available c) [''forkserver'', ''spawn'', ''fork''] of
        Some c \<Rightarrow> c
      | None \<Rightarrow> ''fork'')"

text \<open>The names a broker preloads: the real names of granted modules, when asked for.\<close>

definition forkserver_preload_names :: "pyworld \<Rightarrow> policy \<Rightarrow> bool \<Rightarrow> string list" where
  "forkserver_preload_names w pol include_grants =
     sorted_list_of_set (set (''sandtrap'' #
       (if include_grants
        then filter (\<lambda>n. n \<noteq> [])
               (List.map_filter (\<lambda>(_, r). if is_module w (mr_obj r) then obj_name w (mr_obj r) else None)
                  (pol_modules pol))
        else [])))"

section \<open>What this process knows about its broker\<close>

text \<open>
  Per process: its identifier, the record \<open>_BROKER_PRELOAD\<close> (owner, broker,
  module names), the forkserver module's pid and preload list, and the warnings
  that were issued about modules a running broker will not have.
\<close>

record mp_state =
  my_pid :: nat
  broker_record :: "(nat \<times> nat \<times> string set) option"
  live_pid :: "nat option"
  preload_modules :: "string set"
  preload_warned :: "string list"

definition active_broker_preload :: "mp_state \<Rightarrow> string set option" where
  "active_broker_preload p =
     (case broker_record p of
        None \<Rightarrow> None
      | Some (owner, broker_pid, names) \<Rightarrow>
          if owner \<noteq> my_pid p then None
          else if live_pid p \<noteq> Some broker_pid then None
          else Some names)"

definition record_broker_preload :: "mp_state \<Rightarrow> mp_state" where
  "record_broker_preload p =
     (case live_pid p of
        None \<Rightarrow> p
      | Some q \<Rightarrow>
          if (case broker_record p of Some (o1, b, _) \<Rightarrow> o1 = my_pid p \<and> b = q | None \<Rightarrow> False) then p
          else p\<lparr>broker_record := Some (my_pid p, q, preload_modules p)\<rparr>)"

definition apply_forkserver_preload :: "string list \<Rightarrow> mp_state \<Rightarrow> mp_state" where
  "apply_forkserver_preload names p =
     (let missing = (case active_broker_preload p of
                       Some ld \<Rightarrow> sorted_list_of_set (set names - ld)
                     | None \<Rightarrow> [])
      in p\<lparr>preload_warned := preload_warned p @ missing,
           preload_modules := preload_modules p \<union> set names\<rparr>)"

definition reset_inherited_forkserver :: "mp_state \<Rightarrow> mp_state" where
  "reset_inherited_forkserver p = p\<lparr>broker_record := None, live_pid := None\<rparr>"

text \<open>
  The system: the processes of one program, and for each broker who started it and
  what it imported. A worker start raises a broker when none is known; when the
  known one was inherited through \<open>fork\<close> it is somebody else's child, the start
  fails and is retried after a reset. Other code of a process may start a broker
  or extend the preload list.
\<close>

record mp_world =
  procs :: "nat \<Rightarrow> mp_state"
  alive :: "nat set"
  started_by :: "nat \<Rightarrow> nat option"
  broker_loaded :: "nat \<Rightarrow> string set"
  fresh_pid :: nat

definition mp_init :: "mp_world \<Rightarrow> bool" where
  "mp_init w \<longleftrightarrow> (\<forall>b. started_by w b = None) \<and>
     (\<forall>i \<in> alive w. i < fresh_pid w \<and> my_pid (procs w i) = i \<and> broker_record (procs w i) = None
        \<and> live_pid (procs w i) = None \<and> preload_warned (procs w i) = [])"

definition put :: "nat \<Rightarrow> mp_state \<Rightarrow> mp_world \<Rightarrow> mp_world" where
  "put i p w = w\<lparr>procs := (procs w)(i := p)\<rparr>"

definition raise_broker :: "nat \<Rightarrow> mp_world \<Rightarrow> mp_world" where
  "raise_broker i w =
     put i ((procs w i)\<lparr>live_pid := Some (fresh_pid w)\<rparr>)
       (w\<lparr>started_by := (started_by w)(fresh_pid w := Some i),
          broker_loaded := (broker_loaded w)(fresh_pid w := preload_modules (procs w i)),
          fresh_pid := fresh_pid w + 1\<rparr>)"

definition on_proc :: "(mp_state \<Rightarrow> mp_state) \<Rightarrow> nat \<Rightarrow> mp_world \<Rightarrow> mp_world" where
  "on_proc f i w = put i (f (procs w i)) w"

inductive mp_step :: "mp_world \<Rightarrow> mp_world \<Rightarrow> bool" where
  apply_preload: "i \<in> alive w \<Longrightarrow> mp_step w (on_proc (apply_forkserver_preload names) i w)"
| first_worker: "i \<in> alive w \<Longrightarrow> live_pid (procs w i) = None \<Longrightarrow>
     mp_step w (on_proc record_broker_preload i (raise_broker i w))"
| next_worker: "i \<in> alive w \<Longrightarrow> live_pid (procs w i) = Some b \<Longrightarrow> started_by w b = Some i \<Longrightarrow>
     mp_step w (on_proc record_broker_preload i w)"
| inherited_worker: "i \<in> alive w \<Longrightarrow> live_pid (procs w i) = Some b \<Longrightarrow> started_by w b \<noteq> Some i \<Longrightarrow>
     mp_step w (on_proc record_broker_preload i (raise_broker i (on_proc reset_inherited_forkserver i w)))"
| other_broker: "i \<in> alive w \<Longrightarrow> live_pid (procs w i) = None \<Longrightarrow> mp_step w (raise_broker i w)"
| other_preload: "i \<in> alive w \<Longrightarrow>
     mp_step w (on_proc (\<lambda>p. p\<lparr>preload_modules := preload_modules p \<union> ns\<rparr>) i w)"
| fork: "i \<in> alive w \<Longrightarrow>
     mp_step w ((put (fresh_pid w) ((procs w i)\<lparr>my_pid := fresh_pid w\<rparr>) w)
                  \<lparr>alive := insert (fresh_pid w) (alive w), fresh_pid := fresh_pid w + 1\<rparr>)"

inductive mp_reach :: "mp_world \<Rightarrow> bool" where
  start: "mp_init w \<Longrightarrow> mp_reach w"
| step: "mp_reach w \<Longrightarrow> mp_step w w' \<Longrightarrow> mp_reach w'"

definition proc_inv :: "mp_world \<Rightarrow> nat \<Rightarrow> bool" where
  "proc_inv w i \<longleftrightarrow>
     i < fresh_pid w \<and> my_pid (procs w i) = i
     \<and> (\<forall>b. live_pid (procs w i) = Some b \<longrightarrow> b < fresh_pid w
          \<and> (started_by w b = Some i \<longrightarrow> broker_loaded w b \<subseteq> preload_modules (procs w i)))
     \<and> (\<forall>o1 b ns. broker_record (procs w i) = Some (o1, b, ns) \<longrightarrow> o1 < fresh_pid w \<and> b < fresh_pid w
          \<and> (o1 = i \<longrightarrow> started_by w b = Some i \<and> broker_loaded w b \<subseteq> ns))"

definition mp_inv :: "mp_world \<Rightarrow> bool" where
  "mp_inv w \<longleftrightarrow> (\<forall>b i. started_by w b = Some i \<longrightarrow> i < fresh_pid w) \<and> (\<forall>i \<in> alive w. proc_inv w i)"

lemmas mp_defs = put_def on_proc_def raise_broker_def record_broker_preload_def
  apply_forkserver_preload_def reset_inherited_forkserver_def Let_def

lemma mp_inv_init: "mp_init w \<Longrightarrow> mp_inv w"
  by (auto simp: mp_init_def mp_inv_def proc_inv_def)

text \<open>A process that a step does not touch keeps its part of the invariant.\<close>

lemma proc_inv_frame:
  assumes "proc_inv w k" "procs w' k = procs w k" "fresh_pid w \<le> fresh_pid w'"
    and "\<And>b. b < fresh_pid w \<Longrightarrow> started_by w' b = started_by w b \<and> broker_loaded w' b = broker_loaded w b"
  shows "proc_inv w' k"
  using assms unfolding proc_inv_def by (auto intro: less_le_trans)

lemma raise_broker_frame [simp]:
  "fresh_pid (raise_broker i w) = fresh_pid w + 1" "alive (raise_broker i w) = alive w"
  "k \<noteq> i \<Longrightarrow> procs (raise_broker i w) k = procs w k"
  "b \<noteq> fresh_pid w \<Longrightarrow> started_by (raise_broker i w) b = started_by w b"
  "b \<noteq> fresh_pid w \<Longrightarrow> broker_loaded (raise_broker i w) b = broker_loaded w b"
  "started_by (raise_broker i w) (fresh_pid w) = Some i"
  "broker_loaded (raise_broker i w) (fresh_pid w) = preload_modules (procs w i)"
  "procs (raise_broker i w) i = (procs w i)\<lparr>live_pid := Some (fresh_pid w)\<rparr>"
  by (simp_all add: raise_broker_def put_def)

lemma on_proc_frame [simp]:
  "fresh_pid (on_proc f i w) = fresh_pid w" "alive (on_proc f i w) = alive w"
  "k \<noteq> i \<Longrightarrow> procs (on_proc f i w) k = procs w k" "procs (on_proc f i w) i = f (procs w i)"
  "started_by (on_proc f i w) = started_by w" "broker_loaded (on_proc f i w) = broker_loaded w"
  by (simp_all add: on_proc_def put_def)

lemma mp_inv_on_proc:
  assumes "mp_inv w" "i \<in> alive w" "proc_inv (on_proc f i w) i"
  shows "mp_inv (on_proc f i w)"
  unfolding mp_inv_def
proof (intro conjI ballI)
  fix k assume "k \<in> alive (on_proc f i w)"
  then show "proc_inv (on_proc f i w) k"
    using assms proc_inv_frame [of w k "on_proc f i w"] by (cases "k = i") (auto simp: mp_inv_def)
qed (use assms(1) in \<open>simp add: mp_inv_def\<close>)

lemma mp_inv_raise_broker:
  assumes "mp_inv w" "i \<in> alive w"
  shows "mp_inv (raise_broker i w)"
  unfolding mp_inv_def
proof (intro conjI ballI allI impI)
  fix k assume "k \<in> alive (raise_broker i w)"
  then have "proc_inv w k" using assms(1) by (simp add: mp_inv_def)
  then show "proc_inv (raise_broker i w) k"
  proof (cases "k = i")
    case True
    from \<open>proc_inv w k\<close> show ?thesis unfolding proc_inv_def True
      by (auto simp: less_Suc_eq; fastforce)
  qed (auto intro: proc_inv_frame)
next
  fix b j assume "started_by (raise_broker i w) b = Some j"
  then show "j < fresh_pid (raise_broker i w)"
    using assms by (cases "b = fresh_pid w") (auto simp: mp_inv_def proc_inv_def less_Suc_eq)
qed

lemma proc_inv_record:
  assumes "proc_inv w i" "live_pid (procs w i) = Some b" "started_by w b = Some i"
  shows "proc_inv (on_proc record_broker_preload i w) i"
  using assms by (auto simp: proc_inv_def record_broker_preload_def split: option.splits prod.splits if_splits)

lemma mp_inv_record:
  assumes "mp_inv w" "i \<in> alive w" "live_pid (procs w i) = Some b" "started_by w b = Some i"
  shows "mp_inv (on_proc record_broker_preload i w)"
  using assms by (intro mp_inv_on_proc proc_inv_record) (auto simp: mp_inv_def)

lemma mp_inv_first_worker:
  "mp_inv w \<Longrightarrow> i \<in> alive w \<Longrightarrow> mp_inv (on_proc record_broker_preload i (raise_broker i w))"
  by (rule mp_inv_record [where b = "fresh_pid w"]) (simp_all add: mp_inv_raise_broker)

lemma mp_inv_fork:
  assumes "mp_inv w" "i \<in> alive w"
  shows "mp_inv ((put (fresh_pid w) ((procs w i)\<lparr>my_pid := fresh_pid w\<rparr>) w)
     \<lparr>alive := insert (fresh_pid w) (alive w), fresh_pid := fresh_pid w + 1\<rparr>)" (is "mp_inv ?w")
  unfolding mp_inv_def
proof (intro conjI ballI allI impI)
  fix k assume k: "k \<in> alive ?w"
  show "proc_inv ?w k"
  proof (cases "k = fresh_pid w")
    case True
    have "proc_inv w i" using assms by (simp add: mp_inv_def)
    moreover have "started_by w b \<noteq> Some (fresh_pid w)" for b
      using assms(1) by (auto simp: mp_inv_def)
    ultimately show ?thesis unfolding True by (auto simp: proc_inv_def put_def)
  next
    case False
    then have "k \<in> alive w" using k by simp
    then have "proc_inv w k" using assms(1) by (simp add: mp_inv_def)
    then show ?thesis by (rule proc_inv_frame) (simp_all add: put_def False)
  qed
qed (use assms in \<open>auto simp: mp_inv_def put_def less_Suc_eq\<close>)

text \<open>A step that leaves a process's view of its broker alone and only extends the preload list.\<close>

lemma mp_inv_grow:
  assumes "mp_inv w" "i \<in> alive w"
    and "my_pid (f (procs w i)) = my_pid (procs w i)" "live_pid (f (procs w i)) = live_pid (procs w i)"
    and "broker_record (f (procs w i)) = broker_record (procs w i)"
    and "preload_modules (procs w i) \<subseteq> preload_modules (f (procs w i))"
  shows "mp_inv (on_proc f i w)"
proof (rule mp_inv_on_proc [OF assms(1,2)])
  have "proc_inv w i" using assms(1,2) by (simp add: mp_inv_def)
  with assms(3-6) show "proc_inv (on_proc f i w) i" unfolding proc_inv_def on_proc_frame by auto
qed

lemma mp_inv_step: "mp_step w w' \<Longrightarrow> mp_inv w \<Longrightarrow> mp_inv w'"
proof (induction rule: mp_step.induct)
  case (apply_preload i w names)
  then show ?case by (intro mp_inv_grow) (auto simp: apply_forkserver_preload_def Let_def)
next
  case (inherited_worker i w b)
  then have "mp_inv (on_proc reset_inherited_forkserver i w)"
    by (intro mp_inv_on_proc) (auto simp: mp_inv_def proc_inv_def reset_inherited_forkserver_def)
  with inherited_worker.hyps show ?case by (intro mp_inv_first_worker) auto
next
  case (other_preload i w ns)
  then show ?case by (intro mp_inv_grow) auto
next
  case (fork i w)
  then show ?case by (intro mp_inv_fork)
qed (auto intro: mp_inv_first_worker mp_inv_record mp_inv_raise_broker)

lemma mp_reach_inv: "mp_reach w \<Longrightarrow> mp_inv w"
  by (induction rule: mp_reach.induct) (auto intro: mp_inv_init mp_inv_step)

section \<open>Descriptors of a forked worker\<close>

text \<open>
  A descriptor table maps numbers to what they refer to. \<open>dup_ok\<close> tells whether
  \<open>dup2\<close> onto a number succeeds: an at-fork hook may have closed it.
\<close>

datatype 'r resource = DevNull | Host 'r

type_synonym 'r fd_table = "(nat, 'r resource) dict"

fun neutralize_loop :: "(nat \<Rightarrow> bool) \<Rightarrow> nat \<Rightarrow> nat list \<Rightarrow> 'r fd_table \<Rightarrow> 'r fd_table" where
  "neutralize_loop dup_ok devnull [] t = t"
| "neutralize_loop dup_ok devnull (fd # fds) t =
     neutralize_loop dup_ok devnull fds
       (if fd = devnull \<or> \<not> dup_ok fd then t else dset fd DevNull t)"

text \<open>\<open>devnull\<close> is the number \<open>os.open\<close> returned: one that was free.\<close>

definition neutralize_inherited_fds :: "(nat \<Rightarrow> bool) \<Rightarrow> nat \<Rightarrow> nat list \<Rightarrow> 'r fd_table \<Rightarrow> 'r fd_table" where
  "neutralize_inherited_fds dup_ok devnull fds t =
     (if fds = [] then t
      else
        (let t1 = neutralize_loop dup_ok devnull fds (dset devnull DevNull t)
         in if devnull \<notin> set fds then dpop devnull t1 else t1))"

text \<open>
  The numbers open before any worker plumbing: one directory listing whose entries
  are numbers above 2 that \<open>fstat\<close> accepts; no readable directory is an error.
\<close>

definition descriptor_numbers :: "(nat \<Rightarrow> bool) \<Rightarrow> nat option list \<Rightarrow> nat list" where
  "descriptor_numbers fstat_ok names =
     filter (\<lambda>fd. fd > 2 \<and> fstat_ok fd) (List.map_filter id names)"

fun open_file_descriptors :: "(nat \<Rightarrow> bool) \<Rightarrow> nat option list option list \<Rightarrow> nat list res" where
  "open_file_descriptors fstat_ok [] =
     Inl (Exc RuntimeError ''Cannot enumerate open file descriptors for forked worker'')"
| "open_file_descriptors fstat_ok (Some names # dirs) = Inr (descriptor_numbers fstat_ok names)"
| "open_file_descriptors fstat_ok (None # dirs) = open_file_descriptors fstat_ok dirs"

lemma neutralize_loop_lookup:
  "dget (neutralize_loop dup_ok devnull fds t) n =
     (if n \<in> set fds \<and> n \<noteq> devnull \<and> dup_ok n then Some DevNull else dget t n)"
  by (induction dup_ok devnull fds t rule: neutralize_loop.induct) auto

section \<open>Properties\<close>

text \<open>
  A worker that died before it was ready is blamed on forking exactly when it
  was forked and died of a crash signal; every other death is a \<open>RuntimeError\<close>
  with the cause in its message.
\<close>

theorem init_death_classified:
  "err_class (init_death_error sg threads p start_method) =
     (if start_method = ''fork'' \<and> (\<exists>code. p = Some (Some code) \<and> - code \<in> set (CRASH_SIGNALS sg) \<and> code < 0)
      then StForkUnsafe else RuntimeError)
   \<and> (\<exists>u v. err_msg (init_death_error sg threads p start_method) = u @ describe_exit sg p @ v)"
proof
  show "err_class (init_death_error sg threads p start_method) =
     (if start_method = ''fork'' \<and> (\<exists>code. p = Some (Some code) \<and> - code \<in> set (CRASH_SIGNALS sg) \<and> code < 0)
      then StForkUnsafe else RuntimeError)"
    by (auto simp: init_death_error_def exit_signal_def fork_unsafe_error_def native_crash_error_def Let_def
        split: option.splits if_splits)
  have "\<exists>v. err_msg (init_death_error sg threads p start_method)
      = ''Worker process died during initialisation -- '' @ describe_exit sg p @ v"
    unfolding init_death_error_def fork_unsafe_error_def native_crash_error_def Let_def
    by (cases "start_method = ''fork''") auto
  then show "\<exists>u v. err_msg (init_death_error sg threads p start_method) = u @ describe_exit sg p @ v"
    by blast
qed

text \<open>
  In every state that forking, starting workers, resetting inherited brokers and
  asking for preloads can lead to, a preload warning is true: each module it names is
  missing from the broker this process uses, which this process started itself.
\<close>

theorem preload_warning_true:
  assumes "mp_reach w" and "i \<in> alive w"
    and "preload_warned (apply_forkserver_preload names (procs w i)) = preload_warned (procs w i) @ missing"
    and "m \<in> set missing"
  shows "\<exists>b. live_pid (procs w i) = Some b \<and> started_by w b = Some i \<and> m \<notin> broker_loaded w b \<and> m \<in> set names"
proof -
  have inv: "proc_inv w i" using mp_reach_inv [OF assms(1)] assms(2) by (simp add: mp_inv_def)
  obtain ld where ld: "active_broker_preload (procs w i) = Some ld" "m \<in> set names - ld"
    using assms(3,4) by (auto simp: apply_forkserver_preload_def Let_def split: option.splits)
  then obtain b where "broker_record (procs w i) = Some (i, b, ld)" "live_pid (procs w i) = Some b"
    using inv by (auto simp: active_broker_preload_def proc_inv_def split: option.splits if_splits)
  with inv ld(2) show ?thesis by (auto simp: proc_inv_def)
qed

definition ex_mp :: mp_world where
  "ex_mp =
     \<lparr>procs = (\<lambda>i. \<lparr>my_pid = i, broker_record = None, live_pid = None, preload_modules = {''__main__''},
                   preload_warned = []\<rparr>),
      alive = {0}, started_by = (\<lambda>_. None), broker_loaded = (\<lambda>_. {}), fresh_pid = 1\<rparr>"

definition ex_mp1 :: mp_world where
  "ex_mp1 = on_proc record_broker_preload 0 (raise_broker 0 ex_mp)"

lemma ex_mp1_reach: "mp_reach ex_mp1"
  unfolding ex_mp1_def
  by (rule mp_reach.step [OF mp_reach.start [of ex_mp] mp_step.first_worker])
    (simp_all add: mp_init_def ex_mp_def)

theorem preload_warning_witness:
  "preload_warned (apply_forkserver_preload [''numpy''] (procs ex_mp1 0)) = [''numpy'']
   \<and> (\<exists>b. live_pid (procs ex_mp1 0) = Some b \<and> ''numpy'' \<notin> broker_loaded ex_mp1 b)"
proof -
  have w: "preload_warned (apply_forkserver_preload [''numpy''] (procs ex_mp1 0))
      = preload_warned (procs ex_mp1 0) @ [''numpy'']"
    by (simp add: ex_mp1_def ex_mp_def apply_forkserver_preload_def active_broker_preload_def
        record_broker_preload_def)
  have none: "preload_warned (procs ex_mp1 0) = []"
    by (simp add: ex_mp1_def ex_mp_def record_broker_preload_def)
  have "0 \<in> alive ex_mp1" by (simp add: ex_mp1_def ex_mp_def)
  from preload_warning_true [OF ex_mp1_reach this w, of "''numpy''"] w none show ?thesis by auto
qed

text \<open>
  A forked worker that neutralizes the descriptors it inherited gives up every
  host resource among them that is still open, leaves every other descriptor as
  it was, and keeps no descriptor of its own for it.
\<close>

theorem neutralized_fds:
  assumes "dget t devnull = None" and "\<forall>fd \<in> set fds. dget t fd \<noteq> None \<longrightarrow> dup_ok fd"
  shows "dget (neutralize_inherited_fds dup_ok devnull fds t) n =
    (if n \<in> set fds \<and> (dget t n \<noteq> None \<or> dup_ok n \<or> n = devnull) then Some DevNull else dget t n)"
  using assms by (auto simp: neutralize_inherited_fds_def neutralize_loop_lookup Let_def)

theorem neutralized_fds_witness:
  "dget (neutralize_inherited_fds (\<lambda>_. True) 5 [3, 4] [(3, Host ''db''), (4, Host ''log''), (9, Host ''pipe'')]) 3
     = Some DevNull
   \<and> dget (neutralize_inherited_fds (\<lambda>_. True) 5 [3, 4] [(3, Host ''db''), (4, Host ''log''), (9, Host ''pipe'')]) 9
     = Some (Host ''pipe'')"
  using neutralized_fds [of "[(3, Host ''db''), (4, Host ''log''), (9, Host ''pipe'')]" 5 "[3, 4]" "\<lambda>_. True"]
  by simp

end
