(* ===== verification/Lifecycle.thy ===== *)
theory Lifecycle
  imports Broker
begin

text \<open>
  The life of a \<open>ProcessSandbox\<close> (\<open>process/sandbox.py\<close>): starting, preparing,
  killing and shutting down its worker, waiting for a result, and answering the
  worker's calls. What the operating system and the worker do is an argument of
  each operation: the outcome of creating the pipe and the process, the first
  message, whether the worker is alive, the messages that arrive and when.
\<close>

section \<open>State\<close>

text \<open>
  A worker process is alive or has an exit code. A connection is a number; the
  set of parent-side connections is the module's \<open>_PARENT_CONNECTIONS\<close>.
\<close>

datatype worker = Alive | Exited "int option"

record psb =
  ps_process :: "worker option"
  ps_conn :: "nat option"
  ps_started :: bool
  ps_generation :: nat
  ps_in_hook :: bool
  ps_status :: "isolation_status option"
  ps_spool_dir :: "string option"
  ps_parents :: "nat set"

record psb_config =
  cf_isolation :: isolation_mode
  cf_allow_degraded :: bool
  cf_start_method :: string
  cf_spool :: bool
  cf_close_fds :: bool

definition new_psb :: psb where
  "new_psb = \<lparr>ps_process = None, ps_conn = None, ps_started = False, ps_generation = 0,
     ps_in_hook = False, ps_status = None, ps_spool_dir = None, ps_parents = {}\<rparr>"

section \<open>Ending a worker\<close>

definition ps_cleanup :: "psb \<Rightarrow> psb" where
  "ps_cleanup s =
     (case ps_conn s of
        Some c \<Rightarrow> s\<lparr>ps_parents := ps_parents s - {c}, ps_conn := None, ps_process := None\<rparr>
      | None \<Rightarrow> s\<lparr>ps_process := None\<rparr>)"

text \<open>Killing sends the signal to a live worker first; cleaning up forgets it either way.\<close>

definition ps_kill :: "psb \<Rightarrow> psb" where
  "ps_kill s = ps_cleanup s"

definition ps_remove_spool_dir :: "psb \<Rightarrow> psb" where
  "ps_remove_spool_dir s = s\<lparr>ps_spool_dir := None\<rparr>"

text \<open>\<open>fresh_dir\<close> is what \<open>mkdtemp\<close> would give or raise.\<close>

definition ps_ensure_spool_dir :: "psb_config \<Rightarrow> string res \<Rightarrow> psb \<Rightarrow> psb res" where
  "ps_ensure_spool_dir cf fresh_dir s =
     (if \<not> cf_spool cf \<or> ps_spool_dir s \<noteq> None then Inr s
      else rbind fresh_dir (\<lambda>d. Inr (s\<lparr>ps_spool_dir := Some d\<rparr>)))"

definition ps_shutdown :: "psb \<Rightarrow> psb" where
  "ps_shutdown s = ps_remove_spool_dir (ps_cleanup (s\<lparr>ps_started := False\<rparr>))"

section \<open>Starting a worker\<close>

text \<open>The first message of a worker, or its absence.\<close>

datatype first_msg =
    NotReady
  | Eof worker_exit
  | WorkerError string
  | Ready "isolation_status option"
  | OtherMsg string

text \<open>
  What the system answers to one start: the descriptors open beforehand, the pipe
  (a connection number that is not in use), the process (an exception with its
  error number, and what a second attempt gives), the spool directory that would
  be made and the first message.
\<close>

record spawn =
  sp_fds :: "nat list res"
  sp_pipe :: "os_failure + nat"
  sp_start :: "os_failure + unit"
  sp_retry :: "os_failure + unit"
  sp_fresh_dir :: "string res"
  sp_first :: first_msg
  sp_signals :: signals
  sp_threads :: nat
  sp_errno :: "string \<Rightarrow> int"

definition os_error :: "(string \<Rightarrow> int) \<Rightarrow> string \<Rightarrow> os_failure \<Rightarrow> pyerr" where
  "os_error errno what f =
     (if refuses_workers errno f then no_process_isolation what f else (case f of OsErr _ e \<Rightarrow> e))"

definition first_contact :: "psb_config \<Rightarrow> spawn \<Rightarrow> psb \<Rightarrow> unit res \<times> psb" where
  "first_contact cf sp s =
     (case sp_first sp of
        NotReady \<Rightarrow> (Inl (Exc RuntimeError ''Worker did not become ready within timeout''), ps_kill s)
      | Eof ex \<Rightarrow> (Inl (init_death_error (sp_signals sp) (sp_threads sp) ex (cf_start_method cf)), ps_kill s)
      | WorkerError m \<Rightarrow> (Inl (Exc RuntimeError (''Worker failed to initialise:'' @ m)), ps_kill s)
      | OtherMsg m \<Rightarrow> (Inl (Exc RuntimeError (''Unexpected message from worker: '' @ m)), ps_kill s)
      | Ready st \<Rightarrow>
          (let s = s\<lparr>ps_status := st\<rparr> in
           case verify_isolation (cf_isolation cf) (cf_allow_degraded cf) st of
             Inl e \<Rightarrow> (Inl e, ps_kill s)
           | Inr _ \<Rightarrow> (Inr (), s\<lparr>ps_generation := ps_generation s + 1\<rparr>)))"

text \<open>
  The start hook: any use of the sandbox, given as a function on its state with the
  hook flag set. A hook that raises, or leaves the worker dead, fails the start.
\<close>

type_synonym hook = "psb \<Rightarrow> unit res \<times> psb"

definition run_start_hook :: "hook \<Rightarrow> psb \<Rightarrow> unit res \<times> psb" where
  "run_start_hook hook s =
     (case hook (s\<lparr>ps_in_hook := True\<rparr>) of
        (Inl e, s1) \<Rightarrow> (Inl e, (ps_kill s1)\<lparr>ps_in_hook := False\<rparr>)
      | (Inr _, s1) \<Rightarrow>
          (if ps_process s1 \<noteq> Some Alive
           then (Inl (Exc RuntimeError ''Worker process died while on_worker_start ran''),
                 (ps_kill s1)\<lparr>ps_in_hook := False\<rparr>)
           else (Inr (), s1\<lparr>ps_in_hook := False\<rparr>)))"

text \<open>
  A broker pid inherited from another process makes the first attempt fail with
  \<open>ChildProcessError\<close>; the inherited state is dropped and the start retried once.
\<close>

definition start_process :: "spawn \<Rightarrow> os_failure + unit" where
  "start_process sp =
     (case sp_start sp of
        Inl (OsErr no e) \<Rightarrow> if err_class e = ChildProcessError then sp_retry sp else Inl (OsErr no e)
      | Inr u \<Rightarrow> Inr u)"

text \<open>
  The registry of parent connections holds weak references: a connection whose
  worker was never started leaves it with the frame that made it.
\<close>

definition spawn_worker :: "psb_config \<Rightarrow> spawn \<Rightarrow> psb \<Rightarrow> unit res \<times> psb" where
  "spawn_worker cf sp s =
     (case (if cf_close_fds cf \<and> cf_start_method cf = ''fork'' then sp_fds sp else Inr []) of
        Inl e \<Rightarrow> (Inl e, s)
      | Inr _ \<Rightarrow>
     (case sp_pipe sp of
        Inl f \<Rightarrow> (Inl (os_error (sp_errno sp) ''create the parent-worker pipe'' f), s)
      | Inr c \<Rightarrow>
     (case ps_ensure_spool_dir cf (sp_fresh_dir sp) s of
        Inl e \<Rightarrow> (Inl e, s)
      | Inr s1 \<Rightarrow>
     (case start_process sp of
        Inl f \<Rightarrow>
          (Inl (os_error (sp_errno sp) ''start the worker process'' f),
           s1\<lparr>ps_parents := ps_parents s1 - {c}, ps_process := None\<rparr>)
      | Inr _ \<Rightarrow>
          first_contact cf sp (s1\<lparr>ps_parents := insert c (ps_parents s1), ps_conn := Some c,
                                  ps_process := Some Alive\<rparr>)))))"

definition ensure_worker :: "psb_config \<Rightarrow> spawn \<Rightarrow> hook option \<Rightarrow> psb \<Rightarrow> unit res \<times> psb" where
  "ensure_worker cf sp hook s =
     (if ps_process s = Some Alive then (Inr (), s)
      else if ps_in_hook s
      then (Inl (Exc RuntimeError ''Worker process died while on_worker_start ran''), s)
      else
        (case spawn_worker cf sp (if ps_process s \<noteq> None then ps_cleanup s else s) of
           (Inl e, s1) \<Rightarrow> (Inl e, s1)
         | (Inr _, s1) \<Rightarrow>
             (case hook of
                None \<Rightarrow> (Inr (), s1)
              | Some h \<Rightarrow> run_start_hook h s1)))"

definition ps_enter :: "psb_config \<Rightarrow> spawn \<Rightarrow> hook option \<Rightarrow> psb \<Rightarrow> unit res \<times> psb" where
  "ps_enter cf sp hook s =
     (case ensure_worker cf sp hook (s\<lparr>ps_started := True\<rparr>) of
        (Inl e, s1) \<Rightarrow> (Inl e, s1\<lparr>ps_started := False\<rparr>)
      | (Inr _, s1) \<Rightarrow> (Inr (), s1))"

text \<open>The guard of \<open>exec\<close>, after its arguments have been validated.\<close>

definition exec_start :: "psb_config \<Rightarrow> spawn \<Rightarrow> hook option \<Rightarrow> psb \<Rightarrow> unit res \<times> psb" where
  "exec_start cf sp hook s =
     (if \<not> ps_started s then (Inl (Exc RuntimeError ''Worker process is not running.''), s)
      else
        (case ensure_worker cf sp hook s of
           (Inl e, s1) \<Rightarrow> (Inl e, s1)
         | (Inr _, s1) \<Rightarrow>
             if ps_conn s1 = None then (Inl (Exc RuntimeError ''No connection to worker process''), s1)
             else (Inr (), s1)))"

section \<open>The invariant of a sandbox\<close>

definition verified :: "psb_config \<Rightarrow> psb \<Rightarrow> bool" where
  "verified cf s =
     (cf_isolation cf = Iso_auto \<and> \<not> cf_allow_degraded cf \<longrightarrow>
        (\<exists>st. ps_status s = Some st \<and> \<not> degraded st))"

text \<open>
  There is a connection exactly when there is a worker, it is the only one
  registered for this sandbox, and the worker's isolation has been accepted.
\<close>

definition psb_inv :: "psb_config \<Rightarrow> psb \<Rightarrow> bool" where
  "psb_inv cf s \<longleftrightarrow>
     (ps_conn s = None \<longleftrightarrow> ps_process s = None)
     \<and> ps_parents s = set_option (ps_conn s)
     \<and> (ps_process s \<noteq> None \<longrightarrow> verified cf s)"

text \<open>
  A hook may use the sandbox in any way that keeps the invariant; while it runs no
  other worker can be started, so the generation stays.
\<close>

definition hook_ok :: "psb_config \<Rightarrow> hook \<Rightarrow> bool" where
  "hook_ok cf h \<longleftrightarrow>
     (\<forall>s r s'. psb_inv cf s \<and> ps_in_hook s \<and> h s = (r, s') \<longrightarrow>
        psb_inv cf s' \<and> ps_in_hook s' \<and> ps_generation s' = ps_generation s)"

definition hooks_ok :: "psb_config \<Rightarrow> hook option \<Rightarrow> bool" where
  "hooks_ok cf h = (case h of None \<Rightarrow> True | Some k \<Rightarrow> hook_ok cf k)"

lemmas ps_end_defs = ps_cleanup_def ps_kill_def ps_shutdown_def ps_remove_spool_dir_def

lemma cleanup_inv: "ps_parents s = set_option (ps_conn s) \<Longrightarrow> psb_inv cf (ps_cleanup s)"
  by (auto simp: psb_inv_def ps_end_defs split: option.splits)

lemma cleanup_gone [simp]:
  "ps_process (ps_cleanup s) = None" "ps_conn (ps_cleanup s) = None"
  "ps_started (ps_cleanup s) = ps_started s" "ps_generation (ps_cleanup s) = ps_generation s"
  "ps_in_hook (ps_cleanup s) = ps_in_hook s" "ps_spool_dir (ps_cleanup s) = ps_spool_dir s"
  by (auto simp: ps_end_defs split: option.splits)

lemma psb_inv_cong:
  "ps_conn s = ps_conn s' \<Longrightarrow> ps_process s = ps_process s' \<Longrightarrow> ps_parents s = ps_parents s' \<Longrightarrow>
   ps_status s = ps_status s' \<Longrightarrow> psb_inv cf s = psb_inv cf s'"
  by (simp add: psb_inv_def verified_def)

lemma cleanup_parents: "ps_parents s = set_option (ps_conn s) \<Longrightarrow> ps_parents (ps_cleanup s) = {}"
  by (auto simp: ps_end_defs split: option.splits)

lemma first_contact_effect:
  assumes "first_contact cf sp s = (r, s')" "ps_process s = Some Alive" "ps_conn s = Some c" "ps_parents s = {c}"
  shows "psb_inv cf s' \<and> ps_in_hook s' = ps_in_hook s \<and> ps_started s' = ps_started s
    \<and> (case r of
         Inl _ \<Rightarrow> ps_process s' = None \<and> ps_generation s' = ps_generation s
       | Inr _ \<Rightarrow> ps_process s' = Some Alive \<and> ps_generation s' = ps_generation s + 1)"
proof -
  have kill: "psb_inv cf (ps_kill (s\<lparr>ps_status := st\<rparr>))" "psb_inv cf (ps_kill s)" for st
    using assms(3,4) by (simp_all add: ps_kill_def cleanup_inv)
  have ok: "verified cf (s\<lparr>ps_status := st\<rparr>)" if "verify_isolation (cf_isolation cf) (cf_allow_degraded cf) st = Inr ws" for st ws
    unfolding verified_def
  proof (intro impI, elim conjE)
    assume "cf_isolation cf = Iso_auto" "\<not> cf_allow_degraded cf"
    with that have "verify_isolation Iso_auto False st = Inr ws" by simp
    then obtain i where "st = Some i" "\<not> degraded i" by (rule verify_isolation_ok)
    then show "\<exists>i. ps_status (s\<lparr>ps_status := st\<rparr>) = Some i \<and> \<not> degraded i" by simp
  qed
  show ?thesis
  proof (cases "sp_first sp")
    case (Ready st)
    show ?thesis
    proof (cases "verify_isolation (cf_isolation cf) (cf_allow_degraded cf) st")
      case (Inl e)
      with Ready assms(1) kill(1) [of st] show ?thesis
        by (auto simp: first_contact_def ps_kill_def)
    next
      case (Inr ws)
      then have "s' = s\<lparr>ps_status := st, ps_generation := ps_generation s + 1\<rparr>" "r = Inr ()"
        using Ready assms(1) by (auto simp: first_contact_def Let_def)
      moreover have "psb_inv cf (s\<lparr>ps_status := st, ps_generation := ps_generation s + 1\<rparr>)"
        using ok [OF Inr] assms(2-4) by (simp add: psb_inv_def verified_def)
      ultimately show ?thesis using assms(2) by simp
    qed
  qed (use assms(1) kill(2) in \<open>auto simp: first_contact_def ps_kill_def\<close>)
qed

lemma spawn_worker_effect:
  assumes "spawn_worker cf sp s = (r, s')" "psb_inv cf s" "ps_process s = None"
  shows "psb_inv cf s' \<and> ps_in_hook s' = ps_in_hook s \<and> ps_started s' = ps_started s
    \<and> (case r of
         Inl _ \<Rightarrow> ps_process s' = None \<and> ps_generation s' = ps_generation s
       | Inr _ \<Rightarrow> ps_process s' = Some Alive \<and> ps_generation s' = ps_generation s + 1)"
proof -
  have none: "ps_conn s = None" "ps_parents s = {}" using assms(2,3) by (auto simp: psb_inv_def)
  show ?thesis
  proof (cases "\<exists>c s1. sp_pipe sp = Inr c \<and> ps_ensure_spool_dir cf (sp_fresh_dir sp) s = Inr s1
      \<and> start_process sp = Inr ()
      \<and> (cf_close_fds cf \<and> cf_start_method cf = ''fork'' \<longrightarrow> (\<exists>l. sp_fds sp = Inr l))")
    case False
    with assms none show ?thesis
      by (auto simp: spawn_worker_def ps_ensure_spool_dir_def res_simps psb_inv_def
          split: sum.splits if_splits)
  next
    case True
    then obtain c s1 where c: "sp_pipe sp = Inr c" "ps_ensure_spool_dir cf (sp_fresh_dir sp) s = Inr s1"
      "start_process sp = Inr ()"
      and fds: "cf_close_fds cf \<and> cf_start_method cf = ''fork'' \<longrightarrow> (\<exists>l. sp_fds sp = Inr l)"
      by blast
    then have same: "ps_in_hook s1 = ps_in_hook s" "ps_started s1 = ps_started s"
      "ps_generation s1 = ps_generation s" "ps_parents s1 = {}"
      using none by (auto simp: ps_ensure_spool_dir_def res_simps split: if_splits)
    have "first_contact cf sp (s1\<lparr>ps_parents := insert c (ps_parents s1), ps_conn := Some c, ps_process := Some Alive\<rparr>) = (r, s')"
      using assms(1) c fds by (auto simp: spawn_worker_def split: if_splits)
    from first_contact_effect [OF this] same show ?thesis by (cases r) auto
  qed
qed

lemma run_start_hook_effect:
  assumes "run_start_hook h s = (r, s')" "hook_ok cf h" "psb_inv cf s"
  shows "psb_inv cf s' \<and> \<not> ps_in_hook s' \<and> ps_generation s' = ps_generation s
    \<and> (case r of Inl _ \<Rightarrow> ps_process s' = None | Inr _ \<Rightarrow> ps_process s' = Some Alive)"
proof -
  obtain q s1 where q: "h (s\<lparr>ps_in_hook := True\<rparr>) = (q, s1)" by fastforce
  have "psb_inv cf (s\<lparr>ps_in_hook := True\<rparr>)" using assms(3) by (simp cong: psb_inv_cong)
  with assms(2) q have s1: "psb_inv cf s1" "ps_generation s1 = ps_generation s"
    unfolding hook_ok_def by (metis psb.select_convs(4,5) psb.surjective psb.update_convs(5))+
  have "psb_inv cf ((ps_kill s1)\<lparr>ps_in_hook := False\<rparr>)" "psb_inv cf (s1\<lparr>ps_in_hook := False\<rparr>)"
    using s1(1) cleanup_inv [of s1 cf] by (auto simp: psb_inv_def ps_kill_def verified_def)
  with assms(1) q s1 show ?thesis
    by (auto simp: run_start_hook_def ps_kill_def split: sum.splits if_splits)
qed

lemma ensure_worker_effect:
  assumes run: "ensure_worker cf sp h s = (r, s')" and inv: "psb_inv cf s" and "hooks_ok cf h"
  shows "psb_inv cf s'
    \<and> ps_generation s \<le> ps_generation s'
    \<and> (case r of
         Inl _ \<Rightarrow> ps_in_hook s \<or> ps_process s' = None
       | Inr _ \<Rightarrow> ps_process s' = Some Alive \<and>
           ps_generation s' = ps_generation s + (if ps_process s = Some Alive then 0 else 1))
    \<and> (ps_in_hook s' \<longrightarrow> ps_in_hook s \<and> ps_generation s' = ps_generation s)"
proof (cases "ps_process s = Some Alive \<or> ps_in_hook s")
  case True
  with run inv show ?thesis by (auto simp: ensure_worker_def split: if_splits)
next
  case False
  let ?s = "if ps_process s \<noteq> None then ps_cleanup s else s"
  have s0: "psb_inv cf ?s" "ps_process ?s = None" "ps_generation ?s = ps_generation s" "ps_in_hook ?s = ps_in_hook s"
    using inv cleanup_inv [of s cf] by (auto simp: psb_inv_def)
  obtain q s1 where q: "spawn_worker cf sp ?s = (q, s1)" by fastforce
  note eff = spawn_worker_effect [OF q s0(1,2)]
  show ?thesis
  proof (cases q)
    case (Inl e)
    with q run False eff s0 show ?thesis by (auto simp: ensure_worker_def)
  next
    case (Inr u)
    show ?thesis
    proof (cases h)
      case None
      with Inr q run False eff s0 show ?thesis by (auto simp: ensure_worker_def)
    next
      case (Some k)
      then have "run_start_hook k s1 = (r, s')" using Inr q run False by (simp add: ensure_worker_def)
      from run_start_hook_effect [OF this] Some assms(3) eff Inr s0 False show ?thesis
        by (cases r) (auto simp: hooks_ok_def)
    qed
  qed
qed

section \<open>What a start hook can do\<close>

text \<open>
  A start hook uses the sandbox through its methods, and its worker may die under
  it; whatever it decides on, one run of it is a sequence of these and a result.
  Inside a hook no worker is started, so the calls pass no hook of their own.
\<close>

datatype hook_action =
    HExec spawn
  | HEnter spawn
  | HDied "int option"
  | HGiveUp
  | HShutdown

fun hook_act :: "psb_config \<Rightarrow> hook_action \<Rightarrow> psb \<Rightarrow> psb" where
  "hook_act cf (HExec sp) s = snd (exec_start cf sp None s)"
| "hook_act cf (HEnter sp) s = snd (ps_enter cf sp None s)"
| "hook_act cf (HDied code) s = (if ps_process s = Some Alive then s\<lparr>ps_process := Some (Exited code)\<rparr> else s)"
| "hook_act cf HGiveUp s = ps_kill s"
| "hook_act cf HShutdown s = ps_shutdown s"

definition hook_of :: "psb_config \<Rightarrow> hook_action list \<times> unit res \<Rightarrow> hook" where
  "hook_of cf prog s = (snd prog, fold (hook_act cf) (fst prog) s)"

section \<open>Reachable states\<close>

text \<open>
  What can happen to a sandbox outside a start hook: entering it, an execution
  that gets a worker, the worker dying at any moment, the host giving up on it
  (dead, unresponsive), and shutting down.
\<close>

inductive ps_step :: "psb_config \<Rightarrow> psb \<Rightarrow> psb \<Rightarrow> bool" for cf where
  enter: "ps_enter cf sp (map_option (hook_of cf) prog) s = (r, s') \<Longrightarrow> ps_step cf s s'"
| exec: "exec_start cf sp (map_option (hook_of cf) prog) s = (r, s') \<Longrightarrow> ps_step cf s s'"
| died: "ps_process s = Some Alive \<Longrightarrow> ps_step cf s (s\<lparr>ps_process := Some (Exited code)\<rparr>)"
| give_up: "ps_step cf s (ps_kill s)"
| shutdown: "ps_step cf s (ps_shutdown s)"

inductive ps_reach :: "psb_config \<Rightarrow> psb \<Rightarrow> bool" for cf where
  start: "ps_reach cf new_psb"
| step: "ps_reach cf s \<Longrightarrow> ps_step cf s s' \<Longrightarrow> ps_reach cf s'"

lemma ensure_worker_in_hook:
  "ps_in_hook s \<Longrightarrow> snd (ensure_worker cf sp h s) = s"
  by (simp add: ensure_worker_def)

lemma exec_start_in_hook:
  "ps_in_hook s \<Longrightarrow> snd (exec_start cf sp h s) = s"
  using ensure_worker_in_hook [of s cf sp h]
  by (auto simp: exec_start_def split: prod.splits sum.splits)

lemma enter_in_hook:
  "ps_in_hook s \<Longrightarrow> \<exists>b. snd (ps_enter cf sp h s) = s\<lparr>ps_started := b\<rparr>"
  using ensure_worker_in_hook [of "s\<lparr>ps_started := True\<rparr>" cf sp h]
  by (auto simp: ps_enter_def split: prod.splits sum.splits)

lemma shutdown_inv: "psb_inv cf s \<Longrightarrow> psb_inv cf (ps_shutdown s)"
  using cleanup_inv [of "s\<lparr>ps_started := False\<rparr>" cf]
  by (simp add: ps_shutdown_def ps_remove_spool_dir_def psb_inv_def verified_def)

lemma hook_act_keeps:
  assumes "psb_inv cf s" "ps_in_hook s"
  shows "psb_inv cf (hook_act cf a s) \<and> ps_in_hook (hook_act cf a s)
    \<and> ps_generation (hook_act cf a s) = ps_generation s"
proof (cases a)
  case (HEnter sp)
  then show ?thesis using assms enter_in_hook [of s cf sp None] by (auto simp: psb_inv_def verified_def)
next
  case HGiveUp
  then show ?thesis using assms cleanup_inv [of s cf] by (simp add: ps_kill_def psb_inv_def)
next
  case HShutdown
  then show ?thesis using assms shutdown_inv [of cf s] by (simp add: ps_shutdown_def ps_remove_spool_dir_def)
qed (use assms in \<open>auto simp: exec_start_in_hook psb_inv_def verified_def\<close>)

lemma hook_of_ok: "hook_ok cf (hook_of cf prog)"
proof -
  have "psb_inv cf (fold (hook_act cf) acts s) \<and> ps_in_hook (fold (hook_act cf) acts s)
      \<and> ps_generation (fold (hook_act cf) acts s) = ps_generation s"
    if "psb_inv cf s" "ps_in_hook s" for acts s
    using that hook_act_keeps by (induction acts arbitrary: s) force+
  then show ?thesis by (auto simp: hook_ok_def hook_of_def)
qed

lemma hooks_of_ok [simp]: "hooks_ok cf (map_option (hook_of cf) prog)"
  by (cases prog) (simp_all add: hooks_ok_def hook_of_ok)

lemma enter_inv:
  assumes "ps_enter cf sp h s = (r, s')" "psb_inv cf s" "\<not> ps_in_hook s" "hooks_ok cf h"
  shows "psb_inv cf s' \<and> \<not> ps_in_hook s'"
proof -
  obtain q s1 where q: "ensure_worker cf sp h (s\<lparr>ps_started := True\<rparr>) = (q, s1)" by fastforce
  have "psb_inv cf (s\<lparr>ps_started := True\<rparr>)" using assms(2) by (simp add: psb_inv_def verified_def)
  from ensure_worker_effect [OF q this assms(4)] assms(1,3) q show ?thesis
    by (cases q) (auto simp: ps_enter_def psb_inv_def verified_def)
qed

lemma exec_start_effect:
  assumes "exec_start cf sp h s = (r, s')" "psb_inv cf s" "hooks_ok cf h"
  shows "psb_inv cf s' \<and> (ps_in_hook s' \<longrightarrow> ps_in_hook s)
    \<and> (r = Inr () \<longrightarrow> ps_started s \<and> ps_process s' = Some Alive \<and> ps_conn s' \<noteq> None
        \<and> ps_generation s' = ps_generation s + (if ps_process s = Some Alive then 0 else 1))"
proof (cases "ps_started s")
  case True
  obtain q s1 where q: "ensure_worker cf sp h s = (q, s1)" by fastforce
  from ensure_worker_effect [OF q assms(2,3)] assms(1) q True show ?thesis
    by (cases q) (auto simp: exec_start_def psb_inv_def split: if_splits)
qed (use assms in \<open>auto simp: exec_start_def\<close>)

lemma ps_reach_inv: "ps_reach cf s \<Longrightarrow> psb_inv cf s \<and> \<not> ps_in_hook s"
proof (induction rule: ps_reach.induct)
  case start
  show ?case by (simp add: psb_inv_def new_psb_def)
next
  case (step s s')
  from step.hyps(2) step.IH show ?case
  proof (induction rule: ps_step.induct)
    case (enter sp prog s r s')
    then show ?case using enter_inv hooks_of_ok by blast
  next
    case (exec sp prog s r s')
    then show ?case using exec_start_effect hooks_of_ok by blast
  next
    case (shutdown s)
    then show ?case using shutdown_inv [of cf s] by (simp add: ps_shutdown_def ps_remove_spool_dir_def)
  next
    case (give_up s)
    then show ?case using cleanup_inv [of s cf] by (simp add: ps_kill_def psb_inv_def)
  qed (auto simp: psb_inv_def verified_def)
qed

section \<open>A start that succeeds\<close>

text \<open>The system provides what a worker needs, and its report is accepted.\<close>

definition good_spawn :: "psb_config \<Rightarrow> spawn \<Rightarrow> bool" where
  "good_spawn cf sp \<longleftrightarrow>
     (cf_close_fds cf \<and> cf_start_method cf = ''fork'' \<longrightarrow> \<not> isl (sp_fds sp))
     \<and> \<not> isl (sp_pipe sp)
     \<and> (cf_spool cf \<longrightarrow> \<not> isl (sp_fresh_dir sp))
     \<and> start_process sp = Inr ()
     \<and> (case sp_first sp of
          Ready st \<Rightarrow> \<not> isl (verify_isolation (cf_isolation cf) (cf_allow_degraded cf) st)
        | _ \<Rightarrow> False)"

lemma spawn_worker_good:
  assumes "good_spawn cf sp"
  shows "fst (spawn_worker cf sp s) = Inr ()"
  using assms
  by (auto simp: good_spawn_def spawn_worker_def ps_ensure_spool_dir_def first_contact_def Let_def res_simps isl_def
      split: sum.splits first_msg.splits if_splits)

text \<open>Executions of a hook on a live worker leave the sandbox as it is.\<close>

lemma hook_execs_keep:
  assumes "set acts \<subseteq> range HExec" "ps_in_hook s"
  shows "fold (hook_act cf) acts s = s"
  using assms by (induction acts) (auto simp: exec_start_in_hook)

definition good_hook :: "(hook_action list \<times> unit res) option \<Rightarrow> bool" where
  "good_hook prog = (case prog of None \<Rightarrow> True | Some (acts, r) \<Rightarrow> set acts \<subseteq> range HExec \<and> r = Inr ())"

lemma ensure_worker_good:
  assumes "good_spawn cf sp" "good_hook prog" "psb_inv cf s" "\<not> ps_in_hook s"
  shows "fst (ensure_worker cf sp (map_option (hook_of cf) prog) s) = Inr ()"
proof (cases "ps_process s = Some Alive")
  case False
  let ?s = "if ps_process s \<noteq> None then ps_cleanup s else s"
  have s0: "psb_inv cf ?s" "ps_process ?s = None"
    using assms(3) cleanup_inv [of s cf] by (auto simp: psb_inv_def)
  obtain s1 where s1: "spawn_worker cf sp ?s = (Inr (), s1)"
    using spawn_worker_good [OF assms(1)] by (metis prod.collapse)
  then have "ps_process s1 = Some Alive" using spawn_worker_effect [OF s1 s0] by simp
  then show ?thesis
    using False assms(2,4) s1
    by (auto simp: ensure_worker_def run_start_hook_def hook_of_def good_hook_def hook_execs_keep
        split: option.splits)
qed (simp add: ensure_worker_def)

section \<open>Properties\<close>

text \<open>
  C7: whatever has happened to a process sandbox, an execution that is let through
  runs on a live worker whose connection is the only one held, on which the kernel
  isolation that was asked for is in force unless degraded isolation was accepted,
  and it is a fresh worker exactly when there was no live one.
\<close>

theorem exec_on_verified_worker:
  assumes "ps_reach cf s"
    and "exec_start cf sp (map_option (hook_of cf) prog) s = (Inr (), s')"
  shows "ps_process s' = Some Alive
    \<and> (\<exists>c. ps_conn s' = Some c \<and> ps_parents s' = {c})
    \<and> (cf_isolation cf = Iso_auto \<and> \<not> cf_allow_degraded cf \<longrightarrow>
         (\<exists>st. ps_status s' = Some st \<and> \<not> degraded st))
    \<and> ps_generation s' = ps_generation s + (if ps_process s = Some Alive then 0 else 1)"
  using exec_start_effect [OF assms(2)] ps_reach_inv [OF assms(1)]
  by (auto simp: psb_inv_def verified_def)

text \<open>
  C26: after any crash, kill or failed start, the next execution of an entered
  sandbox is let through as soon as the system provides a worker whose isolation
  is accepted and the start hook succeeds: a crash costs the crashing execution,
  not the sandbox.
\<close>

theorem crash_recovery:
  assumes "ps_reach cf s" "ps_started s" "good_spawn cf sp" "good_hook prog"
  shows "fst (exec_start cf sp (map_option (hook_of cf) prog) s) = Inr ()"
proof -
  have inv: "psb_inv cf s" "\<not> ps_in_hook s" using ps_reach_inv [OF assms(1)] by auto
  obtain s1 where s1: "ensure_worker cf sp (map_option (hook_of cf) prog) s = (Inr (), s1)"
    using ensure_worker_good [OF assms(3,4) inv] by (metis prod.collapse)
  with ensure_worker_effect [OF s1 inv(1)] assms(2) show ?thesis
    by (auto simp: exec_start_def psb_inv_def)
qed

text \<open>
  A start that fails, for whatever reason and at whatever point, leaves no
  worker, no connection and nothing registered, so no later fork inherits an
  endpoint of it.
\<close>

theorem failed_start_leaves_nothing:
  assumes "ps_reach cf s" "ps_enter cf sp (map_option (hook_of cf) prog) s = (Inl e, s')"
  shows "ps_process s' = None \<and> ps_conn s' = None \<and> ps_parents s' = {} \<and> \<not> ps_started s'"
proof -
  have inv: "psb_inv cf (s\<lparr>ps_started := True\<rparr>)" "\<not> ps_in_hook s"
    using ps_reach_inv [OF assms(1)] by (auto simp: psb_inv_def verified_def)
  obtain q s1 where q: "ensure_worker cf sp (map_option (hook_of cf) prog) (s\<lparr>ps_started := True\<rparr>) = (q, s1)"
    by fastforce
  from ensure_worker_effect [OF q inv(1)] assms(2) q inv(2) show ?thesis
    by (cases q) (auto simp: ps_enter_def psb_inv_def)
qed

section \<open>Concrete runs\<close>

definition ex_cfg :: psb_config where
  "ex_cfg = \<lparr>cf_isolation = Iso_auto, cf_allow_degraded = True, cf_start_method = ''forkserver'',
             cf_spool = True, cf_close_fds = False\<rparr>"

definition ex_spawn :: spawn where
  "ex_spawn = \<lparr>sp_fds = Inr [], sp_pipe = Inr 4,
     sp_start = Inl (OsErr 10 (Exc ChildProcessError ''No child processes'')), sp_retry = Inr (),
     sp_fresh_dir = Inr ''/tmp/sandtrap-spool-x'', sp_first = Ready None,
     sp_signals = \<lparr>sig_number = (\<lambda>_. None), sig_name = (\<lambda>_. None)\<rparr>, sp_threads = 1,
     sp_errno = (\<lambda>_. 95)\<rparr>"

lemmas ex_run_defs = ex_cfg_def ex_spawn_def ps_enter_def exec_start_def ensure_worker_def
  spawn_worker_def start_process_def ps_ensure_spool_dir_def first_contact_def run_start_hook_def hook_of_def
  new_psb_def

definition ex_entered :: psb where
  "ex_entered = snd (ps_enter ex_cfg ex_spawn (Some (hook_of ex_cfg ([HExec ex_spawn], Inr ()))) new_psb)"

definition ex_crashed :: psb where
  "ex_crashed = ex_entered\<lparr>ps_process := Some (Exited (Some (- 11)))\<rparr>"

lemma ex_verify: "\<exists>ws. verify_isolation Iso_auto True None = Inr ws"
  by (simp add: verify_isolation_def)

lemma ex_entered_eq:
  "ex_entered = \<lparr>ps_process = Some Alive, ps_conn = Some 4, ps_started = True, ps_generation = 1,
     ps_in_hook = False, ps_status = None, ps_spool_dir = Some ''/tmp/sandtrap-spool-x'', ps_parents = {4}\<rparr>"
  using ex_verify by (auto simp: ex_entered_def ex_run_defs)

lemma ex_crashed_reach: "ps_reach ex_cfg ex_crashed"
proof -
  have "ps_step ex_cfg new_psb ex_entered"
    unfolding ex_entered_def
    by (rule ps_step.enter [of _ ex_spawn "Some ([HExec ex_spawn], Inr ())", OF prod.collapse [symmetric], simplified])
  moreover have "ps_step ex_cfg ex_entered ex_crashed"
    unfolding ex_crashed_def by (rule ps_step.died) (simp add: ex_entered_eq)
  ultimately show ?thesis using ps_reach.intros by blast
qed

lemma ex_good: "good_spawn ex_cfg ex_spawn" "good_hook (Some ([HExec ex_spawn], Inr ()))"
  by (auto simp: good_spawn_def good_hook_def ex_cfg_def ex_spawn_def start_process_def verify_isolation_def)

theorem crash_recovery_witness:
  "ps_process ex_crashed = Some (Exited (Some (- 11)))
   \<and> fst (exec_start ex_cfg ex_spawn (map_option (hook_of ex_cfg) (Some ([HExec ex_spawn], Inr ()))) ex_crashed) = Inr ()"
  using crash_recovery [OF ex_crashed_reach _ ex_good] by (simp add: ex_crashed_def ex_entered_eq)

text \<open>The same with degraded isolation refused and a worker that reports all of it applied.\<close>

definition ex_strict :: psb_config where
  "ex_strict = ex_cfg\<lparr>cf_allow_degraded := False\<rparr>"

definition ex_strict_spawn :: spawn where
  "ex_strict_spawn = ex_spawn\<lparr>sp_first := Ready (Some ex_status)\<rparr>"

definition ex_strict_entered :: psb where
  "ex_strict_entered = snd (ps_enter ex_strict ex_strict_spawn None new_psb)"

lemma ex_strict_verify: "verify_isolation Iso_auto False (Some ex_status) = Inr []"
  by code_simp

lemma ex_strict_entered_eq:
  "ex_strict_entered = \<lparr>ps_process = Some Alive, ps_conn = Some 4, ps_started = True, ps_generation = 1,
     ps_in_hook = False, ps_status = Some ex_status, ps_spool_dir = Some ''/tmp/sandtrap-spool-x'', ps_parents = {4}\<rparr>"
  using ex_strict_verify by (simp add: ex_strict_entered_def ex_strict_def ex_strict_spawn_def ex_run_defs)

lemma ex_strict_reach: "ps_reach ex_strict (ps_kill ex_strict_entered)"
proof -
  have "ps_step ex_strict new_psb ex_strict_entered"
    unfolding ex_strict_entered_def
    by (rule ps_step.enter [of _ ex_strict_spawn None, OF prod.collapse [symmetric], simplified])
  then show ?thesis using ps_reach.intros ps_step.give_up by blast
qed

lemma ex_strict_exec:
  "exec_start ex_strict ex_strict_spawn None (ps_kill ex_strict_entered)
   = (Inr (), ex_strict_entered\<lparr>ps_generation := 2\<rparr>)"
  using ex_strict_verify
  by (simp add: ex_strict_entered_eq ex_strict_def ex_strict_spawn_def ex_run_defs ps_end_defs)

theorem exec_on_verified_worker_witness:
  "(\<exists>st. ps_status (ex_strict_entered\<lparr>ps_generation := 2\<rparr>) = Some st \<and> \<not> degraded st)
   \<and> ps_process (ps_kill ex_strict_entered) = None"
  using exec_on_verified_worker [OF ex_strict_reach, of ex_strict_spawn None] ex_strict_exec
  by (simp add: ex_strict_def ex_cfg_def ps_kill_def)

theorem failed_start_witness:
  "ps_process (snd (ps_enter ex_strict ex_spawn None (ps_kill ex_strict_entered))) = None
   \<and> fst (ps_enter ex_strict ex_spawn None (ps_kill ex_strict_entered)) \<noteq> Inr ()"
proof -
  have bad: "isl (fst (ps_enter ex_strict ex_spawn None (ps_kill ex_strict_entered)))"
    by (simp add: ex_strict_entered_eq ex_strict_def ex_run_defs ps_end_defs verify_isolation_def)
  then obtain e where "ps_enter ex_strict ex_spawn None (ps_kill ex_strict_entered)
      = (Inl e, snd (ps_enter ex_strict ex_spawn None (ps_kill ex_strict_entered)))"
    by (metis isl_def prod.collapse)
  from failed_start_leaves_nothing [OF ex_strict_reach, of ex_spawn None, simplified, OF this] bad
  show ?thesis by (auto simp: isl_def)
qed

end
