(* ===== verification/Await.thy ===== *)
theory Await
  imports Lifecycle "HOL-Library.Sublist"
begin

text \<open>
  The parent's side of one execution (\<open>process/sandbox.py\<close>): waiting for the
  result under a deadline that moves with host time
  (\<open>ProcessSandbox._await_result\<close>), answering the worker's calls
  (\<open>_dispatch_rpc\<close>, \<open>_send_rpc_return\<close>), and refusing a spool directory the
  sandboxed code could reach (\<open>_refuse_spool_inside_root\<close>). The readings of
  \<open>time.monotonic\<close>, the liveness of the worker and the messages are arguments.
\<close>

section \<open>Messages\<close>

record 'v rpc_call =
  rc_call_id :: string
  rc_target :: string
  rc_method :: string
  rc_args :: 'v

datatype 'v rpc_answer = Value 'v | Error pyerr

record 'v rpc_return =
  rr_call_id :: string
  rr_answer :: "'v rpc_answer"

datatype ('v, 'r) worker_msg =
    ResultMsg 'r
  | WorkerErrorMsg string
  | HostTimeMsg bool
  | RpcCallMsg "'v rpc_call"
  | UnknownMsg string

text \<open>What the connection gives in one turn of the loop.\<close>

datatype ('v, 'r) arrival = Quiet | RecvFails | Arrives "('v, 'r) worker_msg"

section \<open>Answering a call\<close>

text \<open>
  \<open>sendable\<close> says whether a message can be pickled and written; what is delivered
  is the list of messages the worker receives.
\<close>

definition send_rpc_return :: "('v rpc_return \<Rightarrow> unit res) \<Rightarrow> string \<Rightarrow> 'v rpc_answer \<Rightarrow> 'v rpc_return list" where
  "send_rpc_return send call_id ans =
     (let m = \<lparr>rr_call_id = call_id, rr_answer = ans\<rparr> in
      case send m of
        Inr _ \<Rightarrow> [m]
      | Inl e \<Rightarrow>
          (let fb = \<lparr>rr_call_id = call_id,
                     rr_answer = Error (Exc RuntimeError (''rpc return for call_id='' @ call_id @
                       '' could not be serialized: '' @ err_msg e))\<rparr> in
           case send fb of Inr _ \<Rightarrow> [fb] | Inl _ \<Rightarrow> []))"

text \<open>A handler runs in the host and may change the host's state.\<close>

type_synonym ('v, 's) rpc_handler = "string \<Rightarrow> 'v \<Rightarrow> 's \<Rightarrow> 'v res \<times> 's"

definition dispatch_rpc ::
  "(string \<times> ('v, 's) rpc_handler) list \<Rightarrow> ('v rpc_return \<Rightarrow> unit res) \<Rightarrow> 'v rpc_call \<Rightarrow> 's \<Rightarrow>
   'v rpc_return list \<times> 's" where
  "dispatch_rpc handlers send msg s =
     (case map_of handlers (rc_target msg) of
        None \<Rightarrow>
          (send_rpc_return send (rc_call_id msg)
             (Error (Exc RuntimeError (''no rpc handler registered for target '' @ rc_target msg))), s)
      | Some handler \<Rightarrow>
          (case handler (rc_method msg) (rc_args msg) s of
             (Inl e, s') \<Rightarrow> (send_rpc_return send (rc_call_id msg) (Error e), s')
           | (Inr v, s') \<Rightarrow> (send_rpc_return send (rc_call_id msg) (Value v), s')))"

section \<open>Waiting for the result\<close>

definition UNRESPONSIVE_GRACE :: real where
  "UNRESPONSIVE_GRACE = 5"

record wait_state =
  ws_deadline :: real
  ws_paused_at :: "real option"

text \<open>
  One turn of the loop: the time at its head, whether the worker is alive, what
  the connection gave, and the readings taken while the message is handled
  (\<open>tn_mid\<close> when handling starts, \<open>tn_end\<close> when a call has been answered).
\<close>

record ('v, 'r) turn =
  tn_now :: real
  tn_alive :: bool
  tn_arrival :: "('v, 'r) arrival"
  tn_mid :: real
  tn_end :: real

datatype 'r outcome = Unresponsive | Died | Finished 'r | WorkerFailed string

datatype 'r wait_result = Waiting wait_state | Returns "'r outcome"

definition await_turn :: "wait_state \<Rightarrow> ('v, 'r) turn \<Rightarrow> 'r wait_result" where
  "await_turn ws t =
     (if ws_paused_at ws = None \<and> tn_now t \<ge> ws_deadline ws then Returns Unresponsive
      else
        (case tn_arrival t of
           Quiet \<Rightarrow> if tn_alive t then Waiting ws else Returns Died
         | RecvFails \<Rightarrow> Returns Died
         | Arrives (ResultMsg r) \<Rightarrow> Returns (Finished r)
         | Arrives (WorkerErrorMsg m) \<Rightarrow> Returns (WorkerFailed m)
         | Arrives (HostTimeMsg True) \<Rightarrow>
             Waiting (if ws_paused_at ws = None then ws\<lparr>ws_paused_at := Some (tn_mid t)\<rparr> else ws)
         | Arrives (HostTimeMsg False) \<Rightarrow>
             Waiting (case ws_paused_at ws of
                        Some p \<Rightarrow> ws\<lparr>ws_deadline := ws_deadline ws + (tn_mid t - p), ws_paused_at := None\<rparr>
                      | None \<Rightarrow> ws)
         | Arrives (RpcCallMsg c) \<Rightarrow>
             Waiting (if ws_paused_at ws = None
                      then ws\<lparr>ws_deadline := ws_deadline ws + (tn_end t - tn_mid t)\<rparr> else ws)
         | Arrives (UnknownMsg n) \<Rightarrow> Waiting ws))"

text \<open>How long a silent turn waits: the next reading comes no earlier than this.\<close>

definition poll_timeout :: "wait_state \<Rightarrow> real \<Rightarrow> real" where
  "poll_timeout ws now = (if ws_paused_at ws \<noteq> None then 1 else min 1 (ws_deadline ws - now))"

fun await_loop :: "wait_state \<Rightarrow> ('v, 'r) turn list \<Rightarrow> 'r wait_result" where
  "await_loop ws [] = Waiting ws"
| "await_loop ws (t # ts) =
     (case await_turn ws t of
        Waiting ws' \<Rightarrow> await_loop ws' ts
      | Returns r \<Rightarrow> Returns r)"

definition await_result :: "real \<Rightarrow> real \<Rightarrow> ('v, 'r) turn list \<Rightarrow> 'r wait_result" where
  "await_result tmo start ts =
     await_loop \<lparr>ws_deadline = start + tmo + UNRESPONSIVE_GRACE, ws_paused_at = None\<rparr> ts"

text \<open>The sandbox after the wait: an unresponsive worker is killed, a dead one forgotten.\<close>

fun after_wait :: "'r outcome \<Rightarrow> psb \<Rightarrow> psb" where
  "after_wait Unresponsive s = ps_kill s"
| "after_wait Died s = ps_cleanup s"
| "after_wait (Finished r) s = s"
| "after_wait (WorkerFailed m) s = s"

section \<open>The worker's own time\<close>

text \<open>
  The reference: the time line between consecutive readings, each stretch counted
  unless the worker's clock is stopped or the parent is answering a call.
\<close>

fun own_time :: "bool \<Rightarrow> real \<Rightarrow> ('v, 'r) turn list \<Rightarrow> real" where
  "own_time stopped t0 [] = 0"
| "own_time stopped t0 (t # ts) =
     (if stopped then 0 else tn_now t - t0)
     + (case tn_arrival t of
          Arrives (HostTimeMsg b) \<Rightarrow>
            (if stopped then 0 else if b then tn_mid t - tn_now t else 0)
            + own_time b (if stopped \<or> b then tn_mid t else tn_now t) ts
        | Arrives (RpcCallMsg c) \<Rightarrow>
            (if stopped then 0 else tn_mid t - tn_now t) + own_time stopped (tn_end t) ts
        | _ \<Rightarrow> own_time stopped (tn_now t) ts)"

fun clock_stopped :: "bool \<Rightarrow> ('v, 'r) turn list \<Rightarrow> bool" where
  "clock_stopped stopped [] = stopped"
| "clock_stopped stopped (t # ts) =
     clock_stopped (case tn_arrival t of Arrives (HostTimeMsg b) \<Rightarrow> b | _ \<Rightarrow> stopped) ts"

text \<open>The last reading after these turns.\<close>

fun last_reading :: "bool \<Rightarrow> real \<Rightarrow> ('v, 'r) turn list \<Rightarrow> real" where
  "last_reading stopped t0 [] = t0"
| "last_reading stopped t0 (t # ts) =
     (case tn_arrival t of
        Arrives (HostTimeMsg b) \<Rightarrow> last_reading b (if stopped \<or> b then tn_mid t else tn_now t) ts
      | Arrives (RpcCallMsg c) \<Rightarrow> last_reading stopped (tn_end t) ts
      | _ \<Rightarrow> last_reading stopped (tn_now t) ts)"

text \<open>
  The state says that so much own time has passed: the deadline is the budget
  later than the start shifted by the host time.
\<close>

definition tracks :: "real \<Rightarrow> wait_state \<Rightarrow> bool \<Rightarrow> real \<Rightarrow> real \<Rightarrow> bool" where
  "tracks budget ws stopped t0 spent \<longleftrightarrow>
     (case ws_paused_at ws of
        None \<Rightarrow> \<not> stopped \<and> ws_deadline ws = budget + t0 - spent
      | Some p \<Rightarrow> stopped \<and> ws_deadline ws = budget + p - spent)"

lemma await_loop_tracks:
  assumes "tracks budget ws stopped base spent" "await_loop ws ts = Waiting ws'"
  shows "tracks budget ws' (clock_stopped stopped ts) (last_reading stopped base ts)
    (spent + own_time stopped base ts)"
  using assms
proof (induction ts arbitrary: ws stopped base spent)
  case (Cons t ts)
  from Cons.prems(2) obtain w where w: "await_turn ws t = Waiting w" "await_loop w ts = Waiting ws'"
    by (auto split: wait_result.splits)
  note IH = Cons.IH [OF _ w(2)]
  show ?case
  proof (cases "tn_arrival t")
    case (Arrives m)
    show ?thesis
      using Arrives w(1) Cons.prems(1)
        IH [where stopped = "case m of HostTimeMsg b \<Rightarrow> b | _ \<Rightarrow> stopped"
          and base = "last_reading stopped base [t]" and spent = "spent + own_time stopped base [t]"]
      by (cases m) (auto simp: await_turn_def tracks_def algebra_simps
          split: if_splits option.splits bool.splits)
  qed (use w(1) Cons.prems(1) IH [where stopped = stopped and base = "tn_now t"
        and spent = "spent + own_time stopped base [t]"] in
      \<open>auto simp: await_turn_def tracks_def algebra_simps split: if_splits option.splits\<close>)
qed simp

section \<open>A worker that never speaks\<close>

definition silent :: "('v, 'r) turn \<Rightarrow> bool" where
  "silent t = (tn_arrival t = Quiet \<and> tn_alive t)"

text \<open>Each turn's reading comes no earlier than the previous turn's wait allows.\<close>

fun paced :: "wait_state \<Rightarrow> ('v, 'r) turn list \<Rightarrow> bool" where
  "paced ws (t # u # ts) = (tn_now t + poll_timeout ws (tn_now t) \<le> tn_now u \<and> paced ws (u # ts))"
| "paced ws ts = True"

lemma await_turn_silent:
  "silent t \<Longrightarrow> ws_paused_at ws = None \<Longrightarrow>
     await_turn ws t = (if ws_deadline ws \<le> tn_now t then Returns Unresponsive else Waiting ws)"
  by (simp add: await_turn_def silent_def)

lemma silent_times_out:
  assumes unpaused: "ws_paused_at ws = None" and "\<forall>t \<in> set ts. silent t" "paced ws ts" "ts \<noteq> []"
    and "base \<le> tn_now (hd ts)" "ws_deadline ws - base + 1 \<le> real (length ts)"
  shows "await_loop ws ts = Returns Unresponsive"
  using assms(2-)
proof (induction ts arbitrary: base)
  case (Cons t ts)
  show ?case
  proof (cases ts)
    case Nil
    with Cons.prems unpaused show ?thesis by (simp add: await_turn_silent)
  next
    case (Cons u us)
    with Cons.prems have gap: "tn_now t + poll_timeout ws (tn_now t) \<le> tn_now u" "paced ws ts" by auto
    have later: "min (tn_now t + 1) (ws_deadline ws) \<le> tn_now u"
      using gap(1) unpaused by (simp add: poll_timeout_def)
    have "await_loop ws ts = Returns Unresponsive"
    proof (cases "ws_deadline ws \<le> tn_now u")
      case True
      then show ?thesis using Cons Cons.prems(1) unpaused by (simp add: await_turn_silent)
    next
      case False
      then have "base + 1 \<le> tn_now (hd ts)" using later Cons Cons.prems(4) by simp
      then show ?thesis using Cons Cons.prems gap(2) by (intro Cons.IH [of "base + 1"]) auto
    qed
    then show ?thesis using Cons.prems unpaused by (simp add: await_turn_silent)
  qed
qed simp

section \<open>A spool directory out of reach\<close>

text \<open>
  \<open>os.path.commonpath\<close> of two absolute paths: the common leading components,
  empty ones and \<open>.\<close> left out.
\<close>

definition path_parts :: "string \<Rightarrow> string list" where
  "path_parts p = filter (\<lambda>c. c \<noteq> [] \<and> c \<noteq> ''.'') (split_on CHR ''/'' p)"

fun common_parts :: "string list \<Rightarrow> string list \<Rightarrow> string list" where
  "common_parts (a # as) (b # bs) = (if a = b then a # common_parts as bs else [])"
| "common_parts _ _ = []"

definition commonpath :: "string \<Rightarrow> string \<Rightarrow> string" where
  "commonpath p q = ''/'' @ join ''/'' (common_parts (path_parts p) (path_parts q))"

datatype spool_arg = SpoolOff | SpoolOn | SpoolIn string

definition refuse_spool_inside_root ::
  "(string \<Rightarrow> string) \<Rightarrow> string \<Rightarrow> spool_arg \<Rightarrow> string \<Rightarrow> unit res" where
  "refuse_spool_inside_root real_path gettempdir spool rt =
     (let base = real_path (case spool of SpoolIn d \<Rightarrow> d | _ \<Rightarrow> gettempdir);
          rt = real_path rt
      in if commonpath rt base = rt
         then Inl (Exc ValueError
                ((case spool of SpoolIn _ \<Rightarrow> ''spool'' | _ \<Rightarrow> ''the system temporary directory'') @
                 '' ('' @ base @ '') is inside the sandbox's filesystem root ('' @ rt @
                 ''), so sandboxed code could replace a spooled result before the host reads it''))
         else Inr ())"

text \<open>The absolute path of some components, as \<open>os.path.realpath\<close> writes one.\<close>

definition abs_path :: "string list \<Rightarrow> string" where
  "abs_path cs = ''/'' @ join ''/'' cs"

definition proper_part :: "string \<Rightarrow> bool" where
  "proper_part c = (c \<noteq> [] \<and> c \<noteq> ''.'' \<and> CHR ''/'' \<notin> set c)"

lemma path_parts_abs: "list_all proper_part cs \<Longrightarrow> path_parts (abs_path cs) = cs"
  using split_on_join [of cs "CHR ''/''"]
  by (cases "cs = []") (auto simp: path_parts_def abs_path_def proper_part_def list_all_iff filter_id_conv)

lemma abs_path_inj:
  "list_all proper_part cs \<Longrightarrow> list_all proper_part ds \<Longrightarrow> abs_path cs = abs_path ds \<longleftrightarrow> cs = ds"
  using path_parts_abs by metis

lemma common_parts_prefix: "prefix (common_parts as bs) as"
  by (induction as bs rule: common_parts.induct) auto

lemma common_parts_all: "common_parts as bs = as \<longleftrightarrow> prefix as bs"
  by (induction as bs rule: common_parts.induct) auto

section \<open>Properties\<close>

text \<open>
  C16: the parent gives up on a worker exactly when its clock is running and its own
  time, host calls and answered calls left out, has reached the timeout and the
  grace period; however the messages are spread over time, no host time is charged
  and none is refunded twice.
\<close>

theorem unresponsive_iff_own_time:
  assumes "await_result tmo start ts = Waiting ws"
  shows "await_turn ws t = Returns Unresponsive \<longleftrightarrow>
    \<not> clock_stopped False ts
    \<and> tmo + UNRESPONSIVE_GRACE \<le> own_time False start ts + (tn_now t - last_reading False start ts)"
proof -
  have "tracks (tmo + UNRESPONSIVE_GRACE)
      \<lparr>ws_deadline = start + tmo + UNRESPONSIVE_GRACE, ws_paused_at = None\<rparr> False start 0"
    by (simp add: tracks_def)
  from await_loop_tracks [OF this assms [unfolded await_result_def]]
  show ?thesis
    by (auto simp: await_turn_def tracks_def split: option.splits arrival.splits worker_msg.splits bool.splits if_splits)
qed

text \<open>
  C32: a worker that stays alive and silent is given up on after finitely many turns
  of the loop: one for each second of the timeout and the grace period is enough.
\<close>

theorem silent_worker_given_up:
  assumes "\<forall>t \<in> set ts. silent t"
    and "paced \<lparr>ws_deadline = start + tmo + UNRESPONSIVE_GRACE, ws_paused_at = None\<rparr> ts"
    and "ts \<noteq> []" "start \<le> tn_now (hd ts)" "tmo + UNRESPONSIVE_GRACE + 1 \<le> real (length ts)"
  shows "await_result tmo start ts = Returns Unresponsive"
  unfolding await_result_def
  by (rule silent_times_out [of _ _ start]) (use assms in auto)

text \<open>
  A spool directory is refused exactly when it is the filesystem root of the
  sandboxed code or lies below it, whatever the names of their components.
\<close>

theorem spool_refused_iff_inside:
  assumes "real_path rt = abs_path rs" "real_path d = abs_path ds"
    and "list_all proper_part rs" "list_all proper_part ds"
  shows "(\<exists>e. refuse_spool_inside_root real_path tmp (SpoolIn d) rt = Inl e \<and> err_class e = ValueError)
      \<longleftrightarrow> prefix rs ds"
proof -
  have "list_all proper_part (common_parts rs ds)"
    using assms(3) common_parts_prefix [of rs ds] by (auto simp: list_all_iff dest: set_mono_prefix)
  then have "commonpath (abs_path rs) (abs_path ds) = abs_path rs \<longleftrightarrow> prefix rs ds"
    using assms(3,4) abs_path_inj common_parts_all
    by (simp add: commonpath_def path_parts_abs abs_path_def [symmetric] del: append_Cons)
  with assms(1,2) show ?thesis by (simp add: refuse_spool_inside_root_def Let_def)
qed

section \<open>Concrete waits\<close>

definition ex_turn :: "real \<Rightarrow> (nat, nat) arrival \<Rightarrow> real \<Rightarrow> real \<Rightarrow> (nat, nat) turn" where
  "ex_turn n a m e = \<lparr>tn_now = n, tn_alive = True, tn_arrival = a, tn_mid = m, tn_end = e\<rparr>"

text \<open>A pause of 100 seconds, then a call answered in 50: 4 seconds are the worker's own.\<close>

definition ex_turns :: "(nat, nat) turn list" where
  "ex_turns =
     [ex_turn 1 (Arrives (HostTimeMsg True)) 1 1,
      ex_turn 2 Quiet 2 2,
      ex_turn 101 (Arrives (HostTimeMsg False)) 101 101,
      ex_turn 104 (Arrives (RpcCallMsg \<lparr>rc_call_id = ''a'', rc_target = ''t'', rc_method = ''m'', rc_args = 0\<rparr>)) 104 154]"

lemma ex_waiting: "await_result 2 0 ex_turns = Waiting \<lparr>ws_deadline = 157, ws_paused_at = None\<rparr>"
  by (simp add: ex_turns_def ex_turn_def await_result_def await_turn_def UNRESPONSIVE_GRACE_def)

theorem unresponsive_witness:
  "own_time False 0 ex_turns = 4
   \<and> (await_turn \<lparr>ws_deadline = 157, ws_paused_at = None\<rparr> (ex_turn 157 Quiet 157 157) = Returns Unresponsive
      \<longleftrightarrow> \<not> clock_stopped False ex_turns \<and> 2 + UNRESPONSIVE_GRACE \<le> 4 + (157 - last_reading False 0 ex_turns))
   \<and> last_reading False 0 ex_turns = 154"
  using unresponsive_iff_own_time [OF ex_waiting, of "ex_turn 157 Quiet 157 157"]
  by (simp add: ex_turns_def ex_turn_def)

theorem silent_worker_witness:
  "await_result 1 0 (map (\<lambda>i. ex_turn (real i) Quiet 0 0) [0, 1, 2, 3, 4, 5, 6]) = Returns Unresponsive"
  by (rule silent_worker_given_up)
    (simp_all add: ex_turn_def silent_def poll_timeout_def UNRESPONSIVE_GRACE_def)

theorem spool_refused_witness:
  "(\<exists>e. refuse_spool_inside_root id ''/tmp'' (SpoolIn ''/srv/box/out'') ''/srv/box'' = Inl e \<and> err_class e = ValueError)
   \<and> \<not> (\<exists>e. refuse_spool_inside_root id ''/tmp'' (SpoolIn ''/srv/boxes'') ''/srv/box'' = Inl e \<and> err_class e = ValueError)"
proof
  show "\<exists>e. refuse_spool_inside_root id ''/tmp'' (SpoolIn ''/srv/box/out'') ''/srv/box'' = Inl e \<and> err_class e = ValueError"
    by (subst spool_refused_iff_inside [where rs = "[''srv'', ''box'']" and ds = "[''srv'', ''box'', ''out'']"])
      (simp_all add: abs_path_def proper_part_def)
  show "\<not> (\<exists>e. refuse_spool_inside_root id ''/tmp'' (SpoolIn ''/srv/boxes'') ''/srv/box'' = Inl e \<and> err_class e = ValueError)"
    by (subst spool_refused_iff_inside [where rs = "[''srv'', ''box'']" and ds = "[''srv'', ''boxes'']"])
      (simp_all add: abs_path_def proper_part_def)
qed

end
