(* ===== verification/Home.thy ===== *)
theory Home
  imports Prelude
begin

text \<open>
  Where sandboxed code lives (\<open>sandtrap/home.py\<close>): the names of the modules it
  runs in, the deque of the latest of them, and the check that no class or
  function of its own leaves by pickle. A byte string is a list of characters.
  \<open>pickle\<close> is a parameter: the bytes it writes for a value and the classes and
  functions it meets while doing so. What the check relies on, that a class or
  function is pickled by the name of its module, is the hypothesis \<open>by_reference\<close>.
\<close>

definition PREFIX :: string where
  "PREFIX = ''__sandtrap_''"

definition HOMES :: nat where
  "HOMES = 8"

definition new_module_name :: "nat \<Rightarrow> string" where
  "new_module_name n = PREFIX @ str_of_nat n @ ''__''"

definition is_sandbox_module :: "string option \<Rightarrow> bool" where
  "is_sandbox_module name =
     (case name of None \<Rightarrow> False | Some n \<Rightarrow> startswith n PREFIX \<and> endswith n ''__'')"

text \<open>\<open>forget\<close>: take the named modules out of \<open>sys.modules\<close> and empty the list.\<close>

fun forget :: "string list \<Rightarrow> (string, 'm) dict \<Rightarrow> string list \<times> (string, 'm) dict" where
  "forget [] mods = ([], mods)"
| "forget (n # ns) mods = forget ns (dpop n mods)"

section \<open>Refusing\<close>

text \<open>A class or function that the pickler meets: its kind, \<open>__module__\<close> and \<open>__qualname__\<close>.\<close>

record code_ref =
  cr_is_class :: bool
  cr_home :: "string option"
  cr_qualname :: string

definition refused :: "code_ref \<Rightarrow> bool" where
  "refused g = is_sandbox_module (cr_home g)"

definition refusal :: "code_ref \<Rightarrow> pyerr" where
  "refusal g = Exc SandboxObjectError ((if cr_is_class g then ''class '' else ''function '') @ cr_qualname g
     @ '' is defined in the sandboxed code, and can't leave it'')"

text \<open>The refusing pickler over what the plain one met: it raises at the first refused object.\<close>

definition refusing_dump :: "code_ref list \<Rightarrow> unit res" where
  "refusing_dump gs = (case find refused gs of Some g \<Rightarrow> Inl (refusal g) | None \<Rightarrow> Inr ())"

definition check_sendable ::
  "('v \<Rightarrow> string res) \<Rightarrow> ('v \<Rightarrow> code_ref list) \<Rightarrow> 'v \<Rightarrow> string res" where
  "check_sendable dumps meets obj =
     rbind (dumps obj) (\<lambda>raw.
       if str_in PREFIX raw then rbind (refusing_dump (meets obj)) (\<lambda>_. Inr raw) else Inr raw)"

section \<open>Scanning writes\<close>

record scanning =
  sc_tail :: string
  sc_found :: bool
  sc_out :: "string list"

definition scan_new :: scanning where
  "scan_new = \<lparr>sc_tail = [], sc_found = False, sc_out = []\<rparr>"

definition scan_keep :: nat where
  "scan_keep = length PREFIX - 1"

definition last_n :: "nat \<Rightarrow> 'a list \<Rightarrow> 'a list" where
  "last_n n xs = drop (length xs - n) xs"

definition scan_write :: "scanning \<Rightarrow> string \<Rightarrow> scanning" where
  "scan_write sc data =
     (let sc1 =
        (if \<not> sc_found sc then
           sc\<lparr>sc_found := (str_in PREFIX (sc_tail sc @ take scan_keep data) \<or> str_in PREFIX data),
              sc_tail := (if length data \<ge> scan_keep then last_n scan_keep data
                          else last_n scan_keep (sc_tail sc @ data))\<rparr>
         else sc)
      in sc1\<lparr>sc_out := sc_out sc1 @ [data]\<rparr>)"

text \<open>\<open>dump_sendable\<close>: the pieces that \<open>pickle.dump\<close> writes, or its error.\<close>

definition dump_sendable ::
  "('v \<Rightarrow> string list res) \<Rightarrow> ('v \<Rightarrow> code_ref list) \<Rightarrow> 'v \<Rightarrow> string list res" where
  "dump_sendable pieces meets obj =
     rbind (pieces obj) (\<lambda>ps.
       let sc = foldl scan_write scan_new ps in
       if sc_found sc then rbind (refusing_dump (meets obj)) (\<lambda>_. Inr (sc_out sc))
       else Inr (sc_out sc))"

section \<open>The scanner finds the name wherever the writes split it\<close>

lemma last_n_append: "\<exists>u. xs = u @ last_n n xs"
  unfolding last_n_def by (metis append_take_drop_id)

lemma length_last_n [simp]: "length (last_n n xs) = min n (length xs)"
  by (simp add: last_n_def)

lemma str_in_append_left: "str_in p xs \<Longrightarrow> str_in p (xs @ ys)"
  by (auto simp: str_in_iff) (metis append.assoc)

lemma str_in_append_right: "str_in p ys \<Longrightarrow> str_in p (xs @ ys)"
  by (auto simp: str_in_iff) (metis append.assoc)

text \<open>An occurrence in \<open>xs @ ys\<close> is in \<open>xs\<close>, in \<open>ys\<close>, or across the seam.\<close>

lemma str_in_seam:
  assumes "p \<noteq> []"
  shows "str_in p (xs @ ys) \<longleftrightarrow>
     str_in p xs \<or> str_in p ys \<or> str_in p (last_n (length p - 1) xs @ take (length p - 1) ys)"
    (is "_ \<longleftrightarrow> ?R")
proof
  assume "str_in p (xs @ ys)"
  then obtain a b where eq: "xs @ ys = a @ p @ b" by (auto simp: str_in_iff)
  consider "length (a @ p) \<le> length xs" | "length xs \<le> length a"
    | "length a < length xs" "length xs < length (a @ p)" by linarith
  then show ?R
  proof cases
    case 1
    then obtain c where "xs = (a @ p) @ c"
      using eq by (metis append.assoc append_eq_append_conv_if append_take_drop_id)
    then show ?thesis by (auto simp: str_in_iff)
  next
    case 2
    then obtain c where "a = xs @ c" "ys = c @ p @ b"
      using eq by (metis append.assoc append_eq_append_conv_if append_take_drop_id same_append_eq)
    then show ?thesis by (auto simp: str_in_iff)
  next
    case 3
    let ?i = "length xs - length a"
    have p1: "drop (length a) xs = take ?i p"
    proof -
      have "drop (length a) xs = take ?i (drop (length a) (xs @ ys))" using 3 by simp
      also have "\<dots> = take ?i (p @ b)" by (simp add: eq)
      finally show ?thesis using 3 by simp
    qed
    have p2: "take (length p - ?i) ys = drop ?i p"
    proof -
      have "ys = drop (length xs) (a @ p @ b)" by (metis append_eq_conv_conj eq)
      then have "ys = drop ?i p @ b" using 3 by simp
      then show ?thesis using 3 by simp
    qed
    have "?i \<le> length p - 1" "length p - ?i \<le> length p - 1" using 3 by auto
    then have "last_n (length p - 1) xs = drop (length xs - (length p - 1)) (take (length a) xs) @ take ?i p"
      "take (length p - 1) ys = drop ?i p @ take (length p - 1 - (length p - ?i)) (drop (length p - ?i) ys)"
      using p1 p2 3 unfolding last_n_def
      by (metis append_take_drop_id drop_append length_take min.absorb4 min_def diff_is_0_eq' drop_0
          le_diff_conv2 less_imp_le_nat diff_le_mono2 diff_diff_cancel)
        (metis p2 \<open>length p - ?i \<le> length p - 1\<close> le_add_diff_inverse take_add)
    then have "last_n (length p - 1) xs @ take (length p - 1) ys
        = drop (length xs - (length p - 1)) (take (length a) xs) @ (take ?i p @ drop ?i p)
          @ take (length p - 1 - (length p - ?i)) (drop (length p - ?i) ys)" by simp
    then show ?thesis by (auto simp: str_in_iff)
  qed
next
  assume ?R
  then show "str_in p (xs @ ys)"
  proof (elim disjE)
    assume seam: "str_in p (last_n (length p - 1) xs @ take (length p - 1) ys)"
    obtain u where "xs = u @ last_n (length p - 1) xs" using last_n_append by blast
    moreover have "ys = take (length p - 1) ys @ drop (length p - 1) ys" by simp
    ultimately have "xs @ ys
        = u @ (last_n (length p - 1) xs @ take (length p - 1) ys) @ drop (length p - 1) ys"
      by (metis append.assoc)
    then show ?thesis using seam by (metis str_in_append_left str_in_append_right)
  qed (auto intro: str_in_append_left str_in_append_right)
qed

lemma last_n_seam: "last_n n (xs @ ys) = (if n \<le> length ys then last_n n ys else last_n n (last_n n xs @ ys))"
proof (cases "n \<le> length ys")
  case True
  then show ?thesis by (simp add: last_n_def)
next
  case False
  show ?thesis
  proof (cases "n \<le> length xs")
    case True
    then have "length xs + length ys - n = n + length ys - n + (length xs - n)" by simp
    with False True show ?thesis by (simp add: last_n_def min_def add.commute)
  next
    case ge: False
    with False show ?thesis by (simp add: last_n_def)
  qed
qed

lemma prefix_split: "PREFIX \<noteq> []" "length PREFIX - 1 = scan_keep"
  by (simp_all add: PREFIX_def scan_keep_def)

definition scan_inv :: "scanning \<Rightarrow> string list \<Rightarrow> bool" where
  "scan_inv sc ps \<longleftrightarrow>
     sc_out sc = ps \<and> sc_found sc = str_in PREFIX (concat ps) \<and>
     (sc_found sc \<or> sc_tail sc = last_n scan_keep (concat ps))"

lemma scan_inv_write:
  assumes "scan_inv sc ps"
  shows "scan_inv (scan_write sc d) (ps @ [d])"
proof (cases "sc_found sc")
  case True
  with assms show ?thesis by (auto simp: scan_inv_def scan_write_def Let_def intro: str_in_append_left)
next
  case False
  then have tail: "sc_tail sc = last_n scan_keep (concat ps)" and no: "\<not> str_in PREFIX (concat ps)"
    using assms by (auto simp: scan_inv_def)
  have "str_in PREFIX (concat ps @ d) \<longleftrightarrow>
      str_in PREFIX d \<or> str_in PREFIX (last_n scan_keep (concat ps) @ take scan_keep d)"
    using str_in_seam [OF prefix_split(1), of "concat ps" d] no prefix_split(2) by simp
  with False assms tail show ?thesis
    using last_n_seam [of scan_keep "concat ps" d] by (auto simp: scan_inv_def scan_write_def Let_def)
qed

lemma scan_inv_run: "scan_inv (foldl scan_write scan_new ps) ps"
proof (induction ps rule: rev_induct)
  case Nil
  then show ?case by (simp add: scan_inv_def scan_new_def last_n_def prefix_split)
next
  case (snoc d ps)
  then show ?case by (simp add: scan_inv_write)
qed

lemma refusing_dump_ok: "refusing_dump gs = Inr u \<longleftrightarrow> list_all (\<lambda>g. \<not> refused g) gs"
  by (auto simp: refusing_dump_def find_None_iff list_all_iff find_Some_iff split: option.splits)

lemma refused_prefix: "refused g \<Longrightarrow> \<exists>m. cr_home g = Some m \<and> startswith m PREFIX"
  by (auto simp: refused_def is_sandbox_module_def split: option.splits)

section \<open>Properties\<close>

text \<open>
  The scanner notices the sandbox prefix exactly when it occurs in the bytes
  written altogether, however the writes split them, and passes every write on.
\<close>

theorem scanning_complete:
  "sc_found (foldl scan_write scan_new ps) = str_in PREFIX (concat ps) \<and>
   sc_out (foldl scan_write scan_new ps) = ps"
  using scan_inv_run [of ps] by (simp add: scan_inv_def)

text \<open>Pickle writes a class or function by reference: its module's name is among the bytes.\<close>

definition by_reference :: "('v \<Rightarrow> string list res) \<Rightarrow> ('v \<Rightarrow> code_ref list) \<Rightarrow> bool" where
  "by_reference pieces meets \<longleftrightarrow>
     (\<forall>v ps g m. pieces v = Inr ps \<longrightarrow> g \<in> set (meets v) \<longrightarrow> cr_home g = Some m \<longrightarrow> str_in m (concat ps))"

lemma reference_has_prefix:
  assumes "by_reference pieces meets" "pieces v = Inr ps" "g \<in> set (meets v)" "refused g"
  shows "str_in PREFIX (concat ps)"
proof -
  obtain m where m: "cr_home g = Some m" "startswith m PREFIX" using refused_prefix [OF assms(4)] by blast
  then have "str_in m (concat ps)" using assms by (auto simp: by_reference_def)
  with m(2) show ?thesis by (auto simp: startswith_iff str_in_iff) (metis append.assoc)
qed

text \<open>
  C21: nothing leaves a sandbox by pickle while it holds a class or function the
  sandboxed code defined: with pickle writing them by reference, a value that
  passes, streamed or in one piece, meets none of them, and what was written is
  its pickle unchanged.
\<close>

theorem sendable_holds_no_sandbox_code:
  assumes "by_reference pieces meets" and "dump_sendable pieces meets v = Inr out"
  shows "list_all (\<lambda>g. \<not> is_sandbox_module (cr_home g)) (meets v) \<and> pieces v = Inr out
       \<and> check_sendable (\<lambda>v. rbind (pieces v) (\<lambda>ps. Inr (concat ps))) meets v = Inr (concat out)"
proof -
  obtain ps where ps: "pieces v = Inr ps"
    using assms(2) by (auto simp: dump_sendable_def rbind_eq_Inr_iff)
  have run: "sc_found (foldl scan_write scan_new ps) = str_in PREFIX (concat ps)"
    "sc_out (foldl scan_write scan_new ps) = ps"
    using scan_inv_run [of ps] by (auto simp: scan_inv_def)
  have out: "out = ps" using assms(2) ps run(2) by (auto simp: dump_sendable_def Let_def rbind_eq_Inr_iff split: if_splits)
  have "list_all (\<lambda>g. \<not> refused g) (meets v)"
  proof (cases "str_in PREFIX (concat ps)")
    case True
    with assms(2) ps run have "refusing_dump (meets v) = Inr ()"
      by (auto simp: dump_sendable_def Let_def rbind_eq_Inr_iff)
    then show ?thesis by (simp add: refusing_dump_ok)
  next
    case False
    then show ?thesis using reference_has_prefix [OF assms(1) ps] by (auto simp: list_all_iff)
  qed
  moreover from this have "refusing_dump (meets v) = Inr ()" by (simp add: refusing_dump_ok)
  ultimately show ?thesis using ps out by (simp add: check_sendable_def refused_def)
qed

definition ex_pieces :: "string list \<Rightarrow> string list res" where
  "ex_pieces v = Inr v"

definition ex_meets :: "string list \<Rightarrow> code_ref list" where
  "ex_meets v = (if v = [''collections'', ''Counter''] then [\<lparr>cr_is_class = True, cr_home = Some ''collections'', cr_qualname = ''Counter''\<rparr>] else [])"

theorem sendable_witness:
  "list_all (\<lambda>g. \<not> is_sandbox_module (cr_home g)) (ex_meets [''collections'', ''Counter''])
   \<and> ex_pieces [''collections'', ''Counter''] = Inr [''collections'', ''Counter'']
   \<and> check_sendable (\<lambda>v. rbind (ex_pieces v) (\<lambda>ps. Inr (concat ps))) ex_meets [''collections'', ''Counter'']
       = Inr (concat [''collections'', ''Counter''])"
proof (rule sendable_holds_no_sandbox_code)
  show "by_reference ex_pieces ex_meets"
    by (auto simp: by_reference_def ex_pieces_def ex_meets_def)
  show "dump_sendable ex_pieces ex_meets [''collections'', ''Counter''] = Inr [''collections'', ''Counter'']"
    by code_simp
qed

end
