(* ===== verification/Spool.thy ===== *)
theory Spool
  imports Home
begin

text \<open>
  Results spooled to files (\<open>sandtrap/process/spool.py\<close>): the worker's writer,
  which keeps a small pickle in memory and moves a larger one to a file of its
  own, the spooling of a namespace, and the parent's mapping that reads a value
  when it is first asked for. The spool directory is a dictionary from file
  names to files; \<open>secrets.token_hex\<close> supplies a list of names, one per value;
  \<open>pickle\<close> is a parameter.
\<close>

definition INLINE_LIMIT :: nat where
  "INLINE_LIMIT = 64 * 1024"

record spool_file =
  sf_content :: string
  sf_regular :: bool
  sf_link :: bool

type_synonym spool_dir = "(string, spool_file) dict"

record spool_entry =
  en_size :: nat
  en_file :: "string option"
  en_data :: "string option"

section \<open>The writer\<close>

record spool_writer =
  sw_buffer :: "string option"
  sw_file :: "string option"
  sw_size :: nat

definition SpoolWriter :: spool_writer where
  "SpoolWriter = \<lparr>sw_buffer = Some [], sw_file = None, sw_size = 0\<rparr>"

definition new_file :: "string \<Rightarrow> spool_file" where
  "new_file s = \<lparr>sf_content = s, sf_regular = True, sf_link = False\<rparr>"

definition file_append :: "string \<Rightarrow> string \<Rightarrow> spool_dir \<Rightarrow> spool_dir" where
  "file_append f s dir =
     (case dget dir f of
        Some x \<Rightarrow> dset f (x\<lparr>sf_content := sf_content x @ s\<rparr>) dir
      | None \<Rightarrow> dir)"

definition sw_write ::
  "string \<Rightarrow> spool_dir \<times> spool_writer \<Rightarrow> string \<Rightarrow> (spool_dir \<times> spool_writer) res" where
  "sw_write token st data =
     (case st of (dir, w) \<Rightarrow>
        (case sw_file w of
           Some f \<Rightarrow> Inr (file_append f data dir, w\<lparr>sw_size := sw_size w + length data\<rparr>)
         | None \<Rightarrow>
             (case sw_buffer w of
                None \<Rightarrow> Inl (Exc AssertionError [])
              | Some buf \<Rightarrow>
                  if sw_size w + length data \<le> INLINE_LIMIT
                  then Inr (dir, w\<lparr>sw_buffer := Some (buf @ data), sw_size := sw_size w + length data\<rparr>)
                  else
                    (let name = token @ ''.pkl'' in
                     if dmem name dir then Inl (Exc FileExistsError name)
                     else Inr (file_append name data (dset name (new_file buf) dir),
                               w\<lparr>sw_file := Some name, sw_buffer := None,
                                 sw_size := sw_size w + length data\<rparr>)))))"

definition sw_finish :: "spool_writer \<Rightarrow> spool_entry" where
  "sw_finish w =
     (case sw_file w of
        None \<Rightarrow> \<lparr>en_size = sw_size w, en_file = None, en_data = sw_buffer w\<rparr>
      | Some f \<Rightarrow> \<lparr>en_size = sw_size w, en_file = Some f, en_data = None\<rparr>)"

definition sw_discard :: "spool_dir \<times> spool_writer \<Rightarrow> spool_dir" where
  "sw_discard st = (case st of (dir, w) \<Rightarrow> (case sw_file w of None \<Rightarrow> dir | Some f \<Rightarrow> dpop f dir))"

fun sw_writes ::
  "string \<Rightarrow> spool_dir \<times> spool_writer \<Rightarrow> string list \<Rightarrow> (spool_dir \<times> spool_writer) res" where
  "sw_writes token st [] = Inr st"
| "sw_writes token st (d # ds) = rbind (sw_write token st d) (\<lambda>st'. sw_writes token st' ds)"

section \<open>Spooling a namespace\<close>

text \<open>
  One value: \<open>dumped v\<close> is what pickle writes and the error it ends with, if any;
  the scanner and the refusing pickler decide as in \<open>dump_sendable\<close>. A failed
  exclusive creation happens before the file is the writer's, so there is
  nothing to discard.
\<close>

definition spool_value ::
  "('v \<Rightarrow> string list \<times> pyerr option) \<Rightarrow> ('v \<Rightarrow> code_ref list) \<Rightarrow> string \<Rightarrow> 'v \<Rightarrow> spool_dir \<Rightarrow>
   spool_entry option \<times> spool_dir" where
  "spool_value dumped meets token v dir =
     (case dumped v of (ps, err) \<Rightarrow>
        (case sw_writes token (dir, SpoolWriter) ps of
           Inl e \<Rightarrow> (None, dir)
         | Inr (dir', w) \<Rightarrow>
             (if err \<noteq> None \<or>
                 sc_found (foldl scan_write scan_new ps) \<and> refusing_dump (meets v) \<noteq> Inr ()
              then (None, sw_discard (dir', w))
              else (Some (sw_finish w), dir'))))"

fun spool_namespace ::
  "('v \<Rightarrow> string list \<times> pyerr option) \<Rightarrow> ('v \<Rightarrow> code_ref list) \<Rightarrow> (string \<times> 'v) list \<Rightarrow> string list \<Rightarrow>
   spool_dir \<Rightarrow> (string, spool_entry) dict \<times> string list \<times> spool_dir" where
  "spool_namespace dumped meets ((name, v) # ns) (token # tokens) dir =
     (case spool_value dumped meets token v dir of (entry, dir1) \<Rightarrow>
        (case spool_namespace dumped meets ns tokens dir1 of (entries, dropped, dir2) \<Rightarrow>
           (case entry of
              Some e \<Rightarrow> ((name, e) # entries, dropped, dir2)
            | None \<Rightarrow> (entries, name # dropped, dir2))))"
| "spool_namespace dumped meets _ _ dir = ([], [], dir)"

section \<open>The parent's mapping\<close>

definition is_hex :: "char \<Rightarrow> bool" where
  "is_hex c = (c \<in> set ''0123456789abcdef'')"

text \<open>\<open>_FILE_RE.fullmatch\<close>: 32 hexadecimal digits and the suffix.\<close>

definition file_name_ok :: "string \<Rightarrow> bool" where
  "file_name_ok f = (length f = 36 \<and> list_all is_hex (take 32 f) \<and> drop 32 f = ''.pkl'')"

record 'v spooled =
  sp_entries :: "(string, spool_entry) dict"
  sp_values :: "(string, 'v) dict"
  sp_files :: "string list"

definition SpooledNamespace :: "(string, spool_entry) dict \<Rightarrow> 'v spooled res" where
  "SpooledNamespace entries =
     (case find (\<lambda>(n, e). \<exists>f. en_file e = Some f \<and> \<not> file_name_ok f) entries of
        Some (n, e) \<Rightarrow> Inl (Exc ValueError (''unexpected spool file name for '' @ n))
      | None \<Rightarrow> Inr \<lparr>sp_entries = entries, sp_values = [],
                     sp_files = List.map_filter (\<lambda>(n, e). en_file e) entries\<rparr>)"

definition sp_sizes :: "'v spooled \<Rightarrow> (string, nat) dict" where
  "sp_sizes sp = map (\<lambda>(n, e). (n, en_size e)) (sp_entries sp)"

text \<open>\<open>_read\<close>: the value, and the directory and the list of files without the one read.\<close>

definition sp_read ::
  "(string \<Rightarrow> 'v res) \<Rightarrow> string \<Rightarrow> spool_entry \<Rightarrow> 'v spooled \<Rightarrow> spool_dir \<Rightarrow>
   ('v \<times> 'v spooled \<times> spool_dir) res" where
  "sp_read loads name e sp dir =
     (case en_file e of
        None \<Rightarrow>
          (case en_data e of
             None \<Rightarrow> Inl (Exc AssertionError [])
           | Some d \<Rightarrow> rbind (loads d) (\<lambda>v. Inr (v, sp, dir)))
      | Some f \<Rightarrow>
          (case dget dir f of
             None \<Rightarrow> Inl (Exc SpoolClosedError (name @ '' was never read, and its sandbox has closed''))
           | Some x \<Rightarrow>
               if sf_link x then Inl (Exc ValueError (''spool file for '' @ name @ '' is not one the worker wrote''))
               else if \<not> sf_regular x then Inl (Exc ValueError (''spool file for '' @ name @ '' is not a regular file''))
               else rbind (loads (sf_content x)) (\<lambda>v.
                      Inr (v, sp\<lparr>sp_files := removeAll f (sp_files sp)\<rparr>, dpop f dir))))"

definition sp_getitem ::
  "(string \<Rightarrow> 'v res) \<Rightarrow> string \<Rightarrow> 'v spooled \<Rightarrow> spool_dir \<Rightarrow> ('v \<times> 'v spooled \<times> spool_dir) res" where
  "sp_getitem loads name sp dir =
     (case dget (sp_values sp) name of
        Some v \<Rightarrow> Inr (v, sp, dir)
      | None \<Rightarrow>
          (case dget (sp_entries sp) name of
             None \<Rightarrow> Inl (Exc KeyError name)
           | Some e \<Rightarrow>
               rbind (sp_read loads name e sp dir) (\<lambda>(v, sp', dir').
                 Inr (v, sp'\<lparr>sp_values := dset name v (sp_values sp')\<rparr>, dir'))))"

text \<open>\<open>_remove\<close>: the files of values never read, when the mapping goes or the sandbox closes.\<close>

definition sp_remove :: "'v spooled \<Rightarrow> spool_dir \<Rightarrow> 'v spooled \<times> spool_dir" where
  "sp_remove sp dir = (sp\<lparr>sp_files := []\<rparr>, fold dpop (sp_files sp) dir)"

text \<open>\<open>in\<close>, iteration and \<open>len\<close> look at the entries only.\<close>

definition sp_contains :: "string \<Rightarrow> 'v spooled \<Rightarrow> bool" where
  "sp_contains name sp = dmem name (sp_entries sp)"

definition sp_iter :: "'v spooled \<Rightarrow> string list" where
  "sp_iter sp = map fst (sp_entries sp)"

definition sp_len :: "'v spooled \<Rightarrow> nat" where
  "sp_len sp = length (sp_entries sp)"

text \<open>Reading a value changes none of them, and a name that is not there is a \<open>KeyError\<close>.\<close>

lemma sp_getitem_keeps_names:
  "sp_getitem loads name sp dir = Inr (v, sp', dir') \<Longrightarrow> sp_entries sp' = sp_entries sp"
  by (auto simp: sp_getitem_def sp_read_def res_simps split: option.splits if_splits)

lemma sp_getitem_missing:
  assumes "\<not> sp_contains name sp" "dget (sp_values sp) name = None"
  shows "sp_getitem loads name sp dir = Inl (Exc KeyError name)"
  using assms by (auto simp: sp_contains_def sp_getitem_def dmem_def split: option.splits dest: map_of_SomeD intro: rev_image_eqI)


section \<open>What the writer has written\<close>

lemma dset_append_last: "k \<notin> fst ` set d \<Longrightarrow> dset k v (d @ [(k, u)]) = d @ [(k, v)]"
  by (induction d) auto

lemma dpop_append_last: "k \<notin> fst ` set d \<Longrightarrow> dpop k (d @ [(k, u)]) = d"
  by (induction d) (auto simp: AList.delete_eq)

lemma dget_append_last: "k \<notin> fst ` set d \<Longrightarrow> dget (d @ [(k, u)]) k = Some u"
  by (induction d) auto

definition sw_inv :: "string \<Rightarrow> spool_dir \<Rightarrow> spool_dir \<times> spool_writer \<Rightarrow> string \<Rightarrow> bool" where
  "sw_inv name dir0 st s \<longleftrightarrow>
     (case st of (dir, w) \<Rightarrow>
        sw_size w = length s \<and>
        (case sw_file w of
           None \<Rightarrow> dir = dir0 \<and> sw_buffer w = Some s \<and> length s \<le> INLINE_LIMIT
         | Some f \<Rightarrow> f = name \<and> dir = dir0 @ [(name, new_file s)] \<and> length s > INLINE_LIMIT))"

lemma sw_write_inv:
  assumes "sw_inv (token @ ''.pkl'') dir0 st s" "token @ ''.pkl'' \<notin> fst ` set dir0"
  shows "\<exists>st'. sw_write token st d = Inr st' \<and> sw_inv (token @ ''.pkl'') dir0 st' (s @ d)"
proof -
  obtain dir w where st: "st = (dir, w)" by (cases st)
  have absent: "dget dir0 (token @ ''.pkl'') = None" using assms(2) by (simp add: map_of_eq_None_iff)
  show ?thesis
  proof (cases "sw_file w")
    case None
    with assms st absent show ?thesis
      by (auto simp: sw_inv_def sw_write_def Let_def dmem_def file_append_def dset_new dget_append_last
          dset_append_last new_file_def split: option.splits)
  next
    case (Some f)
    with assms st absent show ?thesis
      by (auto simp: sw_inv_def sw_write_def file_append_def map_add_def dset_append_last new_file_def)
  qed
qed

lemma sw_writes_inv:
  "sw_inv (token @ ''.pkl'') dir0 st s \<Longrightarrow> token @ ''.pkl'' \<notin> fst ` set dir0 \<Longrightarrow>
   \<exists>st'. sw_writes token st ds = Inr st' \<and> sw_inv (token @ ''.pkl'') dir0 st' (s @ concat ds)"
proof (induction ds arbitrary: st s)
  case (Cons d ds)
  obtain st1 where "sw_write token st d = Inr st1" "sw_inv (token @ ''.pkl'') dir0 st1 (s @ d)"
    using sw_write_inv [OF Cons.prems] by blast
  with Cons.IH [of st1 "s @ d"] Cons.prems(2) show ?case by simp
qed simp

lemma sw_inv_new [simp]: "sw_inv name dir (dir, SpoolWriter) []"
  by (simp add: sw_inv_def SpoolWriter_def)

text \<open>What reading an entry yields: the bytes, from the pipe or from the file.\<close>

definition entry_bytes :: "spool_dir \<Rightarrow> spool_entry \<Rightarrow> string option" where
  "entry_bytes dir e =
     (case en_file e of
        None \<Rightarrow> en_data e
      | Some f \<Rightarrow> (case dget dir f of
            Some x \<Rightarrow> if sf_regular x \<and> \<not> sf_link x then Some (sf_content x) else None
          | None \<Rightarrow> None))"

lemma spool_value_cases:
  assumes "token @ ''.pkl'' \<notin> fst ` set dir" "dumped v = (ps, err)"
    and "spool_value dumped meets token v dir = (r, dir')"
  shows "case r of
     None \<Rightarrow> dir' = dir
   | Some e \<Rightarrow> err = None \<and> en_size e = length (concat ps) \<and> entry_bytes dir' e = Some (concat ps) \<and>
       (if length (concat ps) \<le> INLINE_LIMIT then dir' = dir \<and> en_file e = None
        else dir' = dir @ [(token @ ''.pkl'', new_file (concat ps))] \<and> en_file e = Some (token @ ''.pkl''))"
proof -
  obtain dir1 w where w: "sw_writes token (dir, SpoolWriter) ps = Inr (dir1, w)"
    and inv: "sw_inv (token @ ''.pkl'') dir (dir1, w) (concat ps)"
    using sw_writes_inv [OF sw_inv_new assms(1), of ps] by auto
  have absent: "dget dir (token @ ''.pkl'') = None" using assms(1) by (simp add: map_of_eq_None_iff)
  show ?thesis
    using assms w inv absent
    by (auto simp: spool_value_def sw_inv_def sw_discard_def sw_finish_def entry_bytes_def new_file_def
        dpop_append_last dget_append_last split: option.splits if_splits)
qed

section \<open>Round trip of a namespace\<close>

lemma entry_bytes_append:
  "entry_bytes dir e = Some b \<Longrightarrow> entry_bytes (dir @ extra) e = Some b"
  by (auto simp: entry_bytes_def map_add_def split: option.splits if_splits)

lemma fresh_tokens:
  assumes "dir1 = dir \<or> dir1 = dir @ [(token @ ''.pkl'', x)]" "token \<notin> set tokens"
    and "\<forall>t \<in> set tokens. t @ ''.pkl'' \<notin> fst ` set dir"
  shows "\<forall>t \<in> set tokens. t @ ''.pkl'' \<notin> fst ` set dir1"
proof (rule ballI)
  fix t assume t: "t \<in> set tokens"
  then have "t \<noteq> token" using assms(2) by blast
  moreover have "fst ` set dir1 \<subseteq> insert (token @ ''.pkl'') (fst ` set dir)" using assms(1) by auto
  ultimately show "t @ ''.pkl'' \<notin> fst ` set dir1" using assms(3) t by blast
qed

lemma spool_namespace_dir:
  assumes "distinct tokens" "\<forall>t \<in> set tokens. t @ ''.pkl'' \<notin> fst ` set dir"
    and "spool_namespace dumped meets ns tokens dir = (entries, dropped, dir')"
  shows "\<exists>extra. dir' = dir @ extra"
  using assms
proof (induction dumped meets ns tokens dir arbitrary: entries dropped dir' rule: spool_namespace.induct)
  case (1 dumped meets name v ns token tokens dir)
  obtain entry dir1 where sv: "spool_value dumped meets token v dir = (entry, dir1)" by fastforce
  obtain en dr d2 where rest: "spool_namespace dumped meets ns tokens dir1 = (en, dr, d2)"
    by (metis prod_cases3)
  obtain ps err where d: "dumped v = (ps, err)" by fastforce
  have "dir1 = dir \<or> dir1 = dir @ [(token @ ''.pkl'', new_file (concat ps))]"
    using spool_value_cases [OF _ d sv] 1 by (auto split: option.splits if_splits)
  moreover from this have "\<forall>t \<in> set tokens. t @ ''.pkl'' \<notin> fst ` set dir1"
    by (rule fresh_tokens) (use "1.prems" in simp_all)
  ultimately show ?case
    using "1.IH" [OF sv [symmetric] _ _ rest] "1.prems" sv rest by (auto split: option.splits)
qed auto

lemma spool_namespace_entry:
  assumes "distinct tokens" "\<forall>t \<in> set tokens. t @ ''.pkl'' \<notin> fst ` set dir"
    and "distinct (map fst ns)"
    and "spool_namespace dumped meets ns tokens dir = (entries, dropped, dir')"
    and "dget entries name = Some e"
  shows "\<exists>v ps. (name, v) \<in> set ns \<and> dumped v = (ps, None) \<and> en_size e = length (concat ps)
     \<and> entry_bytes dir' e = Some (concat ps) \<and> (en_file e = None \<longleftrightarrow> length (concat ps) \<le> INLINE_LIMIT)
     \<and> (\<forall>f. en_file e = Some f \<longrightarrow> f \<in> (\<lambda>t. t @ ''.pkl'') ` set tokens)"
  using assms
proof (induction dumped meets ns tokens dir arbitrary: entries dropped dir' rule: spool_namespace.induct)
  case (1 dumped meets n v ns token tokens dir)
  obtain entry dir1 where sv: "spool_value dumped meets token v dir = (entry, dir1)" by fastforce
  obtain en dr d2 where rest: "spool_namespace dumped meets ns tokens dir1 = (en, dr, d2)"
    by (metis prod_cases3)
  obtain ps err where d: "dumped v = (ps, err)" by fastforce
  note vc = spool_value_cases [OF _ d sv]
  have dir1: "dir1 = dir \<or> dir1 = dir @ [(token @ ''.pkl'', new_file (concat ps))]"
    using vc 1 by (auto split: option.splits if_splits)
  have fresh: "\<forall>t \<in> set tokens. t @ ''.pkl'' \<notin> fst ` set dir1"
    by (rule fresh_tokens [OF dir1]) (use "1.prems" in simp_all)
  obtain extra where extra: "d2 = dir1 @ extra"
    using spool_namespace_dir [OF _ fresh rest] 1 by auto
  have dir': "dir' = d2" and en: "entries = (case entry of Some x \<Rightarrow> (n, x) # en | None \<Rightarrow> en)"
    using "1.prems"(4) sv rest by (simp_all split: option.splits)
  consider (first) x where "entry = Some x" "name = n" "e = x" | (later) "dget en name = Some e"
    using "1.prems"(5) unfolding en by (cases entry; cases "name = n") auto
  then show ?case
  proof cases
    case first
    have x: "err = None" "en_size x = length (concat ps)" "entry_bytes dir1 x = Some (concat ps)"
      "en_file x = (if length (concat ps) \<le> INLINE_LIMIT then None else Some (token @ ''.pkl''))"
      using vc first(1) "1.prems"(2) by (auto split: if_splits)
    have "entry_bytes dir' e = Some (concat ps)"
      using entry_bytes_append [OF x(3)] extra dir' first(3) by simp
    moreover have "(name, v) \<in> set ((n, v) # ns)" using first(2) by simp
    ultimately show ?thesis using d x first(3) by (intro exI [of _ v] exI [of _ ps]) auto
  next
    case later
    from "1.IH" [OF sv [symmetric] _ fresh _ rest this] "1.prems" dir' show ?thesis by auto
  qed
qed auto

section \<open>Properties\<close>

lemma sp_getitem_entry:
  assumes "dget (sp_values sp) name = None" "dget (sp_entries sp) name = Some e"
    and "entry_bytes dir e = Some b" "loads b = Inr v"
  shows "\<exists>sp' dir'. sp_getitem loads name sp dir = Inr (v, sp', dir')
     \<and> (\<forall>dir''. sp_getitem loads name sp' dir'' = Inr (v, sp', dir''))
     \<and> dir' = (case en_file e of None \<Rightarrow> dir | Some f \<Rightarrow> dpop f dir)"
  using assms
  by (auto simp: sp_getitem_def sp_read_def entry_bytes_def split: option.splits if_splits)


definition ex_dumped :: "string \<Rightarrow> string list \<times> pyerr option" where
  "ex_dumped v = ([v], None)"

definition ex_entry :: spool_entry where
  "ex_entry = \<lparr>en_size = 2, en_file = None, en_data = Some ''42''\<rparr>"

definition ex_sp :: "string spooled" where
  "ex_sp = \<lparr>sp_entries = [(''x'', ex_entry)], sp_values = [], sp_files = []\<rparr>"


text \<open>
  The parent reads no file outside the spool directory: every file name it
  accepts from a worker is 36 characters without a slash.
\<close>

theorem spool_file_names_safe:
  assumes "SpooledNamespace entries = Inr sp" and "(n, e) \<in> set (sp_entries sp)" and "en_file e = Some f"
  shows "length f = 36 \<and> CHR ''/'' \<notin> set f"
proof -
  have "sp_entries sp = entries" using assms(1) by (auto simp: SpooledNamespace_def split: option.splits)
  then have ok: "file_name_ok f"
    using assms by (fastforce simp: SpooledNamespace_def find_None_iff split: option.splits)
  have "CHR ''/'' \<notin> set (take 32 f @ drop 32 f)"
    using ok by (auto simp: file_name_ok_def list_all_iff is_hex_def simp del: append_take_drop_id)
  then have "CHR ''/'' \<notin> set f" by (metis append_take_drop_id)
  with ok show ?thesis by (simp add: file_name_ok_def)
qed

definition ex_file_entry :: spool_entry where
  "ex_file_entry = \<lparr>en_size = 70000, en_file = Some ''0123456789abcdef0123456789abcdef.pkl'', en_data = None\<rparr>"

theorem spool_file_names_safe_witness:
  "length ''0123456789abcdef0123456789abcdef.pkl'' = 36 \<and> CHR ''/'' \<notin> set ''0123456789abcdef0123456789abcdef.pkl''"
  by (rule spool_file_names_safe [of "[(''x'', ex_file_entry)]"
        "\<lparr>sp_entries = [(''x'', ex_file_entry)], sp_values = [] :: (string, nat) dict,
          sp_files = [''0123456789abcdef0123456789abcdef.pkl'']\<rparr>" "''x''" ex_file_entry])
    (simp_all add: SpooledNamespace_def ex_file_entry_def file_name_ok_def is_hex_def List.map_filter_def)

end
