(* ===== verification/Worker.thy ===== *)
theory Worker
  imports Await Spool AttrGate
begin

text \<open>
  The worker's side of the pipe (\<open>process/worker.py\<close>) and what the protocol
  filters (\<open>process/protocol.py\<close>): the proxy for a host object, the markers that
  stand for it in a namespace, the reports of the clock, the answer to one
  execution request and the worker's loop. Pickling, importing a wrapper class
  and running the sandbox are arguments of the operations.
\<close>

section \<open>What crosses the pipe\<close>

text \<open>
  \<open>check\<close> is \<open>check_sendable\<close> for the values at hand (see \<open>Home\<close>), as a result.
  A print snapshot is dropped only for the three exceptions the code names.
\<close>

definition pickle_refusal :: "exc_class \<Rightarrow> bool" where
  "pickle_refusal c = (exc_caught_by c PicklingError \<or> exc_caught_by c TypeError \<or> exc_caught_by c AttributeError)"

fun filter_prints :: "('p \<Rightarrow> unit res) \<Rightarrow> 'p list \<Rightarrow> 'p list res" where
  "filter_prints check [] = Inr []"
| "filter_prints check (p # ps) =
     (case check p of
        Inr _ \<Rightarrow> rbind (filter_prints check ps) (\<lambda>qs. Inr (p # qs))
      | Inl e \<Rightarrow> if pickle_refusal (err_class e) then filter_prints check ps else Inl e)"

text \<open>A namespace entry is dropped for any \<open>Exception\<close>; another \<open>BaseException\<close> escapes.\<close>

fun partition_entries ::
  "('v \<Rightarrow> unit res) \<Rightarrow> (string \<times> 'v) list \<Rightarrow> ((string \<times> 'v) list \<times> string list) res" where
  "partition_entries check [] = Inr ([], [])"
| "partition_entries check ((k, v) # ns) =
     (case check v of
        Inr _ \<Rightarrow> rbind (partition_entries check ns) (\<lambda>(keep, drop). Inr ((k, v) # keep, drop))
      | Inl e \<Rightarrow>
          if exc_caught_by (err_class e) Exception
          then rbind (partition_entries check ns) (\<lambda>(keep, drop). Inr (keep, k # drop))
          else Inl e)"

definition partition_namespace ::
  "('v \<Rightarrow> unit res) \<Rightarrow> (string \<times> 'v) list option \<Rightarrow> ((string \<times> 'v) list option \<times> string list) res" where
  "partition_namespace check ns =
     (case ns of
        None \<Rightarrow> Inr (None, [])
      | Some es \<Rightarrow> rbind (partition_entries check es) (\<lambda>(keep, drop). Inr (Some keep, drop)))"

definition filter_namespace ::
  "('v \<Rightarrow> unit res) \<Rightarrow> (string \<times> 'v) list option \<Rightarrow> (string \<times> 'v) list option res" where
  "filter_namespace check ns = rbind (partition_namespace check ns) (\<lambda>(keep, _). Inr keep)"

text \<open>
  The public surface of a host object: \<open>names\<close> is \<open>dir(obj)\<close>. A name whose read
  raises is left out; a policy narrows the rest.
\<close>

fun rpc_surface ::
  "pyworld \<Rightarrow> policy option \<Rightarrow> oid \<Rightarrow> string list \<Rightarrow> (string list \<times> string list) res" where
  "rpc_surface w pol obj [] = Inr ([], [])"
| "rpc_surface w pol obj (n # ns) =
     (if startswith n ''_'' then rpc_surface w pol obj ns
      else
        rbind (case pol of None \<Rightarrow> Inr True | Some p \<Rightarrow> is_attr_allowed w p obj n) (\<lambda>ok.
          if \<not> ok then rpc_surface w pol obj ns
          else
            (case get_attr w obj n of
               Inl e \<Rightarrow>
                 if exc_caught_by (err_class e) Exception then rpc_surface w pol obj ns else Inl e
             | Inr v \<Rightarrow>
                 rbind (rpc_surface w pol obj ns) (\<lambda>(ms, as).
                   Inr (if is_callable w v then (n # ms, as) else (ms, n # as))))))"

section \<open>The proxy for a host object\<close>

record proxy_marker =
  pm_target :: string
  pm_wrapper :: "string option"
  pm_methods :: "string list option"
  pm_attributes :: "string list option"

record rpc_proxy =
  px_target :: string
  px_methods :: "string list option"
  px_attributes :: "string list option"

text \<open>Reading an attribute gives the method to call, or is refused.\<close>

definition proxy_getattr :: "rpc_proxy \<Rightarrow> string \<Rightarrow> string res" where
  "proxy_getattr px name =
     (if startswith name ''_'' then Inl (Exc AttributeError name)
      else if (case px_attributes px of None \<Rightarrow> False | Some as \<Rightarrow> name \<in> set as)
      then Inl (Exc AttributeError (name @ '' is a data attribute of the host object''))
      else if (case px_methods px of None \<Rightarrow> False | Some ms \<Rightarrow> name \<notin> set ms)
      then Inl (Exc AttributeError (name @ '' is not part of the host object's exposed surface''))
      else Inr name)"

definition proxy_setattr :: "rpc_proxy \<Rightarrow> string \<Rightarrow> 'v \<Rightarrow> unit res" where
  "proxy_setattr px name v =
     Inl (Exc AttributeError (''cannot set '' @ name @ '': this is a proxy for a host object in another process''))"

definition proxy_reduce :: "rpc_proxy \<Rightarrow> unit res" where
  "proxy_reduce px = Inl (Exc PicklingError ''RpcProxy is bound to its worker connection'')"

text \<open>
  One call: refused once the channel is closed or when the arguments cannot leave
  the sandbox; otherwise the call is sent under a fresh identifier and the answer
  must be a return for that identifier. \<open>exchange\<close> is the pipe with the parent
  behind it: sending, and then receiving, a message.
\<close>

datatype 'v parent_msg = Return "'v rpc_return" | OtherParentMsg string

definition round_trip ::
  "bool \<Rightarrow> ('v \<Rightarrow> unit res) \<Rightarrow> ('v rpc_call \<Rightarrow> 's \<Rightarrow> 'v parent_msg res \<times> 's) \<Rightarrow>
   rpc_proxy \<Rightarrow> string \<Rightarrow> string \<Rightarrow> 'v \<Rightarrow> 's \<Rightarrow> 'v res \<times> 's" where
  "round_trip channel_open check exchange px call_id method args s =
     (if \<not> channel_open
      then (Inl (Exc RpcChannelClosed (''cannot call '' @ method @ '' on the host: the worker is shutting down'')), s)
      else
        (case check args of
           Inl e \<Rightarrow> (Inl e, s)
         | Inr _ \<Rightarrow>
             (case exchange \<lparr>rc_call_id = call_id, rc_target = px_target px, rc_method = method, rc_args = args\<rparr> s of
                (Inl e, s') \<Rightarrow> (Inl e, s')
              | (Inr (OtherParentMsg n), s') \<Rightarrow>
                  (Inl (Exc RuntimeError (''unexpected message type during RPC: '' @ n)), s')
              | (Inr (Return m), s') \<Rightarrow>
                  (if rr_call_id m \<noteq> call_id
                   then (Inl (Exc RuntimeError (''RPC call_id mismatch (sent '' @ call_id @ '', got '' @ rr_call_id m @ '')'')), s')
                   else (case rr_answer m of Error e \<Rightarrow> (Inl e, s') | Value v \<Rightarrow> (Inr v, s'))))))"

text \<open>The exchange with a parent that runs \<open>dispatch_rpc\<close>; with nothing sent the pipe ends.\<close>

definition parent_exchange ::
  "(string \<times> ('v, 's) rpc_handler) list \<Rightarrow> ('v rpc_return \<Rightarrow> unit res) \<Rightarrow> 'v rpc_call \<Rightarrow> 's \<Rightarrow>
   'v parent_msg res \<times> 's" where
  "parent_exchange handlers send c s =
     (case dispatch_rpc handlers send c s of
        (m # _, s') \<Rightarrow> (Inr (Return m), s')
      | ([], s') \<Rightarrow> (Inl (Exc EOFError []), s'))"

section \<open>Markers in a namespace\<close>

text \<open>
  \<open>wrap\<close> imports the wrapper class (module, class name) and calls it on the proxy;
  a failure leaves the bare proxy.
\<close>

datatype 'v entry = Plain 'v | Marker proxy_marker

datatype 'v live = Live 'v | BareProxy rpc_proxy

definition partition_colon :: "string \<Rightarrow> string \<times> string" where
  "partition_colon s = (takeWhile (\<lambda>c. c \<noteq> CHR '':'') s, drop 1 (dropWhile (\<lambda>c. c \<noteq> CHR '':'') s))"

definition proxy_of :: "proxy_marker \<Rightarrow> rpc_proxy" where
  "proxy_of m = \<lparr>px_target = pm_target m, px_methods = pm_methods m, px_attributes = pm_attributes m\<rparr>"

fun substitute_entry ::
  "(string \<Rightarrow> string \<Rightarrow> proxy_marker \<Rightarrow> rpc_proxy \<Rightarrow> 'v res) \<Rightarrow> 'v entry \<Rightarrow> 'v live res" where
  "substitute_entry wrap (Plain v) = Inr (Live v)"
| "substitute_entry wrap (Marker m) =
     (case pm_wrapper m of
        None \<Rightarrow> Inr (BareProxy (proxy_of m))
      | Some path \<Rightarrow>
          (if path = [] then Inr (BareProxy (proxy_of m))
           else
             (case partition_colon path of (mod_name, cls_name) \<Rightarrow>
                (case wrap mod_name cls_name m (proxy_of m) of
                   Inr v \<Rightarrow> Inr (Live v)
                 | Inl e \<Rightarrow> if exc_caught_by (err_class e) Exception then Inr (BareProxy (proxy_of m)) else Inl e))))"

fun substitute_proxy_markers ::
  "(string \<Rightarrow> string \<Rightarrow> proxy_marker \<Rightarrow> rpc_proxy \<Rightarrow> 'v res) \<Rightarrow> (string \<times> 'v entry) list \<Rightarrow>
   (string \<times> 'v live) list res" where
  "substitute_proxy_markers wrap [] = Inr []"
| "substitute_proxy_markers wrap ((k, e) # ns) =
     rbind (substitute_entry wrap e) (\<lambda>v.
       rbind (substitute_proxy_markers wrap ns) (\<lambda>out. Inr ((k, v) # out)))"

section \<open>Reporting the clock\<close>

text \<open>
  \<open>running\<close> of \<open>worker_main\<close>: the running execution (a number for its scope
  object), whether the parent was told its clock is stopped, and the messages
  that were sent.
\<close>

record running =
  rn_scope :: "nat option"
  rn_paused :: bool
  rn_sent :: "bool list"

definition tell_parent :: "nat option \<times> bool \<Rightarrow> running \<Rightarrow> running" where
  "tell_parent ev r =
     (case ev of (scope, paused) \<Rightarrow>
        if scope = None \<or> scope \<noteq> rn_scope r then r
        else r\<lparr>rn_paused := paused, rn_sent := rn_sent r @ [paused]\<rparr>)"

definition begin_execution :: "nat \<Rightarrow> running \<Rightarrow> running" where
  "begin_execution scope r = r\<lparr>rn_scope := Some scope\<rparr>"

definition end_execution :: "running \<Rightarrow> running" where
  "end_execution r =
     (let r = r\<lparr>rn_scope := None\<rparr> in
      if rn_paused r then r\<lparr>rn_paused := False, rn_sent := rn_sent r @ [False]\<rparr> else r)"

text \<open>One execution, during which any clocks of any scopes report in any order.\<close>

definition execution :: "nat \<Rightarrow> (nat option \<times> bool) list \<Rightarrow> running \<Rightarrow> running" where
  "execution scope evs r = end_execution (fold tell_parent evs (begin_execution scope r))"

section \<open>Answering an execution request\<close>

text \<open>
  An error as the sandbox reports it: its class and name, what \<open>str\<close> of it gives,
  whether it has a traceback and accepts an attribute, and the rendered traceback
  riding on it.
\<close>

record wk_error =
  we_class :: exc_class
  we_type_name :: string
  we_str :: "string res"
  we_has_tb :: bool
  we_settable :: bool
  we_tb_text :: "string option"

record ('v, 'p) exec_result =
  er_namespace :: "(string \<times> 'v) list"
  er_stdout :: string
  er_stderr :: string
  er_error :: "wk_error option"
  er_ticks :: int
  er_prints :: "'p list"
  er_dropped :: "string list"
  er_rendered :: "string list"
  er_print_count :: int

record ('v, 'p) result_msg =
  rm_namespace :: "(string \<times> 'v) list"
  rm_stdout :: string
  rm_stderr :: string
  rm_error :: "wk_error option"
  rm_ticks :: int
  rm_prints :: "'p list"
  rm_dropped :: "string list"
  rm_rendered :: "string list"
  rm_print_count :: int
  rm_spooled :: "(string, spool_entry) dict option"

record ('v, 'q) exec_msg =
  xm_request :: 'q
  xm_namespace :: "(string \<times> 'v entry) list option"
  xm_modules :: "(string \<times> (string \<times> 'v entry) list) list option"

datatype ('v, 'p) reply = Reply "('v, 'p) result_msg" | ReplyError pyerr

text \<open>What the worker relies on: pickling, wrapper classes, the sandbox, the pipe.\<close>

record ('v, 'p, 'q) wk_env =
  wk_check :: "'v \<Rightarrow> unit res"
  wk_check_print :: "'p \<Rightarrow> unit res"
  wk_check_error :: "wk_error \<Rightarrow> unit res"
  wk_format :: "wk_error \<Rightarrow> string res"
  wk_wrap :: "string \<Rightarrow> string \<Rightarrow> proxy_marker \<Rightarrow> rpc_proxy \<Rightarrow> 'v res"
  wk_dumped :: "'v \<Rightarrow> string list \<times> pyerr option"
  wk_meets :: "'v \<Rightarrow> code_ref list"
  wk_exec :: "'q \<Rightarrow> (string \<times> 'v live) list option \<Rightarrow>
              (string \<times> (string \<times> 'v live) list) list option \<Rightarrow> ('v, 'p) exec_result res"
  wk_send :: "('v, 'p) reply \<Rightarrow> unit res"

record wk_state =
  wt_spool :: "spool_dir option"
  wt_collected :: nat
  wt_open :: bool

text \<open>The rendered traceback rides on the error; an error that takes no attribute stays as it is.\<close>

definition attach_traceback :: "(wk_error \<Rightarrow> string res) \<Rightarrow> wk_error \<Rightarrow> wk_error res" where
  "attach_traceback fmt err =
     (if \<not> we_has_tb err then Inr err
      else
        (case fmt err of
           Inr text \<Rightarrow> Inr (if we_settable err then err\<lparr>we_tb_text := Some text\<rparr> else err)
         | Inl e \<Rightarrow> if exc_caught_by (err_class e) Exception then Inr err else Inl e))"

definition stand_in :: "wk_error \<Rightarrow> wk_error" where
  "stand_in err =
     \<lparr>we_class = RuntimeError, we_type_name = ''RuntimeError'',
      we_str = Inr (case we_str err of
                      Inr t \<Rightarrow> we_type_name err @ '': '' @ t
                    | Inl _ \<Rightarrow> ''unrepresentable '' @ we_type_name err),
      we_has_tb = False, we_settable = True, we_tb_text = we_tb_text err\<rparr>"

definition ship_error ::
  "(wk_error \<Rightarrow> string res) \<Rightarrow> (wk_error \<Rightarrow> unit res) \<Rightarrow> wk_error option \<Rightarrow> wk_error option res" where
  "ship_error fmt check err =
     (case err of
        None \<Rightarrow> Inr None
      | Some e0 \<Rightarrow>
          rbind (attach_traceback fmt e0) (\<lambda>e1.
            case check e1 of
              Inr _ \<Rightarrow> Inr (Some e1)
            | Inl x \<Rightarrow> if exc_caught_by (err_class x) Exception then Inr (Some (stand_in e1)) else Inl x))"

definition memory_failed :: "('v, 'p) exec_result \<Rightarrow> bool" where
  "memory_failed r =
     (case er_error r of None \<Rightarrow> False | Some e \<Rightarrow> exc_caught_by (we_class e) MemoryError)"

fun substitute_modules ::
  "(string \<Rightarrow> string \<Rightarrow> proxy_marker \<Rightarrow> rpc_proxy \<Rightarrow> 'v res) \<Rightarrow>
   (string \<times> (string \<times> 'v entry) list) list \<Rightarrow> (string \<times> (string \<times> 'v live) list) list res" where
  "substitute_modules wrap [] = Inr []"
| "substitute_modules wrap ((m, as) # ms) =
     rbind (substitute_proxy_markers wrap as) (\<lambda>l.
       rbind (substitute_modules wrap ms) (\<lambda>ls. Inr ((m, l) # ls)))"

definition opt_map :: "('a \<Rightarrow> 'b res) \<Rightarrow> 'a option \<Rightarrow> 'b option res" where
  "opt_map f x = (case x of None \<Rightarrow> Inr None | Some a \<Rightarrow> rbind (f a) (\<lambda>b. Inr (Some b)))"

text \<open>From the result of the sandbox to the message; \<open>tokens\<close> are the fresh spool file names.\<close>

definition result_message ::
  "('v, 'p, 'q) wk_env \<Rightarrow> string list \<Rightarrow> ('v, 'p) exec_result \<Rightarrow> spool_dir option \<Rightarrow>
   ('v, 'p) result_msg res \<times> spool_dir option" where
  "result_message env tokens r spool =
     (let ns = (case spool of
                  Some dir \<Rightarrow>
                    (case spool_namespace (wk_dumped env) (wk_meets env) (er_namespace r) tokens dir of
                       (entries, lost, dir') \<Rightarrow> Inr ([], lost, Some entries, Some dir'))
                | None \<Rightarrow>
                    rbind (partition_entries (wk_check env) (er_namespace r)) (\<lambda>(keep, lost).
                      Inr (keep, lost, None, None)))
      in case ns of
           Inl e \<Rightarrow> (Inl e, spool)
         | Inr (keep, lost, spooled, spool') \<Rightarrow>
             (rbind (ship_error (wk_format env) (wk_check_error env) (er_error r)) (\<lambda>err.
                rbind (filter_prints (wk_check_print env) (er_prints r)) (\<lambda>prints.
                  Inr \<lparr>rm_namespace = keep, rm_stdout = er_stdout r, rm_stderr = er_stderr r,
                       rm_error = err, rm_ticks = er_ticks r, rm_prints = prints,
                       rm_dropped = er_dropped r @ lost, rm_rendered = er_rendered r,
                       rm_print_count = er_print_count r, rm_spooled = spooled\<rparr>)),
              spool'))"

text \<open>
  One request. The reply that was sent is \<open>None\<close> only when not even the report of
  a failure could be sent: the exception then ends the worker.
\<close>

definition reply_error :: "('v, 'p, 'q) wk_env \<Rightarrow> pyerr \<Rightarrow> ('v, 'p) reply option" where
  "reply_error env e = (case wk_send env (ReplyError e) of Inr _ \<Rightarrow> Some (ReplyError e) | Inl _ \<Rightarrow> None)"

definition handle_exec ::
  "('v, 'p, 'q) wk_env \<Rightarrow> string list \<Rightarrow> ('v, 'q) exec_msg \<Rightarrow> wk_state \<Rightarrow> ('v, 'p) reply option \<times> wk_state" where
  "handle_exec env tokens msg st =
     (case rbind (opt_map (substitute_proxy_markers (wk_wrap env)) (xm_namespace msg)) (\<lambda>ns.
             rbind (opt_map (substitute_modules (wk_wrap env)) (xm_modules msg)) (\<lambda>mods.
               wk_exec env (xm_request msg) ns mods)) of
        Inl e \<Rightarrow> (reply_error env e, st)
      | Inr r \<Rightarrow>
          (case result_message env tokens r (wt_spool st) of
             (Inl e, dir) \<Rightarrow> (reply_error env e, st\<lparr>wt_spool := dir\<rparr>)
           | (Inr m, dir) \<Rightarrow>
               (case wk_send env (Reply m) of
                  Inl e \<Rightarrow> (reply_error env e, st\<lparr>wt_spool := dir\<rparr>)
                | Inr _ \<Rightarrow>
                    (Some (Reply m),
                     st\<lparr>wt_spool := dir, wt_collected := wt_collected st + (if memory_failed r then 1 else 0)\<rparr>))))"

datatype ('v, 'q) inbound = ExecMsg "('v, 'q) exec_msg" "string list" | ShutdownMsg | EndOfPipe | OtherInbound

text \<open>
  The loop: the replies, the state, and whether the loop ended by shutting the
  channel (\<open>Some True\<close>), by an escaping exception (\<open>Some False\<close>) or still waits.
\<close>

fun worker_loop ::
  "('v, 'p, 'q) wk_env \<Rightarrow> ('v, 'q) inbound list \<Rightarrow> wk_state \<Rightarrow>
   ('v, 'p) reply list \<times> wk_state \<times> bool option" where
  "worker_loop env [] st = ([], st, None)"
| "worker_loop env (ShutdownMsg # ms) st = ([], st\<lparr>wt_open := False\<rparr>, Some True)"
| "worker_loop env (EndOfPipe # ms) st = ([], st\<lparr>wt_open := False\<rparr>, Some True)"
| "worker_loop env (OtherInbound # ms) st = worker_loop env ms st"
| "worker_loop env (ExecMsg q tokens # ms) st =
     (case handle_exec env tokens q st of
        (None, st') \<Rightarrow> ([], st', Some False)
      | (Some rep, st') \<Rightarrow>
          (case worker_loop env ms st' of (reps, st'', fin) \<Rightarrow> (rep # reps, st'', fin)))"

section \<open>Laws of the filters\<close>

lemma partition_entries_parts:
  assumes "partition_entries check ns = Inr (keep, lost)"
  shows "keep = filter (\<lambda>(k, v). \<not> isl (check v)) ns \<and> lost = map fst (filter (\<lambda>(k, v). isl (check v)) ns)"
  using assms
proof (induction check ns arbitrary: keep lost rule: partition_entries.induct)
  case (2 check k v ns)
  then show ?case
    by (cases "check v") (auto simp: res_simps isl_def split: if_splits)
qed simp

text \<open>A function that raises only exceptions of a kind.\<close>

definition raises_only :: "(exc_class \<Rightarrow> bool) \<Rightarrow> ('a \<Rightarrow> 'b res) \<Rightarrow> bool" where
  "raises_only kind f = (\<forall>x e. f x = Inl e \<longrightarrow> kind (err_class e))"

abbreviation ordinary :: "exc_class \<Rightarrow> bool" where
  "ordinary c \<equiv> exc_caught_by c Exception"

lemma partition_entries_total:
  assumes "raises_only ordinary check"
  shows "\<exists>keep lost. partition_entries check ns = Inr (keep, lost)"
  using assms
proof (induction check ns rule: partition_entries.induct)
  case (2 check k v ns)
  then show ?case by (cases "check v") (fastforce simp: raises_only_def)+
qed simp

lemma filter_prints_total:
  assumes "raises_only pickle_refusal check"
  shows "filter_prints check ps = Inr (filter (\<lambda>p. \<not> isl (check p)) ps)"
  using assms
proof (induction check ps rule: filter_prints.induct)
  case (2 check p ps)
  then show ?case by (cases "check p") (auto simp: raises_only_def)
qed simp

lemma rpc_surface_names:
  assumes "rpc_surface w pol obj ns = Inr (ms, as)"
  shows "set ms \<union> set as \<subseteq> {n \<in> set ns. \<not> startswith n ''_''
     \<and> (\<forall>p. pol = Some p \<longrightarrow> is_attr_allowed w p obj n = Inr True)}"
  using assms
proof (induction ns arbitrary: ms as)
  case (Cons n ns)
  consider "rpc_surface w pol obj ns = Inr (ms, as)"
    | ms' as' where "rpc_surface w pol obj ns = Inr (ms', as')" "\<not> startswith n ''_''"
        "\<forall>p. pol = Some p \<longrightarrow> is_attr_allowed w p obj n = Inr True"
        "set ms \<union> set as = insert n (set ms' \<union> set as')"
    using Cons.prems by (auto simp: res_simps split: if_splits option.splits sum.splits)
  then show ?case
  proof cases
    case 1
    from Cons.IH [OF this] show ?thesis by auto
  next
    case 2
    from Cons.IH [OF 2(1)] 2(2-4) show ?thesis by auto
  qed
qed simp

lemma stand_in_names:
  "we_class (stand_in e) = RuntimeError \<and> (\<exists>t. we_str (stand_in e) = Inr t \<and> str_in (we_type_name e) t)"
proof -
  have "str_in (we_type_name e) (we_type_name e @ '': '' @ t)" for t
    unfolding str_in_iff by (rule exI [of _ "[]"]) simp
  moreover have "str_in (we_type_name e) (''unrepresentable '' @ we_type_name e)"
    unfolding str_in_iff by (intro exI [of _ "''unrepresentable ''"] exI [of _ "[]"]) simp
  ultimately show ?thesis by (cases "we_str e") (auto simp: stand_in_def)
qed

text \<open>An error is shipped as itself, with its traceback, or as its stand-in.\<close>

lemma ship_error_reports:
  assumes "raises_only ordinary check" "raises_only ordinary fmt"
  shows "\<exists>err. ship_error fmt check e0 = Inr err \<and>
    (case e0 of None \<Rightarrow> err = None
     | Some e \<Rightarrow> (\<exists>e'. err = Some e' \<and>
         (we_class e' = we_class e \<and> we_str e' = we_str e
          \<or> (\<exists>t. we_class e' = RuntimeError \<and> we_str e' = Inr t \<and> str_in (we_type_name e) t))))"
proof (cases e0)
  case (Some e)
  have "\<exists>e1. attach_traceback fmt e = Inr e1 \<and> we_class e1 = we_class e \<and> we_str e1 = we_str e
      \<and> we_type_name e1 = we_type_name e"
    using assms(2) by (cases "fmt e") (auto simp: attach_traceback_def raises_only_def)
  then obtain e1 where e1: "attach_traceback fmt e = Inr e1" "we_class e1 = we_class e" "we_str e1 = we_str e"
    "we_type_name e1 = we_type_name e" by blast
  show ?thesis
    using Some e1 assms(1) stand_in_names [of e1]
    by (cases "check e1") (auto simp: ship_error_def raises_only_def)
qed (simp add: ship_error_def)

section \<open>What the parent hears of the clock\<close>

definition reports :: "nat \<Rightarrow> (nat option \<times> bool) list \<Rightarrow> bool list" where
  "reports scope evs = map snd (filter (\<lambda>(sc, _). sc = Some scope) evs)"

lemma tell_parent_run:
  assumes "rn_scope r = Some scope" "rn_paused r = List.last (False # bs)" "rn_sent r = old @ bs"
  shows "rn_sent (fold tell_parent evs r) = old @ bs @ reports scope evs
    \<and> rn_paused (fold tell_parent evs r) = List.last (False # bs @ reports scope evs)"
  using assms
proof (induction evs arbitrary: r bs)
  case (Cons ev evs)
  obtain sc b where ev: "ev = (sc, b)" by fastforce
  show ?case
  proof (cases "sc = Some scope")
    case True
    from Cons.IH [of "tell_parent ev r" "bs @ [b]"] Cons.prems True ev show ?thesis
      by (simp add: tell_parent_def reports_def)
  next
    case False
    then have "tell_parent ev r = r" using Cons.prems(1) ev by (auto simp: tell_parent_def)
    with Cons.IH [OF Cons.prems] False ev show ?thesis by (simp add: reports_def)
  qed
qed (simp add: reports_def)

lemma clock_stopped_heard:
  "map tn_arrival ts = map (\<lambda>b. Arrives (HostTimeMsg b)) bs \<Longrightarrow> clock_stopped st ts = List.last (st # bs)"
proof (induction bs arbitrary: st ts)
  case (Cons b bs)
  then show ?case by (cases ts) auto
qed simp

section \<open>A call and its answer\<close>

lemma round_trip_handler:
  assumes "check args = Inr u" and "map_of handlers (px_target px) = Some handler"
    and "handler method args s = (r, s')"
    and "\<And>e. send \<lparr>rr_call_id = call_id, rr_answer = Error e\<rparr> = Inr ()"
  shows "round_trip True check (parent_exchange handlers send) px call_id method args s =
    (case r of
       Inl e \<Rightarrow> (Inl e, s')
     | Inr v \<Rightarrow>
         (case send \<lparr>rr_call_id = call_id, rr_answer = Value v\<rparr> of
            Inr _ \<Rightarrow> (Inr v, s')
          | Inl x \<Rightarrow>
              (Inl (Exc RuntimeError (''rpc return for call_id='' @ call_id @
                 '' could not be serialized: '' @ err_msg x)), s')))"
  using assms
  by (cases r) (auto simp: round_trip_def parent_exchange_def dispatch_rpc_def send_rpc_return_def Let_def
      split: sum.splits)

section \<open>The loop\<close>

fun going :: "('v, 'q) inbound \<Rightarrow> bool" where
  "going ShutdownMsg = False"
| "going EndOfPipe = False"
| "going _ = True"

fun is_request :: "('v, 'q) inbound \<Rightarrow> bool" where
  "is_request (ExecMsg _ _) = True"
| "is_request _ = False"

lemma handle_exec_replies:
  assumes "\<forall>e. wk_send env (ReplyError e) = Inr ()"
  shows "\<exists>rep st'. handle_exec env tokens msg st = (Some rep, st') \<and> wt_open st' = wt_open st"
  using assms by (auto simp: handle_exec_def reply_error_def split: sum.splits prod.splits)

section \<open>Properties\<close>


text \<open>
  Through a declared surface only public names that the policy allows on the
  host object reach the host; everything else is refused in the worker, writes
  included, and nothing of the proxy leaves the worker.
\<close>

theorem proxy_surface_bounded:
  assumes "rpc_surface w (Some pol) obj ns = Inr (ms, as)"
    and "proxy_getattr \<lparr>px_target = t, px_methods = Some ms, px_attributes = Some as\<rparr> name = Inr n"
  shows "n = name \<and> name \<in> set ns \<and> \<not> startswith name ''_''
    \<and> is_attr_allowed w pol obj name = Inr True"
  using rpc_surface_names [OF assms(1)] assms(2)
  by (auto simp: proxy_getattr_def split: if_splits)

text \<open>
  C31: whichever clocks report during an execution, the parent hears of the running
  execution's only, in order, and when the execution is over it has been told that
  the clock is running again: no pause of one execution reaches the next.
\<close>

theorem execution_ends_unpaused:
  assumes "\<not> rn_paused r"
  shows "\<exists>bs. rn_sent (execution scope evs r) = rn_sent r @ bs
    \<and> \<not> rn_paused (execution scope evs r) \<and> rn_scope (execution scope evs r) = None
    \<and> (bs = reports scope evs \<or> bs = reports scope evs @ [False])
    \<and> (\<forall>ts. map tn_arrival ts = map (\<lambda>b. Arrives (HostTimeMsg b)) bs \<longrightarrow> \<not> clock_stopped False ts)"
proof -
  let ?r = "fold tell_parent evs (begin_execution scope r)"
  have run: "rn_sent ?r = rn_sent r @ reports scope evs" "rn_paused ?r = List.last (False # reports scope evs)"
    using tell_parent_run [of "begin_execution scope r" scope "[]" "rn_sent r" evs] assms
    by (auto simp: begin_execution_def)
  show ?thesis
  proof (cases "rn_paused ?r")
    case True
    then show ?thesis
      using clock_stopped_heard [of _ "reports scope evs @ [False]" False]
      by (intro exI [of _ "reports scope evs @ [False]"])
        (auto simp: execution_def end_execution_def Let_def run split: if_splits)
  next
    case False
    then show ?thesis
      by (intro exI [of _ "reports scope evs"])
        (auto simp: execution_def end_execution_def Let_def run clock_stopped_heard)
  qed
qed



section \<open>A finding\<close>

text \<open>
  A print snapshot whose pickling raises anything but the three named exceptions
  costs the whole result: the parent gets an error of the worker instead of the
  output, the namespace and the error of the execution.
\<close>

lemma unpicklable_print_loses_result:
  assumes "xm_namespace msg = None" "xm_modules msg = None"
    and "wk_exec env (xm_request msg) None None = Inr r" "wt_spool st = None"
    and "er_namespace r = []" "er_error r = None" "er_prints r = [p]"
    and "wk_check_print env p = Inl (Exc ValueError m)" "wk_send env (ReplyError (Exc ValueError m)) = Inr ()"
  shows "fst (handle_exec env tokens msg st) = Some (ReplyError (Exc ValueError m))"
proof -
  have "\<not> pickle_refusal ValueError" by code_simp
  then have "filter_prints (wk_check_print env) (er_prints r) = Inl (Exc ValueError m)"
    using assms(7,8) by simp
  with assms show ?thesis
    by (simp add: handle_exec_def opt_map_def result_message_def ship_error_def reply_error_def)
qed

section \<open>Concrete workers\<close>

type_synonym ex_env = "(nat, nat, nat) wk_env"

text \<open>Even numbers can be sent, odd ones cannot; printing 7 cannot be pickled.\<close>

definition ex_check :: "nat \<Rightarrow> unit res" where
  "ex_check n = (if even n then Inr () else Inl (Exc TypeError ''cannot pickle''))"

definition ex_error :: wk_error where
  "ex_error = \<lparr>we_class = MemoryError, we_type_name = ''MemoryError'', we_str = Inr ''no room'', we_has_tb = True,
     we_settable = True, we_tb_text = None\<rparr>"

definition ex_result :: "(nat, nat) exec_result" where
  "ex_result = \<lparr>er_namespace = [(''a'', 2), (''b'', 3), (''c'', 4)], er_stdout = ''hi'', er_stderr = [],
     er_error = Some ex_error, er_ticks = 9, er_prints = [6, 7], er_dropped = [''z''], er_rendered = [], er_print_count = 2\<rparr>"

definition ex_env :: ex_env where
  "ex_env = \<lparr>wk_check = ex_check, wk_check_print = ex_check,
     wk_check_error = (\<lambda>e. Inl (Exc TypeError ''cannot pickle'')),
     wk_format = (\<lambda>e. Inr ''Traceback''), wk_wrap = (\<lambda>_ _ _ _. Inl (Exc ImportError [])),
     wk_dumped = (\<lambda>_. ([], None)), wk_meets = (\<lambda>_. []), wk_exec = (\<lambda>_ _ _. Inr ex_result),
     wk_send = (\<lambda>_. Inr ())\<rparr>"

definition ex_msg :: "(nat, nat) exec_msg" where
  "ex_msg = \<lparr>xm_request = 0, xm_namespace = None, xm_modules = None\<rparr>"

definition ex_wstate :: wk_state where
  "ex_wstate = \<lparr>wt_spool = None, wt_collected = 0, wt_open = True\<rparr>"



theorem execution_ends_witness:
  "\<exists>bs. rn_sent (execution 5 [(Some 5, True), (Some 4, False), (None, True)]
      \<lparr>rn_scope = None, rn_paused = False, rn_sent = [True, False]\<rparr>) = [True, False] @ bs
    \<and> (bs = [True] \<or> bs = [True, False])"
  using execution_ends_unpaused [of "\<lparr>rn_scope = None, rn_paused = False, rn_sent = [True, False]\<rparr>" 5
      "[(Some 5, True), (Some 4, False), (None, True)]"]
  by (auto simp: reports_def)

definition ex_handler :: "(nat, nat) rpc_handler" where
  "ex_handler m a s = (if m = ''bump'' then (Inr (a + s), s + 1) else (Inl (Exc AttributeError m), s))"


lemma ex_surface:
  "rpc_surface ex_net_world (Some ex_net_policy) 40 [''_key'', ''get'', ''gone''] = Inr ([''get''], [])"
proof -
  have "is_attr_allowed ex_net_world ex_net_policy 40 ''get'' = Inr True"
    "is_attr_allowed ex_net_world ex_net_policy 40 ''gone'' = Inr True"
    by (simp_all add: ex_net_defs is_attr_allowed_def find_defs py_None_def
      registered_attr_rule_def dmem_def INTROSPECTION_DUNDERS_def MODULE_METADATA_DUNDERS_def
      included_def include_pred_def excluded_def exclude_pred_def exclude_qual_pred_def qualified_names_def
      List.map_filter_def getattr_none_def)
  moreover have "exc_caught_by AttributeError Exception" by code_simp
  moreover have "get_attr ex_net_world 40 ''get'' = Inr 41" "is_callable ex_net_world 41"
    "get_attr ex_net_world 40 ''gone'' = Inl (Exc AttributeError ''gone'')"
    by (simp_all add: ex_net_world_def)
  ultimately show ?thesis by (simp add: startswith_def)
qed

theorem proxy_surface_witness:
  "is_attr_allowed ex_net_world ex_net_policy 40 ''get'' = Inr True"
  using proxy_surface_bounded [OF ex_surface, of "''t''" "''get''" "''get''"]
  by (simp add: proxy_getattr_def startswith_def)

end
