(* ===== verification/RemoteFs.thy ===== *)
theory RemoteFs
  imports Worker
begin

text \<open>
  The filesystem bridge of the process sandbox (\<open>fs/remote.py\<close>): the parent's
  handler over the real filesystem, the worker's stub for it, and the buffered
  files that push their content back. The parent's filesystem (a monkeyfs object)
  and the codec of a text file are arguments. Queries (\<open>exists\<close>, \<open>access\<close>) leave
  the filesystem as it is.
\<close>

section \<open>The parent's handler\<close>

datatype fval =
    FNone
  | FBool bool
  | FInt int
  | FBytes string
  | FStr string
  | FList "string list"
  | FObj nat
  | FCall "fval list" "(string \<times> fval) list"

definition FS_RPC_TARGET :: string where
  "FS_RPC_TARGET = ''__fs__''"

definition FS_METHODS :: "string list" where
  "FS_METHODS =
     [''stat'', ''exists'', ''isfile'', ''isdir'', ''list'', ''remove'', ''mkdir'', ''makedirs'', ''rename'',
      ''getcwd'', ''chdir'', ''realpath'', ''resolve_path'', ''getsize'', ''samefile'', ''lexists'', ''islink'',
      ''readlink'', ''link'', ''symlink'', ''rmdir'', ''replace'', ''access'', ''truncate'', ''utime'', ''chmod'',
      ''chown'']"

text \<open>
  The wrapped filesystem: \<open>read\<close> and \<open>write\<close> when it has them, \<open>open\<close> otherwise
  (the whole content of a file opened for reading, the content stored by one
  opened for writing), and every other method by name.
\<close>

record 'f parent_fs =
  pf_read :: "(string \<Rightarrow> int \<Rightarrow> int \<Rightarrow> 'f \<Rightarrow> string res \<times> 'f) option"
  pf_write :: "(string \<Rightarrow> string \<Rightarrow> 'f \<Rightarrow> unit res \<times> 'f) option"
  pf_open_rb :: "string \<Rightarrow> 'f \<Rightarrow> string res"
  pf_open_wb :: "string \<Rightarrow> string \<Rightarrow> 'f \<Rightarrow> unit res \<times> 'f"
  pf_method :: "string \<Rightarrow> fval list \<Rightarrow> (string \<times> fval) list \<Rightarrow> 'f \<Rightarrow> fval res \<times> 'f"

definition byte_range :: "int \<Rightarrow> int \<Rightarrow> string \<Rightarrow> string" where
  "byte_range off sz content =
     (let rest = List.drop (nat off) content in if sz \<ge> 0 then take (nat sz) rest else rest)"

definition fs_read :: "'f parent_fs \<Rightarrow> string \<Rightarrow> int \<Rightarrow> int \<Rightarrow> 'f \<Rightarrow> string res \<times> 'f" where
  "fs_read fs path off sz s =
     (case pf_read fs of
        Some rd \<Rightarrow> rd path off sz s
      | None \<Rightarrow>
          (if off < 0 then (Inl (Exc ValueError ''negative read offset''), s)
           else (rbind (pf_open_rb fs path s) (\<lambda>content. Inr (byte_range off sz content)), s)))"

definition fs_write :: "'f parent_fs \<Rightarrow> string \<Rightarrow> string \<Rightarrow> 'f \<Rightarrow> unit res \<times> 'f" where
  "fs_write fs path d s =
     (case pf_write fs of
        Some wr \<Rightarrow> wr path d s
      | None \<Rightarrow> pf_open_wb fs path d s)"

definition lift_res :: "('a \<Rightarrow> fval) \<Rightarrow> 'a res \<times> 'f \<Rightarrow> fval res \<times> 'f" where
  "lift_res f r = (case r of (Inl e, s) \<Rightarrow> (Inl e, s) | (Inr x, s) \<Rightarrow> (Inr (f x), s))"

fun fs_read_args :: "'f parent_fs \<Rightarrow> fval list \<Rightarrow> 'f \<Rightarrow> fval res \<times> 'f" where
  "fs_read_args fs [FStr p] s = lift_res FBytes (fs_read fs p 0 (- 1) s)"
| "fs_read_args fs [FStr p, FInt off] s = lift_res FBytes (fs_read fs p off (- 1) s)"
| "fs_read_args fs [FStr p, FInt off, FInt sz] s = lift_res FBytes (fs_read fs p off sz s)"
| "fs_read_args fs _ s = (Inl (Exc TypeError ''_read''), s)"

fun fs_write_args :: "'f parent_fs \<Rightarrow> fval list \<Rightarrow> 'f \<Rightarrow> fval res \<times> 'f" where
  "fs_write_args fs [FStr p, FBytes d] s = lift_res (\<lambda>_. FNone) (fs_write fs p d s)"
| "fs_write_args fs _ s = (Inl (Exc TypeError ''_write''), s)"

fun fs_rpc_handler :: "'f parent_fs \<Rightarrow> (fval, 'f) rpc_handler" where
  "fs_rpc_handler fs method (FCall args kwargs) s =
     (if method = ''read'' then fs_read_args fs args s
      else if method = ''write'' then fs_write_args fs args s
      else if method \<in> set FS_METHODS then pf_method fs method args kwargs s
      else (Inl (Exc AttributeError (''fs rpc: unsupported method '' @ method)), s))"
| "fs_rpc_handler fs method _ s = (Inl (Exc TypeError method), s)"

section \<open>The worker's stub\<close>

datatype fs_request =
    FsRead string int int | FsWrite string string
  | FsStat string | FsExists string | FsIsfile string | FsIsdir string | FsListdir string bool
  | FsRemove string | FsMkdir string bool bool | FsMakedirs string bool | FsRename string string
  | FsGetcwd | FsChdir string | FsRealpath string | FsResolvePath string | FsGetsize string
  | FsSamefile string string | FsLexists string | FsIslink string | FsReadlink string
  | FsLink string string | FsSymlink string string | FsRmdir string | FsReplace string string
  | FsAccess string int | FsTruncate string int | FsUtime string fval | FsChmod string int
  | FsChown string int int

text \<open>Which call each method of \<open>RemoteFS\<close> makes on its proxy.\<close>

fun remote_method :: "fs_request \<Rightarrow> string \<times> fval" where
  "remote_method (FsRead p off sz) = (''read'', FCall [FStr p, FInt off, FInt sz] [])"
| "remote_method (FsWrite p d) = (''write'', FCall [FStr p, FBytes d] [])"
| "remote_method (FsStat p) = (''stat'', FCall [FStr p] [])"
| "remote_method (FsExists p) = (''exists'', FCall [FStr p] [])"
| "remote_method (FsIsfile p) = (''isfile'', FCall [FStr p] [])"
| "remote_method (FsIsdir p) = (''isdir'', FCall [FStr p] [])"
| "remote_method (FsListdir p rec) = (''list'', FCall [FStr p] [(''recursive'', FBool rec)])"
| "remote_method (FsRemove p) = (''remove'', FCall [FStr p] [])"
| "remote_method (FsMkdir p ps ok) = (''mkdir'', FCall [FStr p] [(''parents'', FBool ps), (''exist_ok'', FBool ok)])"
| "remote_method (FsMakedirs p ok) = (''makedirs'', FCall [FStr p] [(''exist_ok'', FBool ok)])"
| "remote_method (FsRename a b) = (''rename'', FCall [FStr a, FStr b] [])"
| "remote_method FsGetcwd = (''getcwd'', FCall [] [])"
| "remote_method (FsChdir p) = (''chdir'', FCall [FStr p] [])"
| "remote_method (FsRealpath p) = (''realpath'', FCall [FStr p] [])"
| "remote_method (FsResolvePath p) = (''resolve_path'', FCall [FStr p] [])"
| "remote_method (FsGetsize p) = (''getsize'', FCall [FStr p] [])"
| "remote_method (FsSamefile a b) = (''samefile'', FCall [FStr a, FStr b] [])"
| "remote_method (FsLexists p) = (''lexists'', FCall [FStr p] [])"
| "remote_method (FsIslink p) = (''islink'', FCall [FStr p] [])"
| "remote_method (FsReadlink p) = (''readlink'', FCall [FStr p] [])"
| "remote_method (FsLink a b) = (''link'', FCall [FStr a, FStr b] [])"
| "remote_method (FsSymlink a b) = (''symlink'', FCall [FStr a, FStr b] [])"
| "remote_method (FsRmdir p) = (''rmdir'', FCall [FStr p] [])"
| "remote_method (FsReplace a b) = (''replace'', FCall [FStr a, FStr b] [])"
| "remote_method (FsAccess p m) = (''access'', FCall [FStr p, FInt m] [])"
| "remote_method (FsTruncate p n) = (''truncate'', FCall [FStr p, FInt n] [])"
| "remote_method (FsUtime p t) = (''utime'', FCall [FStr p, t] [])"
| "remote_method (FsChmod p m) = (''chmod'', FCall [FStr p, FInt m] [])"
| "remote_method (FsChown p u g) = (''chown'', FCall [FStr p, FInt u, FInt g] [])"

text \<open>\<open>call\<close> is the proxy's \<open>_call\<close>.\<close>

type_synonym 'f fs_call = "string \<Rightarrow> fval \<Rightarrow> 'f \<Rightarrow> fval res \<times> 'f"

definition remote_fs :: "'f fs_call \<Rightarrow> fs_request \<Rightarrow> 'f \<Rightarrow> fval res \<times> 'f" where
  "remote_fs call rq s = (case remote_method rq of (m, args) \<Rightarrow> call m args s)"

section \<open>Where a write would go\<close>

definition rstrip_slash :: "string \<Rightarrow> string" where
  "rstrip_slash p = rev (dropWhile (\<lambda>c. c = CHR ''/'') (rev p))"

text \<open>\<open>posixpath.dirname\<close>: up to the last slash, trailing slashes removed unless all is slashes.\<close>

definition dirname :: "string \<Rightarrow> string" where
  "dirname p =
     (let head = rev (dropWhile (\<lambda>c. c \<noteq> CHR ''/'') (rev p))
      in if list_all (\<lambda>c. c = CHR ''/'') head then head else rstrip_slash head)"

definition fs_parent :: "string \<Rightarrow> string" where
  "fs_parent p = (let d = dirname (rstrip_slash p) in if d = [] then ''/'' else d)"

lemma length_rstrip_slash: "length (rstrip_slash p) \<le> length p"
  using length_dropWhile_le [of _ "rev p"] by (simp add: rstrip_slash_def)

lemma rstrip_slash_last: "rstrip_slash p \<noteq> [] \<Longrightarrow> List.last (rstrip_slash p) \<noteq> CHR ''/''"
  unfolding rstrip_slash_def
  using hd_dropWhile [of "\<lambda>c. c = CHR ''/''" "rev p"] by (simp add: last_rev)

lemma length_dirname:
  assumes "p \<noteq> []" "List.last p \<noteq> CHR ''/''"
  shows "length (dirname p) < length p"
proof -
  obtain q c where p: "p = q @ [c]" "c \<noteq> CHR ''/''" using assms by (metis append_butlast_last_id)
  let ?h = "rev (dropWhile (\<lambda>c. c \<noteq> CHR ''/'') (rev p))"
  have "length ?h \<le> length q" using p length_dropWhile_le [of _ "rev q"] by simp
  moreover have "length (dirname p) \<le> length ?h"
    using length_rstrip_slash [of ?h] by (auto simp: dirname_def Let_def)
  ultimately show ?thesis using p by simp
qed

lemma fs_parent_smaller:
  assumes "fs_parent p \<noteq> p"
  shows "(if fs_parent p = ''/'' then 0 else length (fs_parent p) + 1) < (if p = ''/'' then 0 else length p + 1)"
proof (cases "rstrip_slash p = []")
  case True
  then have "fs_parent p = ''/''" by (simp add: fs_parent_def dirname_def)
  with assms show ?thesis by auto
next
  case False
  then have "length (dirname (rstrip_slash p)) < length p"
    using length_dirname [OF False rstrip_slash_last [OF False]] length_rstrip_slash [of p] by simp
  moreover have "p \<noteq> ''/''" using False by (auto simp: rstrip_slash_def)
  ultimately show ?thesis by (auto simp: fs_parent_def Let_def)
qed

function can_write :: "(string \<Rightarrow> bool res) \<Rightarrow> (string \<Rightarrow> bool res) \<Rightarrow> string \<Rightarrow> bool res" where
  "can_write ex acc probe =
     rbind (ex probe) (\<lambda>there.
       if there then acc probe
       else if fs_parent probe = probe then acc probe
       else can_write ex acc (fs_parent probe))"
  by pat_completeness auto
termination
  by (relation "measure (\<lambda>(ex, acc, p). if p = ''/'' then 0 else length p + 1)")
    (use fs_parent_smaller in auto)

declare can_write.simps [simp del]

section \<open>Opening a file\<close>

definition open_modes :: "string list" where
  "open_modes = [''r'', ''w'', ''a'', ''x'', ''r+'', ''w+'', ''a+'', ''x+'', ''+r'', ''+w'', ''+a'']"

record rfile =
  rf_path :: string
  rf_buf :: string
  rf_pos :: nat
  rf_readable :: bool
  rf_writable :: bool
  rf_closed :: bool
  rf_save_raised :: bool

datatype handle = LazyRead string | Buffered rfile

text \<open>
  \<open>ex\<close>, \<open>acc\<close> and \<open>rd\<close> ask the parent; \<open>dec\<close> decodes the content of a text file
  (the identity for a binary one).
\<close>

definition remote_open ::
  "(string \<Rightarrow> bool res) \<Rightarrow> (string \<Rightarrow> bool res) \<Rightarrow> (string \<Rightarrow> string res) \<Rightarrow> (string \<Rightarrow> string res) \<Rightarrow>
   string \<Rightarrow> string \<Rightarrow> handle res" where
  "remote_open ex acc rd dec path md =
     (let binary = CHR ''b'' \<in> set md;
          base = filter (\<lambda>c. c \<noteq> CHR ''b'' \<and> c \<noteq> CHR ''t'') md
      in if base \<notin> set open_modes then Inl (Exc ValueError (''invalid mode: '' @ md))
      else
        (let plus = (CHR ''+'' \<in> set base);
             kind = filter (\<lambda>c. c \<noteq> CHR ''+'') base
         in rbind (if kind \<noteq> ''r'' \<or> plus then can_write ex acc path else Inr True) (\<lambda>ok.
            if \<not> ok then Inl (Exc PermissionError (''cannot open '' @ path @ '' for writing''))
            else
              rbind (if kind = ''x'' then ex path else Inr False) (\<lambda>clash.
                if clash then Inl (Exc FileExistsError (''File exists: '' @ path))
                else if kind = ''r'' \<and> \<not> plus \<and> binary then Inr (LazyRead path)
                else
                  rbind (if kind = ''r'' then rd path
                         else if kind = ''a''
                         then rbind (ex path) (\<lambda>there. if there then rd path else Inr [])
                         else Inr []) (\<lambda>initial.
                    rbind (if binary then Inr initial else dec initial) (\<lambda>content.
                      Inr (Buffered
                        \<lparr>rf_path = path, rf_buf = content,
                         rf_pos = (if kind = ''a'' then length content else 0),
                         rf_readable = (kind = ''r'' \<or> plus), rf_writable = (kind \<noteq> ''r'' \<or> plus),
                         rf_closed = False, rf_save_raised = False\<rparr>)))))))"

section \<open>Buffered files\<close>

text \<open>
  An \<open>io.BytesIO\<close> or \<open>io.StringIO\<close> (characters in both cases) with the mode
  guards, the note of an unreported change and the push on \<open>flush\<close> and \<open>close\<close>.
\<close>

definition guard_read :: "rfile \<Rightarrow> unit res" where
  "guard_read f = (if rf_readable f then Inr () else Inl (Exc UnsupportedOperation ''not readable''))"

definition guard_write :: "rfile \<Rightarrow> unit res" where
  "guard_write f = (if rf_writable f then Inr () else Inl (Exc UnsupportedOperation ''not writable''))"

definition io_open :: "rfile \<Rightarrow> unit res" where
  "io_open f = (if rf_closed f then Inl (Exc ValueError ''I/O operation on closed file'') else Inr ())"

text \<open>Writing into the buffer at a position: a gap is filled with null characters.\<close>

definition overwrite :: "string \<Rightarrow> nat \<Rightarrow> string \<Rightarrow> string" where
  "overwrite buf pos d =
     (if d = [] then buf
      else take pos (buf @ replicate (pos - length buf) (CHR 0x00)) @ d @ List.drop (pos + length d) buf)"

definition rf_write :: "string \<Rightarrow> rfile \<Rightarrow> rfile res" where
  "rf_write d f =
     rbind (guard_write f) (\<lambda>_. rbind (io_open f) (\<lambda>_.
       Inr (f\<lparr>rf_buf := overwrite (rf_buf f) (rf_pos f) d, rf_pos := rf_pos f + length d,
             rf_save_raised := (if d \<noteq> [] then False else rf_save_raised f)\<rparr>)))"

definition rf_read :: "nat option \<Rightarrow> rfile \<Rightarrow> (string \<times> rfile) res" where
  "rf_read n f =
     rbind (guard_read f) (\<lambda>_. rbind (io_open f) (\<lambda>_.
       let rest = List.drop (rf_pos f) (rf_buf f);
           got = (case n of None \<Rightarrow> rest | Some k \<Rightarrow> take k rest)
       in Inr (got, f\<lparr>rf_pos := rf_pos f + length got\<rparr>)))"

text \<open>\<open>readline\<close>: up to and with the next newline, or the number of characters asked for.\<close>

definition first_line :: "string \<Rightarrow> string" where
  "first_line xs = takeWhile (\<lambda>c. c \<noteq> CHR 0x0A) xs @ take 1 (dropWhile (\<lambda>c. c \<noteq> CHR 0x0A) xs)"

definition rf_readline :: "nat option \<Rightarrow> rfile \<Rightarrow> (string \<times> rfile) res" where
  "rf_readline n f =
     rbind (guard_read f) (\<lambda>_. rbind (io_open f) (\<lambda>_.
       let line = first_line (List.drop (rf_pos f) (rf_buf f));
           got = (case n of None \<Rightarrow> line | Some k \<Rightarrow> take k line)
       in Inr (got, f\<lparr>rf_pos := rf_pos f + length got\<rparr>)))"

text \<open>\<open>writelines\<close> writes one line after the other; what was written before an error stays.\<close>

fun rf_writelines :: "string list \<Rightarrow> rfile \<Rightarrow> unit res \<times> rfile" where
  "rf_writelines [] f = (Inr (), f)"
| "rf_writelines (d # ds) f =
     (case rf_write d f of Inl e \<Rightarrow> (Inl e, f) | Inr f' \<Rightarrow> rf_writelines ds f')"

text \<open>A handle is bound to its worker's connection and never pickles.\<close>

definition rf_reduce :: "rfile \<Rightarrow> unit res" where
  "rf_reduce f = Inl (Exc PicklingError ''remote file handles are bound to their worker connection'')"

definition rf_seek :: "nat \<Rightarrow> rfile \<Rightarrow> rfile res" where
  "rf_seek pos f = rbind (io_open f) (\<lambda>_. Inr (f\<lparr>rf_pos := pos\<rparr>))"

text \<open>\<open>truncate\<close> answers the size asked for, which differs from the old length exactly when it matters.\<close>

definition rf_truncate :: "nat option \<Rightarrow> rfile \<Rightarrow> rfile res" where
  "rf_truncate n f =
     rbind (guard_write f) (\<lambda>_. rbind (io_open f) (\<lambda>_.
       let before = length (rf_buf f); after = (case n of None \<Rightarrow> rf_pos f | Some k \<Rightarrow> k)
       in Inr (f\<lparr>rf_buf := take after (rf_buf f),
                 rf_save_raised := (if after \<noteq> before then False else rf_save_raised f)\<rparr>)))"

text \<open>The push: \<open>enc\<close> encodes the content of a text file (the identity for a binary one).\<close>

definition rf_push :: "'f fs_call \<Rightarrow> (string \<Rightarrow> string res) \<Rightarrow> rfile \<Rightarrow> 'f \<Rightarrow> unit res \<times> 'f" where
  "rf_push call enc f s =
     (case enc (rf_buf f) of
        Inl e \<Rightarrow> (Inl e, s)
      | Inr bytes \<Rightarrow>
          (case remote_fs call (FsWrite (rf_path f) bytes) s of
             (Inl e, s') \<Rightarrow> (Inl e, s')
           | (Inr _, s') \<Rightarrow> (Inr (), s')))"

definition rf_save :: "'f fs_call \<Rightarrow> (string \<Rightarrow> string res) \<Rightarrow> rfile \<Rightarrow> 'f \<Rightarrow> unit res \<times> rfile \<times> 'f" where
  "rf_save call enc f s =
     (case rf_push call enc f s of
        (Inl e, s') \<Rightarrow> (Inl e, f\<lparr>rf_save_raised := True\<rparr>, s')
      | (Inr _, s') \<Rightarrow> (Inr (), f, s'))"

definition rf_flush :: "'f fs_call \<Rightarrow> (string \<Rightarrow> string res) \<Rightarrow> rfile \<Rightarrow> 'f \<Rightarrow> unit res \<times> rfile \<times> 'f" where
  "rf_flush call enc f s =
     (case io_open f of
        Inl e \<Rightarrow> (Inl e, f, s)
      | Inr _ \<Rightarrow> if rf_writable f then rf_save call enc f s else (Inr (), f, s))"

definition rf_close :: "'f fs_call \<Rightarrow> (string \<Rightarrow> string res) \<Rightarrow> rfile \<Rightarrow> 'f \<Rightarrow> unit res \<times> rfile \<times> 'f" where
  "rf_close call enc f s =
     (if \<not> rf_closed f \<and> rf_writable f
      then (case rf_save call enc f s of
              (Inl e, f', s') \<Rightarrow> (Inl e, f', s')
            | (Inr _, f', s') \<Rightarrow> (Inr (), f'\<lparr>rf_closed := True\<rparr>, s'))
      else (Inr (), f\<lparr>rf_closed := True\<rparr>, s))"

text \<open>
  The finalizer: nothing for a closed file, no push of content whose save already
  raised; a push that fails raises \<open>StLostWrite\<close> unless everything is shutting down.
\<close>

datatype finalized = Silent | Pushed string | Lost pyerr | Quiet_exit pyerr

definition rf_del ::
  "'f fs_call \<Rightarrow> (string \<Rightarrow> string res) \<Rightarrow> bool \<Rightarrow> rfile \<Rightarrow> 'f \<Rightarrow> finalized \<times> 'f" where
  "rf_del call enc finalizing f s =
     (if rf_closed f then (Silent, s)
      else if rf_writable f \<and> \<not> rf_save_raised f
      then (case rf_push call enc f s of
              (Inr _, s') \<Rightarrow> (Pushed (rf_buf f), s')
            | (Inl e, s') \<Rightarrow>
                (if \<not> exc_caught_by (err_class e) Exception then Lost e
                 else if finalizing \<or> exc_caught_by (err_class e) RpcChannelClosed then Quiet_exit e
                 else Lost (Exc StLostWrite (rf_path f)), s'))
      else (Silent, s))"

section \<open>A session with a file\<close>

datatype file_op =
    OWrite string | OWritelines "string list" | ORead "nat option" | OReadline "nat option" | OSeek nat | OTruncate "nat option" | OFlush | OClose

text \<open>What matters of it: the content changed, a save stored it, a save raised to the code.\<close>

datatype file_event = Changed | Saved string | SaveRaised pyerr

definition changed_event :: "rfile \<Rightarrow> rfile \<Rightarrow> file_event list" where
  "changed_event f f' = (if rf_buf f' \<noteq> rf_buf f then [Changed] else [])"

definition save_event :: "rfile \<Rightarrow> unit res \<Rightarrow> file_event list" where
  "save_event f r =
     (if rf_closed f \<or> \<not> rf_writable f then []
      else case r of Inl e \<Rightarrow> [SaveRaised e] | Inr _ \<Rightarrow> [Saved (rf_buf f)])"

definition keep_on_error :: "rfile \<Rightarrow> rfile res \<Rightarrow> rfile" where
  "keep_on_error f r = (case r of Inl _ \<Rightarrow> f | Inr f' \<Rightarrow> f')"

fun file_step ::
  "'f fs_call \<Rightarrow> (string \<Rightarrow> string res) \<Rightarrow> file_op \<Rightarrow> rfile \<Rightarrow> 'f \<Rightarrow> rfile \<times> 'f \<times> file_event list" where
  "file_step call enc (OWrite d) f s =
     (let f' = keep_on_error f (rf_write d f) in (f', s, changed_event f f'))"
| "file_step call enc (OWritelines ds) f s =
     (case rf_writelines ds f of (_, f') \<Rightarrow> (f', s, changed_event f f'))"
| "file_step call enc (OReadline n) f s =
     (case rf_readline n f of Inl _ \<Rightarrow> (f, s, []) | Inr (_, f') \<Rightarrow> (f', s, []))"
| "file_step call enc (ORead n) f s =
     (case rf_read n f of Inl _ \<Rightarrow> (f, s, []) | Inr (_, f') \<Rightarrow> (f', s, []))"
| "file_step call enc (OSeek n) f s = (keep_on_error f (rf_seek n f), s, [])"
| "file_step call enc (OTruncate n) f s =
     (let f' = keep_on_error f (rf_truncate n f) in (f', s, changed_event f f'))"
| "file_step call enc OFlush f s =
     (case rf_flush call enc f s of (r, f', s') \<Rightarrow> (f', s', save_event f r))"
| "file_step call enc OClose f s =
     (case rf_close call enc f s of (r, f', s') \<Rightarrow> (f', s', save_event f r))"

fun file_session ::
  "'f fs_call \<Rightarrow> (string \<Rightarrow> string res) \<Rightarrow> file_op list \<Rightarrow> rfile \<Rightarrow> 'f \<Rightarrow> rfile \<times> 'f \<times> file_event list" where
  "file_session call enc [] f s = (f, s, [])"
| "file_session call enc (op # ops) f s =
     (case file_step call enc op f s of (f1, s1, es) \<Rightarrow>
        (case file_session call enc ops f1 s1 of (f2, s2, es2) \<Rightarrow> (f2, s2, es @ es2)))"

text \<open>Since the last change there has been such an event.\<close>

definition since_change :: "(file_event \<Rightarrow> bool) \<Rightarrow> file_event list \<Rightarrow> bool" where
  "since_change P es = (\<exists>ev \<in> set (takeWhile (\<lambda>e. e \<noteq> Changed) (rev es)). P ev)"

definition file_inv :: "rfile \<Rightarrow> file_event list \<Rightarrow> bool" where
  "file_inv f es \<longleftrightarrow>
     rf_writable f
     \<and> (rf_save_raised f \<longrightarrow> since_change (\<lambda>ev. \<exists>e. ev = SaveRaised e) es)
     \<and> (rf_closed f \<longrightarrow> since_change (\<lambda>ev. ev = Saved (rf_buf f)) es)"

lemma since_change_append:
  "since_change P (es @ [ev]) \<longleftrightarrow> ev \<noteq> Changed \<and> (P ev \<or> since_change P es)"
  by (auto simp: since_change_def)

lemma since_change_mono:
  "since_change P es \<Longrightarrow> (\<And>ev. P ev \<Longrightarrow> Q ev) \<Longrightarrow> since_change Q es"
  by (auto simp: since_change_def)

lemma since_change_Nil [simp]: "\<not> since_change P []"
  by (simp add: since_change_def)

lemmas file_defs = rf_write_def rf_read_def rf_readline_def rf_seek_def rf_truncate_def guard_write_def guard_read_def io_open_def
  rf_flush_def rf_close_def rf_save_def keep_on_error_def changed_event_def save_event_def Let_def

lemma overwrite_unchanged: "overwrite buf pos d \<noteq> buf \<Longrightarrow> d \<noteq> []"
  by (auto simp: overwrite_def)

lemma rf_writelines_effect:
  assumes "rf_writelines ds f = (r, f')"
  shows "f' = f \<or> \<not> rf_closed f \<and> rf_writable f \<and> \<not> rf_closed f' \<and> rf_writable f'
    \<and> (rf_save_raised f' \<longrightarrow> rf_save_raised f \<and> rf_buf f' = rf_buf f)"
  using assms
proof (induction ds arbitrary: f)
  case (Cons d ds)
  show ?case
  proof (cases "rf_write d f")
    case (Inr g)
    have "\<not> rf_closed f \<and> rf_writable f \<and> \<not> rf_closed g \<and> rf_writable g
        \<and> (rf_save_raised g \<longrightarrow> rf_save_raised f \<and> rf_buf g = rf_buf f)"
      using Inr
      by (auto simp: overwrite_def rf_write_def guard_write_def io_open_def split: if_splits)
    moreover have "rf_writelines ds g = (r, f')" using Cons.prems Inr by simp
    ultimately show ?thesis using Cons.IH by fastforce
  qed (use Cons.prems in simp)
qed simp

lemma file_step_inv:
  assumes "file_inv f es" "file_step call enc op f s = (f', s', es')"
  shows "file_inv f' (es @ es')"
proof (cases op)
  case (OWrite d)
  consider "f' = f" "es' = []"
    | "rf_closed f' = False" "rf_writable f'" "\<not> rf_closed f" "es' = [Changed]" "\<not> rf_save_raised f'"
    | "rf_closed f' = False" "rf_writable f'" "\<not> rf_closed f" "es' = []" "rf_save_raised f' \<longrightarrow> rf_save_raised f"
    using OWrite assms(2) overwrite_unchanged [of "rf_buf f" "rf_pos f" d]
    by (cases "rf_writable f"; cases "rf_closed f"; cases "d = []") (auto simp: file_defs split: if_splits)
  then show ?thesis using assms(1) by cases (auto simp: file_inv_def since_change_append)
next
  case (OWritelines ds)
  obtain r where w: "rf_writelines ds f = (r, f')" "es' = changed_event f f'"
    using OWritelines assms(2) by (auto split: prod.splits)
  from rf_writelines_effect [OF w(1)] w(2) assms(1) show ?thesis
    by (auto simp: file_inv_def changed_event_def since_change_append)
next
  case (OReadline n)
  with assms show ?thesis by (auto simp: file_inv_def file_defs split: if_splits)
next
  case (OTruncate n)
  define k where "k = (case n of None \<Rightarrow> rf_pos f | Some k \<Rightarrow> k)"
  consider "f' = f" "es' = []"
    | "rf_closed f' = False" "rf_writable f'" "\<not> rf_closed f" "es' = [Changed]" "\<not> rf_save_raised f'"
    | "rf_closed f' = False" "rf_writable f'" "\<not> rf_closed f" "es' = []" "rf_save_raised f' \<longrightarrow> rf_save_raised f"
    using OTruncate assms(2)
    by (cases "rf_writable f"; cases "rf_closed f"; cases "k = length (rf_buf f)")
      (auto simp: file_defs k_def [symmetric] split: if_splits)
  then show ?thesis using assms(1) by cases (auto simp: file_inv_def since_change_append)
next
  case (ORead n)
  with assms show ?thesis by (auto simp: file_inv_def file_defs split: if_splits)
next
  case (OSeek n)
  with assms show ?thesis by (auto simp: file_inv_def file_defs split: if_splits)
next
  case OFlush
  obtain r s1 where push: "rf_push call enc f s = (r, s1)" by fastforce
  with OFlush assms show ?thesis
    by (cases r) (auto simp: file_inv_def file_defs since_change_append split: if_splits)
next
  case OClose
  obtain r s1 where push: "rf_push call enc f s = (r, s1)" by fastforce
  with OClose assms show ?thesis
    by (cases r) (auto simp: file_inv_def file_defs since_change_append split: if_splits)
qed

lemma file_session_inv:
  assumes "file_inv f es" "file_session call enc ops f s = (f', s', es')"
  shows "file_inv f' (es @ es')"
  using assms
proof (induction ops arbitrary: f s es f' s' es')
  case (Cons op ops)
  obtain f1 s1 e1 where st: "file_step call enc op f s = (f1, s1, e1)" by (metis prod_cases3)
  obtain f2 s2 e2 where rest: "file_session call enc ops f1 s1 = (f2, s2, e2)" by (metis prod_cases3)
  from Cons.IH [OF file_step_inv [OF Cons.prems(1) st] rest] Cons.prems(2) st rest
  show ?case by simp
qed simp

section \<open>Writing at the end\<close>

lemma overwrite_end: "overwrite buf (length buf) d = buf @ d"
  by (simp add: overwrite_def)

lemma file_session_append:
  "file_session call enc (xs @ ys) f s =
     (case file_session call enc xs f s of (f1, s1, es) \<Rightarrow>
        (case file_session call enc ys f1 s1 of (f2, s2, es2) \<Rightarrow> (f2, s2, es @ es2)))"
  by (induction xs arbitrary: f s) (auto split: prod.splits)

lemma writes_append:
  assumes "rf_pos f = length (rf_buf f)" "rf_writable f" "\<not> rf_closed f"
  shows "\<exists>f1 es. file_session call enc (map OWrite ds) f s = (f1, s, es)
    \<and> rf_buf f1 = rf_buf f @ concat ds \<and> rf_pos f1 = length (rf_buf f1) \<and> rf_writable f1 \<and> \<not> rf_closed f1
    \<and> rf_path f1 = rf_path f"
  using assms
proof (induction ds arbitrary: f)
  case (Cons d ds)
  define g where "g = keep_on_error f (rf_write d f)"
  have g: "rf_buf g = rf_buf f @ d" "rf_pos g = length (rf_buf g)" "rf_writable g" "\<not> rf_closed g"
    "rf_path g = rf_path f"
    using Cons.prems by (auto simp: g_def file_defs overwrite_end)
  from Cons.IH [OF g(2-4)] g(1,5) show ?case by (auto simp: g_def Let_def)
qed simp

section \<open>Lines\<close>

text \<open>A line is a piece of what is left to read, with a newline at most at its end.\<close>

lemma first_line_piece: "\<exists>zs. xs = first_line xs @ zs"
  by (rule exI [of _ "List.drop 1 (dropWhile (\<lambda>c. c \<noteq> CHR 0x0A) xs)"]) (simp only: first_line_def append.assoc append_take_drop_id takeWhile_dropWhile_id)

lemma first_line_newline: "CHR 0x0A \<notin> set (butlast (first_line xs))"
proof -
  have no: "CHR 0x0A \<notin> set (takeWhile (\<lambda>c. c \<noteq> CHR 0x0A) xs)" by (auto dest: set_takeWhileD)
  then have "CHR 0x0A \<notin> set (butlast (takeWhile (\<lambda>c. c \<noteq> CHR 0x0A) xs))" by (blast dest: in_set_butlastD)
  with no show ?thesis
    by (cases "dropWhile (\<lambda>c. c \<noteq> CHR 0x0A) xs") (simp_all add: first_line_def butlast_append)
qed

lemma readline_piece:
  assumes "rf_readline n f = Inr (got, f')"
  shows "got @ List.drop (rf_pos f') (rf_buf f') = List.drop (rf_pos f) (rf_buf f)
    \<and> CHR 0x0A \<notin> set (butlast got)"
proof -
  define rest where "rest = List.drop (rf_pos f) (rf_buf f)"
  obtain k where k: "got = take k (first_line rest)" "rf_pos f' = rf_pos f + length got" "rf_buf f' = rf_buf f"
    using assms by (cases n) (auto simp: rf_readline_def guard_read_def io_open_def Let_def rest_def split: if_splits
        intro: that [of "length (first_line (List.drop (rf_pos f) (rf_buf f)))"])
  obtain zs where "rest = first_line rest @ zs" using first_line_piece by blast
  then have "rest = got @ List.drop k (first_line rest) @ zs" using k(1) by (metis append_take_drop_id append.assoc)
  then have "got @ List.drop (length got) rest = rest" by (metis append_eq_conv_conj)
  moreover have "set (butlast got) \<subseteq> set (butlast (first_line rest))"
    unfolding k(1) butlast_conv_take take_take by (intro set_take_subset_set_take) auto
  ultimately show ?thesis
    using k(2,3) first_line_newline [of rest] by (auto simp: rest_def add.commute)
qed

section \<open>Properties\<close>

text \<open>
  C18: a write to a bridged file is never lost in silence: whatever a program did
  with a writable file before dropping it, since the last change of its content
  either that content has been stored in the parent's filesystem, or a save has
  raised to the program, or the finalizer raises; it keeps quiet only while the
  interpreter or the worker shuts down.
\<close>

theorem no_silent_loss:
  assumes "rf_writable f" "\<not> rf_closed f" "\<not> rf_save_raised f"
    and "file_session call enc ops f s = (f', s', es)"
    and "rf_del call enc finalizing f' s' = (fin, s'')"
  shows "since_change (\<lambda>ev. ev = Saved (rf_buf f') \<or> (\<exists>e. ev = SaveRaised e)) (Changed # es)
    \<or> fin = Pushed (rf_buf f') \<or> (\<exists>e. fin = Lost e)
    \<or> (\<exists>e. fin = Quiet_exit e \<and> (finalizing \<or> exc_caught_by (err_class e) RpcChannelClosed))"
proof -
  have "file_inv f [Changed]" using assms(1-3) by (simp add: file_inv_def)
  from file_session_inv [OF this assms(4)] have inv: "file_inv f' (Changed # es)" by simp
  show ?thesis
  proof (cases "rf_closed f' \<or> rf_save_raised f'")
    case True
    then consider "since_change (\<lambda>ev. ev = Saved (rf_buf f')) (Changed # es)"
      | "since_change (\<lambda>ev. \<exists>e. ev = SaveRaised e) (Changed # es)"
      using inv by (auto simp: file_inv_def)
    then have "since_change (\<lambda>ev. ev = Saved (rf_buf f') \<or> (\<exists>e. ev = SaveRaised e)) (Changed # es)"
      by cases (erule since_change_mono, blast)+
    then show ?thesis by blast
  next
    case False
    with inv assms(5) show ?thesis
      by (auto simp: rf_del_def file_inv_def split: prod.splits sum.splits if_splits)
  qed
qed

text \<open>The reference: the operation on the parent's filesystem itself.\<close>

fun direct_fs :: "'f parent_fs \<Rightarrow> fs_request \<Rightarrow> 'f \<Rightarrow> fval res \<times> 'f" where
  "direct_fs fs (FsRead p off sz) s = lift_res FBytes (fs_read fs p off sz s)"
| "direct_fs fs (FsWrite p d) s = lift_res (\<lambda>_. FNone) (fs_write fs p d s)"
| "direct_fs fs rq s =
     (case remote_method rq of
        (m, FCall args kwargs) \<Rightarrow> pf_method fs m args kwargs s
      | (m, _) \<Rightarrow> (Inl (Exc TypeError m), s))"

lemma fs_handler_direct:
  "(case remote_method rq of (m, args) \<Rightarrow> fs_rpc_handler fs m args s) = direct_fs fs rq s"
  by (cases rq) (simp_all add: FS_METHODS_def)

text \<open>
  What the worker's filesystem relies on: a call over the bridge is a call of the
  parent's handler. Then each operation is the parent's, and so is every session of
  a file, with the saves it makes.
\<close>

locale file_bridge =
  fixes call :: "'f fs_call" and fs :: "'f parent_fs"
  assumes bridged: "call m a s = fs_rpc_handler fs m a s"
begin

lemma operation_is_direct: "remote_fs call rq s = direct_fs fs rq s"
  using fs_handler_direct by (simp add: remote_fs_def bridged)

lemma session_is_direct: "file_session call enc ops f s = file_session (fs_rpc_handler fs) enc ops f s"
proof -
  have "call = fs_rpc_handler fs" by (intro ext) (rule bridged)
  then show ?thesis by simp
qed

lemma refused: "m \<notin> {''read'', ''write''} \<union> set FS_METHODS \<Longrightarrow>
    call m (FCall args kwargs) s = (Inl (Exc AttributeError (''fs rpc: unsupported method '' @ m)), s)"
  by (simp add: bridged)

end

lemma trip_is_handler:
  assumes "\<And>a. check a = Inr ()" "\<And>m. send m = Inr ()"
    and "map_of handlers FS_RPC_TARGET = Some (fs_rpc_handler fs)" "px_target px = FS_RPC_TARGET"
  shows "round_trip True check (parent_exchange handlers send) px call_id m a s = fs_rpc_handler fs m a s"
  using round_trip_handler [of check a "()" handlers px "fs_rpc_handler fs" m s _ _ send call_id] assms
  by (cases "fs_rpc_handler fs m a s") (auto split: sum.splits)

text \<open>The bridge of a sandbox with no other handler, whose pipe carries everything.\<close>

interpretation bridge: file_bridge
  "round_trip True (\<lambda>_. Inr ()) (parent_exchange [(FS_RPC_TARGET, fs_rpc_handler fs)] (\<lambda>_. Inr ()))
     \<lparr>px_target = FS_RPC_TARGET, px_methods = None, px_attributes = None\<rparr> call_id" fs for fs call_id
  by unfold_locales (rule trip_is_handler; simp)

lemma session_through_pipe:
  "file_session (round_trip True (\<lambda>_. Inr ()) (parent_exchange [(FS_RPC_TARGET, fs_rpc_handler fs)] (\<lambda>_. Inr ()))
     \<lparr>px_target = FS_RPC_TARGET, px_methods = None, px_attributes = None\<rparr> call_id) enc ops f s
   = file_session (fs_rpc_handler fs) enc ops f s"
  by (rule bridge.session_is_direct)


text \<open>
  Whether a file may be written is asked of the nearest ancestor that exists,
  the path itself included, and of the last one when none does; the walk up ends
  for every path, the empty one and those of slashes included.
\<close>

theorem can_write_asks_nearest:
  assumes "\<forall>p. ex p = Inr (there p)"
  shows "\<exists>n. can_write ex acc path = acc ((fs_parent ^^ n) path)
    \<and> (\<forall>i < n. \<not> there ((fs_parent ^^ i) path))
    \<and> (there ((fs_parent ^^ n) path) \<or> fs_parent ((fs_parent ^^ n) path) = (fs_parent ^^ n) path)"
  using assms
proof (induction ex acc path rule: can_write.induct)
  case (1 ex acc path)
  have step: "can_write ex acc path = (if there path \<or> fs_parent path = path then acc path
      else can_write ex acc (fs_parent path))"
    using "1.prems" by (subst can_write.simps) auto
  show ?case
  proof (cases "there path \<or> fs_parent path = path")
    case True
    with step show ?thesis by (intro exI [of _ 0]) auto
  next
    case False
    then have away: "ex path = Inr False" "fs_parent path \<noteq> path" using "1.prems" by simp_all
    obtain n where n: "can_write ex acc (fs_parent path) = acc ((fs_parent ^^ n) (fs_parent path))"
      "\<forall>i < n. \<not> there ((fs_parent ^^ i) (fs_parent path))"
      "there ((fs_parent ^^ n) (fs_parent path))
        \<or> fs_parent ((fs_parent ^^ n) (fs_parent path)) = (fs_parent ^^ n) (fs_parent path)"
      using "1.IH" [OF away(1) _ away(2) "1.prems"] by blast
    have shift: "(fs_parent ^^ Suc i) path = (fs_parent ^^ i) (fs_parent path)" for i
      by (simp add: funpow_swap1)
    have "\<not> there ((fs_parent ^^ i) path)" if "i < Suc n" for i
      using that False n(2) shift by (cases i) auto
    with n step False show ?thesis by (intro exI [of _ "Suc n"]) (simp add: shift del: funpow.simps(2))
  qed
qed

text \<open>
  What a program writes in pieces to a fresh file and closes reaches the parent
  as one write of the pieces in order, encoded once, and the file is closed.
\<close>

theorem pieces_arrive_whole:
  assumes "rf_buf f = []" "rf_pos f = 0" "rf_writable f" "\<not> rf_closed f"
    and "enc (concat ds) = Inr bytes" "remote_fs call (FsWrite (rf_path f) bytes) s = (Inr v, s')"
  shows "\<exists>f' es. file_session call enc (map OWrite ds @ [OClose]) f s = (f', s', es)
    \<and> rf_closed f' \<and> rf_buf f' = concat ds \<and> List.last es = Saved (concat ds)"
proof -
  obtain f1 es where w: "file_session call enc (map OWrite ds) f s = (f1, s, es)" "rf_buf f1 = concat ds"
    "rf_writable f1" "\<not> rf_closed f1" "rf_path f1 = rf_path f"
    using writes_append [of f call enc ds s] assms(1-4) by auto
  then have "file_step call enc OClose f1 s = (f1\<lparr>rf_closed := True\<rparr>, s', [Saved (concat ds)])"
    using assms(5,6) by (simp add: file_defs rf_push_def)
  with w show ?thesis by (simp add: file_session_append)
qed

section \<open>A finding\<close>

text \<open>
  An append handle writes where it stands: after a seek it overwrites the
  beginning of the file, where Python's append mode writes at the end.
\<close>

lemma append_after_seek_overwrites:
  "\<exists>f f1 f2.
     remote_open (\<lambda>_. Inr True) (\<lambda>_. Inr True) (\<lambda>_. Inr ''abc'') Inr ''/f'' ''a+b'' = Inr (Buffered f)
     \<and> rf_buf f = ''abc'' \<and> rf_pos f = 3
     \<and> rf_seek 0 f = Inr f1 \<and> rf_write ''X'' f1 = Inr f2 \<and> rf_buf f2 = ''Xbc''"
proof -
  have "can_write (\<lambda>_. Inr True) (\<lambda>_. Inr True) ''/f'' = Inr True" by (subst can_write.simps) simp
  then show ?thesis
    by (simp add: remote_open_def open_modes_def rf_seek_def rf_write_def guard_write_def io_open_def
        overwrite_def Let_def)
qed

text \<open>
  A handle opened for reading and writing pushes its buffer on \<open>close\<close> even when nothing
  was written through it: content stored meanwhile through another handle is replaced by
  what the idle handle read when it was opened.
\<close>

lemma idle_handle_reverts:
  assumes "rf_writable f" "\<not> rf_closed f" "pf_write fs = Some (\<lambda>p d s. (Inr (), dset p d s))"
  shows "\<exists>f' s'. rf_close (fs_rpc_handler fs) Inr f (dset (rf_path f) newer s) = (Inr (), f', s')
    \<and> dget s' (rf_path f) = Some (rf_buf f)"
  using assms by (simp add: rf_close_def rf_save_def rf_push_def remote_fs_def fs_write_def lift_res_def)

section \<open>Concrete files\<close>

text \<open>A filesystem of one directory that stores writes, refusing those below \<open>/ro\<close>.\<close>

type_synonym ex_files = "(string, string) dict"

definition ex_parent :: "ex_files parent_fs" where
  "ex_parent = \<lparr>pf_read = None,
     pf_write = Some (\<lambda>p d s. if startswith p ''/ro'' then (Inl (Exc PermissionError p), s) else (Inr (), dset p d s)),
     pf_open_rb = (\<lambda>p s. case dget s p of None \<Rightarrow> Inl (Exc FileNotFoundError p) | Some d \<Rightarrow> Inr d),
     pf_open_wb = (\<lambda>p d s. (Inr (), dset p d s)),
     pf_method = (\<lambda>m args kw s. (Inr FNone, s))\<rparr>"

definition ex_call :: "ex_files fs_call" where
  "ex_call = fs_rpc_handler ex_parent"

definition ex_rfile :: "string \<Rightarrow> rfile" where
  "ex_rfile p = \<lparr>rf_path = p, rf_buf = [], rf_pos = 0, rf_readable = False, rf_writable = True,
                rf_closed = False, rf_save_raised = False\<rparr>"


theorem no_silent_loss_witness:
  "fst (rf_del ex_call Inr False (fst (file_session ex_call Inr [OWrite ''x'', OFlush, OWrite ''y''] (ex_rfile ''/ro/a'') []))
      (fst (snd (file_session ex_call Inr [OWrite ''x'', OFlush, OWrite ''y''] (ex_rfile ''/ro/a'') []))))
     = Lost (Exc StLostWrite ''/ro/a'')
   \<and> (since_change (\<lambda>ev. ev = Saved ''xy'' \<or> (\<exists>e. ev = SaveRaised e))
        (Changed # snd (snd (file_session ex_call Inr [OWrite ''x'', OFlush, OWrite ''y''] (ex_rfile ''/ro/a'') [])))
      \<or> (\<exists>e. Lost (Exc StLostWrite ''/ro/a'') = Lost e))"
proof -
  have run: "file_session ex_call Inr [OWrite ''x'', OFlush, OWrite ''y''] (ex_rfile ''/ro/a'') []
     = ((ex_rfile ''/ro/a'')\<lparr>rf_buf := ''xy'', rf_pos := 2\<rparr>, [], [Changed, SaveRaised (Exc PermissionError ''/ro/a''), Changed])"
    by code_simp
  have del: "rf_del ex_call Inr False ((ex_rfile ''/ro/a'')\<lparr>rf_buf := ''xy'', rf_pos := 2\<rparr>) []
     = (Lost (Exc StLostWrite ''/ro/a''), [])"
    by code_simp
  from no_silent_loss [OF _ _ _ run del] run del show ?thesis by (auto simp: ex_rfile_def)
qed

theorem can_write_witness:
  "\<exists>n. can_write (\<lambda>p. Inr (p = ''/'')) (\<lambda>p. Inr (p = ''/'')) ''/a/b''
      = Inr ((fs_parent ^^ n) ''/a/b'' = ''/'')"
  using can_write_asks_nearest [of "\<lambda>p. Inr (p = ''/'')" "\<lambda>p. p = ''/''" "\<lambda>p. Inr (p = ''/'')" "''/a/b''"] by auto

theorem pieces_witness:
  "\<exists>f' es. file_session ex_call Inr (map OWrite [''ab'', [], ''c''] @ [OClose]) (ex_rfile ''/a'') [] = (f', [(''/a'', ''abc'')], es)
    \<and> rf_closed f'"
proof -
  have "remote_fs ex_call (FsWrite (rf_path (ex_rfile ''/a'')) ''abc'') [] = (Inr FNone, [(''/a'', ''abc'')])"
    by code_simp
  from pieces_arrive_whole [of "ex_rfile ''/a''" Inr "[''ab'', [], ''c'']" "''abc''", OF _ _ _ _ _ this]
  show ?thesis by (auto simp: ex_rfile_def)
qed

end
