(* ===== verification/Rewritten.thy ===== *)
theory Rewritten
  imports Rewriter
begin

text \<open>
  The properties of the rewriter: every accepted program is gated, syntax
  without a handler and reserved names are refused wherever a visit reaches
  them, and future imports are taken off the front of a module. The last section
  evaluates the rewriter on programs whose bindings it does not gate.
\<close>

section \<open>Example programs\<close>

definition default_cfg :: rcfg where
  "default_cfg = \<lparr>rw_echo = ''none'', future_flags = 0, py_minor = 12\<rparr>"

definition mk_module :: "node list \<Rightarrow> node" where
  "mk_module ss = Node ''Module'' [(''body'', Many (map N ss)), (''type_ignores'', Many [])]"

definition mk_attr :: "node \<Rightarrow> string \<Rightarrow> string \<Rightarrow> node" where
  "mk_attr v a ctx = Node ''Attribute'' [(''value'', One (N v)), (''attr'', One (K (KStr a))),
     (''ctx'', One (N (leaf ctx)))]"

definition mk_while :: "node \<Rightarrow> node list \<Rightarrow> node" where
  "mk_while c ss = Node ''While'' [(''test'', One (N c)), (''body'', Many (map N ss)), (''orelse'', Many [])]"

definition mk_tuple :: "node list \<Rightarrow> string \<Rightarrow> node" where
  "mk_tuple es ctx = Node ''Tuple'' [(''elts'', Many (map N es)), (''ctx'', One (N (leaf ctx)))]"

definition mk_starred :: "node \<Rightarrow> string \<Rightarrow> node" where
  "mk_starred e ctx = Node ''Starred'' [(''value'', One (N e)), (''ctx'', One (N (leaf ctx)))]"

definition mk_class :: "string \<Rightarrow> node list \<Rightarrow> node" where
  "mk_class name body = Node ''ClassDef'' [(''name'', One (K (KStr name))), (''bases'', Many []),
     (''keywords'', Many []), (''body'', Many (map N body)), (''decorator_list'', Many []),
     (''type_params'', Many [])]"

text \<open>\<open>while x.ok: pass\<close>\<close>

definition ex_loop :: node where
  "ex_loop = mk_module [mk_while (mk_attr (mk_name ''x'' ''Load'') ''ok'' ''Load'') [leaf ''Pass'']]"

definition ex_loop_rewritten :: node where
  "ex_loop_rewritten =
     mk_module [mk_while (make_getattr (mk_name ''x'' ''Load'') ''ok'')
                  [mk_expr checkpoint_call, leaf ''Pass'']]"

lemma ex_loop_visit: "visit default_cfg ex_loop 0 = Inr (VOne ex_loop_rewritten, 0)"
  by code_simp

lemma ex_not_postponed: "\<not> postponed default_cfg"
  by (simp add: default_cfg_def postponed_def)

lemma mk_name_shape:
  "tag (mk_name i c) = ''Name''" "has_ctx (mk_name i c) x \<longleftrightarrow> c = x" "get_id (mk_name i c) ''id'' = i"
  by (auto simp: mk_name_def name_shape leaf_def)

section \<open>Properties\<close>



text \<open>
  C40: the rewriter is fail-closed: a program in which a visit reaches a node of
  a class without a handler is refused.
\<close>

theorem unsupported_syntax_refused:
  assumes "reaches cfg n m" and "tag m \<notin> set (recurse_tags (py_minor cfg)) \<union> set special_tags"
  shows "\<exists>e. visit cfg n k = Inl e"
proof (rule ccontr)
  assume "\<nexists>e. visit cfg n k = Inl e"
  then have "accepts cfg n" by (cases "visit cfg n k") (auto intro: acceptsI)
  with assms(1) have "accepts cfg m" by (rule reaches_accepted)
  then obtain k1 r1 k2 where "visit cfg m k1 = Inr (r1, k2)" by (auto simp: accepts_def)
  from visit_supported [OF this] assms(2) show False by blast
qed

theorem unsupported_syntax_refused_witness:
  "\<exists>e. visit default_cfg (mk_module [mk_while (mk_const (KBool True)) [leaf ''Exec'']]) 0 = Inl e"
proof (rule unsupported_syntax_refused)
  show "reaches default_cfg (mk_module [mk_while (mk_const (KBool True)) [leaf ''Exec'']]) (leaf ''Exec'')"
  proof (rule reaches.deeper)
    show "mk_while (mk_const (KBool True)) [leaf ''Exec'']
      \<in> set (parts default_cfg (mk_module [mk_while (mk_const (KBool True)) [leaf ''Exec'']]))"
      by code_simp
    show "reaches default_cfg (mk_while (mk_const (KBool True)) [leaf ''Exec'']) (leaf ''Exec'')"
      by (rule reaches.deeper [OF _ reaches.here]) code_simp
  qed
qed (simp add: leaf_def recurse_tags_defs special_tags_def default_cfg_def)

text \<open>
  A program in which a visit reaches a name of the reserved namespace
  \<open>__st_\<close>, read, bound or deleted, is refused, and so is one that binds or
  deletes \<open>exec\<close>, \<open>eval\<close>, \<open>compile\<close> or \<open>__import__\<close>.
\<close>

theorem reserved_name_refused:
  assumes "reaches cfg n (mk_name i ctx)" and "ctx \<in> {''Load'', ''Store'', ''Del''}"
    and "startswith i ''__st_'' \<or> ctx \<noteq> ''Load'' \<and> i \<in> set BLOCKED_NAMES"
  shows "\<exists>e. visit cfg n k = Inl e"
proof (rule ccontr)
  assume "\<nexists>e. visit cfg n k = Inl e"
  then have "accepts cfg n" by (cases "visit cfg n k") (auto intro: acceptsI)
  with assms(1) have "accepts cfg (mk_name i ctx)" by (rule reaches_accepted)
  then obtain k1 r1 where "visit cfg (mk_name i ctx) k1 = Inr r1" by (auto simp: accepts_def)
  note v = this [unfolded visit.simps [of cfg "mk_name i ctx" k1]]
  have "i \<noteq> ''__import__'' \<or> ctx \<noteq> ''Load''" using assms(3) by auto
  with v assms(2,3) show False
    by (auto simp: mk_name_shape refuse_def rbind_eq_Inr_iff check_name_store_def check_name_del_def split: if_splits)
qed

theorem reserved_name_refused_witness:
  "\<exists>e. visit default_cfg (mk_module [mk_expr (mk_name ''__st_getattr__'' ''Load'')]) 0 = Inl e"
proof (rule reserved_name_refused)
  show "reaches default_cfg (mk_module [mk_expr (mk_name ''__st_getattr__'' ''Load'')])
          (mk_name ''__st_getattr__'' ''Load'')"
  proof (rule reaches.deeper)
    show "mk_expr (mk_name ''__st_getattr__'' ''Load'')
      \<in> set (parts default_cfg (mk_module [mk_expr (mk_name ''__st_getattr__'' ''Load'')]))"
      by code_simp
    show "reaches default_cfg (mk_expr (mk_name ''__st_getattr__'' ''Load'')) (mk_name ''__st_getattr__'' ''Load'')"
      by (rule reaches.deeper [OF _ reaches.here]) code_simp
  qed
qed simp_all

section \<open>Bindings the rewriter does not gate\<close>

text \<open>
  \<open>a, *obj.x = v\<close> is accepted unchanged: the starred element hides the attribute
  target from \<open>_has_attr_in_target\<close>, so the attribute is stored without the gate.
\<close>

definition ex_starred :: node where
  "ex_starred = mk_module [mk_assign
     (mk_tuple [mk_name ''a'' ''Store'', mk_starred (mk_attr (mk_name ''obj'' ''Load'') ''x'' ''Store'') ''Store''] ''Store'')
     (mk_name ''v'' ''Load'')]"

theorem starred_attribute_store_ungated: "visit default_cfg ex_starred 0 = Inr (VOne ex_starred, 0)"
  by code_simp

text \<open>
  \<open>class __st_checkpoint__: pass\<close> is accepted unchanged: the name a class
  statement binds is not checked against the reserved namespace, so the gate
  can be replaced by a class whose call does nothing.
\<close>

theorem reserved_class_name_accepted:
  "visit default_cfg (mk_module [mk_class ''__st_checkpoint__'' [leaf ''Pass'']]) 0 =
     Inr (VOne (mk_module [mk_class ''__st_checkpoint__'' [leaf ''Pass'']]), 0)"
  by code_simp

text \<open>
  \<open>match c: case C(secret=s): pass\<close> is accepted unchanged: the keyword pattern
  reads the attribute \<open>secret\<close> of the subject without the gate.
\<close>

definition ex_match :: node where
  "ex_match = mk_module [Node ''Match'' [(''subject'', One (N (mk_name ''c'' ''Load''))), (''cases'', Many [N
     (Node ''match_case'' [(''pattern'', One (N (Node ''MatchClass'' [(''cls'', One (N (mk_name ''C'' ''Load''))),
         (''patterns'', Many []), (''kwd_attrs'', Many [K (KStr ''secret'')]),
         (''kwd_patterns'', Many [N (Node ''MatchAs'' [(''pattern'', One (K KNone)), (''name'', One (K (KStr ''s'')))])])]))),
       (''guard'', One (K KNone)), (''body'', Many [N (leaf ''Pass'')])])])]]"

theorem class_pattern_reads_ungated: "visit default_cfg ex_match 0 = Inr (VOne ex_match, 0)"
  by code_simp

end
