(* ===== verification/Buffers.thy ===== *)
theory Buffers
  imports Prelude
begin

text \<open>
  The capture buffers for standard output and error (\<open>sandtrap/builtins.py\<close>):
  \<open>TailBuffer\<close>, which keeps the last characters written, and \<open>EndsBuffer\<close>, which
  keeps the first half as well, behind the writers that sandboxed code sees:
  \<open>print\<close>, the stream objects, \<open>input\<close>'s prompt and \<open>help\<close>. The interface between
  the two is the locale \<open>output_buffer\<close>; both buffers interpret it, and the
  writers' lemmas are proved once inside it.
\<close>

section \<open>TailBuffer\<close>

definition TRUNCATION_MARKER :: string where
  "TRUNCATION_MARKER = ''... [earlier output truncated]'' @ [CHR 0x0A]"

record tail_buffer =
  tb_max :: "nat option"
  tb_chunks :: "string list"
  tb_size :: nat
  tb_dropped :: nat

definition TailBuffer :: "nat option \<Rightarrow> tail_buffer" where
  "TailBuffer m = \<lparr>tb_max = m, tb_chunks = [], tb_size = 0, tb_dropped = 0\<rparr>"

text \<open>The loop of \<open>_trim\<close>; reading the first chunk of an empty queue is an error.\<close>

fun trim_chunks :: "nat \<Rightarrow> string list \<Rightarrow> string list res" where
  "trim_chunks excess [] =
     (if excess = 0 then Inr [] else Inl (Exc (OtherException ''IndexError'') ''deque index out of range''))"
| "trim_chunks excess (c # cs) =
     (if excess = 0 then Inr (c # cs)
      else if length c \<le> excess then trim_chunks (excess - length c) cs
      else Inr (drop excess c # cs))"

definition tb_trim :: "nat \<Rightarrow> tail_buffer \<Rightarrow> tail_buffer res" where
  "tb_trim excess b =
     rbind (trim_chunks excess (tb_chunks b))
       (\<lambda>cs. Inr (b\<lparr>tb_chunks := cs, tb_size := tb_size b - excess, tb_dropped := tb_dropped b + excess\<rparr>))"

definition tb_append :: "tail_buffer \<Rightarrow> string \<Rightarrow> tail_buffer res" where
  "tb_append b text =
     (let b1 = b\<lparr>tb_chunks := tb_chunks b @ [text], tb_size := tb_size b + length text\<rparr> in
      case tb_max b of
        Some m \<Rightarrow> if tb_size b1 > m then tb_trim (tb_size b1 - m) b1 else Inr b1
      | None \<Rightarrow> Inr b1)"

definition tb_write :: "tail_buffer \<Rightarrow> string \<Rightarrow> tail_buffer res" where
  "tb_write b text = (if text = [] then Inr b else tb_append b text)"

definition tb_kept :: "tail_buffer \<Rightarrow> string" where
  "tb_kept b = concat (tb_chunks b)"

definition tb_getvalue :: "tail_buffer \<Rightarrow> string" where
  "tb_getvalue b = (if tb_dropped b \<noteq> 0 then TRUNCATION_MARKER @ tb_kept b else tb_kept b)"

section \<open>EndsBuffer\<close>

record ends_buffer =
  eb_tail :: tail_buffer
  eb_head_max :: "nat option"
  eb_head :: "string list"
  eb_head_size :: nat

definition EndsBuffer :: "nat option \<Rightarrow> ends_buffer" where
  "EndsBuffer m =
     \<lparr>eb_tail = TailBuffer (map_option (\<lambda>k. k - k div 2) m),
      eb_head_max = map_option (\<lambda>k. k div 2) m, eb_head = [], eb_head_size = 0\<rparr>"

definition eb_to_tail :: "ends_buffer \<Rightarrow> string \<Rightarrow> ends_buffer res" where
  "eb_to_tail b text = rbind (tb_append (eb_tail b) text) (\<lambda>t. Inr (b\<lparr>eb_tail := t\<rparr>))"

definition eb_append :: "ends_buffer \<Rightarrow> string \<Rightarrow> ends_buffer res" where
  "eb_append b text =
     (case eb_head_max b of
        Some h \<Rightarrow>
          if eb_head_size b < h then
            (let t = take (h - eb_head_size b) text;
                 b1 = b\<lparr>eb_head := eb_head b @ [t], eb_head_size := eb_head_size b + length t\<rparr>;
                 rest = drop (length t) text
             in if rest = [] then Inr b1 else eb_to_tail b1 rest)
          else eb_to_tail b text
      | None \<Rightarrow> eb_to_tail b text)"

definition eb_write :: "ends_buffer \<Rightarrow> string \<Rightarrow> ends_buffer res" where
  "eb_write b text = (if text = [] then Inr b else eb_append b text)"

definition omitted_marker :: "nat \<Rightarrow> string" where
  "omitted_marker n =
     [CHR 0x0A] @ ''... ['' @ str_of_nat n @ '' characters omitted] ...'' @ [CHR 0x0A]"

definition eb_getvalue :: "ends_buffer \<Rightarrow> string" where
  "eb_getvalue b =
     (let head = concat (eb_head b); tail = tb_kept (eb_tail b); dropped = tb_dropped (eb_tail b)
      in if dropped \<noteq> 0 then head @ omitted_marker dropped @ tail else head @ tail)"

section \<open>The buffer chosen by a policy\<close>

datatype out_buffer = Tail tail_buffer | Ends ends_buffer

definition make_output_buffer :: "nat option \<Rightarrow> string \<Rightarrow> out_buffer" where
  "make_output_buffer m keep = (if keep = ''ends'' then Ends (EndsBuffer m) else Tail (TailBuffer m))"

fun buf_write :: "out_buffer \<Rightarrow> string \<Rightarrow> out_buffer res" where
  "buf_write (Tail b) t = rbind (tb_write b t) (\<lambda>b'. Inr (Tail b'))"
| "buf_write (Ends b) t = rbind (eb_write b t) (\<lambda>b'. Inr (Ends b'))"

fun buf_getvalue :: "out_buffer \<Rightarrow> string" where
  "buf_getvalue (Tail b) = tb_getvalue b"
| "buf_getvalue (Ends b) = eb_getvalue b"

text \<open>
  \<open>_exact_text\<close>, through which every argument of \<open>write\<close> goes: a string, the text of a
  subclass of it as \<open>str.__str__\<close> copies it, or a \<open>TypeError\<close> for anything else.
\<close>

datatype text_arg = ExactStr string | StrSubclass string | NotStr string

fun exact_text :: "text_arg \<Rightarrow> string res" where
  "exact_text (ExactStr t) = Inr t"
| "exact_text (StrSubclass t) = Inr t"
| "exact_text (NotStr name) = Inl (Exc TypeError (''string argument expected, got '' @ name))"

definition buf_write_arg :: "out_buffer \<Rightarrow> text_arg \<Rightarrow> out_buffer res" where
  "buf_write_arg b a = rbind (exact_text a) (buf_write b)"

section \<open>Writers\<close>

text \<open>
  The writers take the buffer's \<open>write\<close> as an argument, as the code takes any
  object with that method. The arguments of \<open>print\<close> are already converted by \<open>str\<close>.
\<close>

definition print_to ::
  "('b \<Rightarrow> string \<Rightarrow> 'b res) \<Rightarrow> bool \<Rightarrow> string \<Rightarrow> string \<Rightarrow> string list \<Rightarrow> 'b \<Rightarrow> 'b res" where
  "print_to wr has_file sep end_text args b =
     (if has_file then Inl (Exc ValueError ''print(file=...) is not supported in the sandbox'')
      else wr b (join sep args @ end_text))"

definition stream_write :: "('b \<Rightarrow> string \<Rightarrow> 'b res) \<Rightarrow> 'b \<Rightarrow> string \<Rightarrow> ('b \<times> nat) res" where
  "stream_write wr b s = rbind (wr b s) (\<lambda>b'. Inr (b', length s))"

fun stream_writelines :: "('b \<Rightarrow> string \<Rightarrow> 'b res) \<Rightarrow> 'b \<Rightarrow> string list \<Rightarrow> 'b res" where
  "stream_writelines wr b [] = Inr b"
| "stream_writelines wr b (l # ls) = rbind (wr b l) (\<lambda>b'. stream_writelines wr b' ls)"

text \<open>\<open>readline\<close> of a text stream: up to and including the first newline.\<close>

definition readline :: "string \<Rightarrow> string \<times> string" where
  "readline s =
     (let line = takeWhile (\<lambda>c. c \<noteq> CHR 0x0A) s; rest = dropWhile (\<lambda>c. c \<noteq> CHR 0x0A) s
      in (line @ take 1 rest, drop 1 rest))"

definition sandbox_input ::
  "('b \<Rightarrow> string \<Rightarrow> 'b res) \<Rightarrow> string \<Rightarrow> string \<Rightarrow> 'b \<Rightarrow> (string \<times> string \<times> 'b) res" where
  "sandbox_input wr prompt stdin b =
     rbind (if prompt \<noteq> [] then wr b prompt else Inr b)
       (\<lambda>b'. let (line, rest) = readline stdin in
          if line = [] then Inl (Exc EOFError ''EOF when reading a line'')
          else Inr (rstrip {CHR 0x0D, CHR 0x0A} line, rest, b'))"

section \<open>The interface of a capture buffer\<close>

text \<open>
  \<open>holds b s\<close>: the buffer has been given the text \<open>s\<close> in all. A write never fails
  and adds to that text; what a read shows is a function of it.
\<close>

locale output_buffer =
  fixes bwrite :: "'b \<Rightarrow> string \<Rightarrow> 'b res"
    and bvalue :: "'b \<Rightarrow> string"
    and holds :: "'b \<Rightarrow> string \<Rightarrow> bool"
    and shown :: "string \<Rightarrow> string"
  assumes write_ok: "holds b s \<Longrightarrow> \<exists>b'. bwrite b t = Inr b' \<and> holds b' (s @ t)"
    and value_ok: "holds b s \<Longrightarrow> bvalue b = shown s"
begin

lemma writelines_ok: "holds b s \<Longrightarrow> \<exists>b'. stream_writelines bwrite b ls = Inr b' \<and> holds b' (s @ concat ls)"
proof (induction ls arbitrary: b s)
  case (Cons l ls)
  obtain b1 where "bwrite b l = Inr b1" "holds b1 (s @ l)" using write_ok [OF Cons.prems] by blast
  with Cons.IH [of b1 "s @ l"] show ?case by simp
qed simp

lemma print_ok:
  "holds b s \<Longrightarrow> \<exists>b'. print_to bwrite False sep e args b = Inr b' \<and> holds b' (s @ join sep args @ e)"
  using write_ok by (simp add: print_to_def)

lemma writelines_value:
  assumes "holds b s"
  shows "\<exists>b'. stream_writelines bwrite b ls = Inr b' \<and> bvalue b' = shown (s @ concat ls)"
  using writelines_ok [OF assms] value_ok by blast

lemma stream_write_ok:
  assumes "holds b s"
  shows "\<exists>b'. stream_write bwrite b t = Inr (b', length t) \<and> bvalue b' = shown (s @ t)"
proof -
  obtain b' where "bwrite b t = Inr b'" "holds b' (s @ t)" using write_ok [OF assms] by blast
  then show ?thesis by (simp add: stream_write_def value_ok)
qed

lemma input_prompt_ok:
  assumes "holds b s" "sandbox_input bwrite prompt stdin b = Inr (line, rest, b')"
  shows "holds b' (s @ prompt)"
proof (cases "prompt = []")
  case True
  with assms show ?thesis by (auto simp: sandbox_input_def Let_def split: prod.splits if_splits)
next
  case False
  obtain b1 where "bwrite b prompt = Inr b1" "holds b1 (s @ prompt)" using write_ok [OF assms(1)] by blast
  with False assms(2) show ?thesis by (auto simp: sandbox_input_def Let_def split: prod.splits if_splits)
qed

end

section \<open>TailBuffer implements the interface\<close>

definition tail_shown :: "nat option \<Rightarrow> string \<Rightarrow> string" where
  "tail_shown m s =
     (case m of
        None \<Rightarrow> s
      | Some k \<Rightarrow> if length s \<le> k then s else TRUNCATION_MARKER @ drop (length s - k) s)"

definition tb_excess :: "nat option \<Rightarrow> string \<Rightarrow> nat" where
  "tb_excess m s = (case m of None \<Rightarrow> 0 | Some k \<Rightarrow> length s - k)"

definition tb_holds :: "nat option \<Rightarrow> tail_buffer \<Rightarrow> string \<Rightarrow> bool" where
  "tb_holds m b s \<longleftrightarrow>
     tb_max b = m \<and> tb_dropped b = tb_excess m s \<and> tb_size b = length s - tb_excess m s
     \<and> tb_kept b = drop (tb_excess m s) s"

lemma tb_excess_le: "tb_excess m s \<le> length s"
  by (simp add: tb_excess_def split: option.splits)

lemma trim_chunks_ok:
  "e \<le> length (concat cs) \<Longrightarrow> \<exists>cs'. trim_chunks e cs = Inr cs' \<and> concat cs' = drop e (concat cs)"
  by (induction e cs rule: trim_chunks.induct) auto

lemma tb_append_ok:
  assumes "tb_holds m b s"
  shows "\<exists>b'. tb_append b t = Inr b' \<and> tb_holds m b' (s @ t)"
proof -
  let ?e = "tb_excess m s"
  have e: "?e \<le> length s" by (rule tb_excess_le)
  have kept: "concat (tb_chunks b @ [t]) = drop ?e (s @ t)"
    using assms e by (simp add: tb_holds_def tb_kept_def)
  show ?thesis
  proof (cases m)
    case None
    with assms kept show ?thesis by (simp add: tb_append_def tb_holds_def tb_kept_def tb_excess_def Let_def)
  next
    case (Some k)
    let ?x = "tb_size b + length t - k"
    have x: "?x \<le> length (concat (tb_chunks b @ [t]))"
      unfolding kept using assms e by (simp add: tb_holds_def)
    obtain cs where cs: "trim_chunks ?x (tb_chunks b @ [t]) = Inr cs" "concat cs = drop ?x (drop ?e (s @ t))"
      using trim_chunks_ok [OF x] unfolding kept by blast
    show ?thesis
    proof (cases "tb_size b + length t > k")
      case True
      have "?x + ?e = length (s @ t) - k"
        using True assms Some e by (simp add: tb_holds_def tb_excess_def)
      with True assms Some cs e show ?thesis
        by (simp add: tb_append_def tb_holds_def tb_kept_def tb_excess_def tb_trim_def Let_def
            add.commute drop_drop del: drop_append)
    next
      case False
      then have "length s - k = length s + length t - k"
        using assms Some by (auto simp: tb_holds_def tb_excess_def)
      with False assms Some kept e show ?thesis
        by (auto simp: tb_append_def tb_holds_def tb_kept_def tb_excess_def Let_def)
    qed
  qed
qed

lemma tb_write_ok: "tb_holds m b s \<Longrightarrow> \<exists>b'. tb_write b t = Inr b' \<and> tb_holds m b' (s @ t)"
  using tb_append_ok by (simp add: tb_write_def)

lemma tb_getvalue_ok: "tb_holds m b s \<Longrightarrow> tb_getvalue b = tail_shown m s"
  by (auto simp: tb_holds_def tb_getvalue_def tail_shown_def tb_excess_def split: option.splits)

lemma tb_holds_new [simp]: "tb_holds m (TailBuffer m) []"
  by (simp add: tb_holds_def TailBuffer_def tb_excess_def tb_kept_def split: option.splits)

interpretation tail: output_buffer tb_write tb_getvalue "tb_holds m" "tail_shown m" for m
  by unfold_locales (auto intro: tb_write_ok tb_getvalue_ok)

section \<open>EndsBuffer implements the interface\<close>

definition ends_shown :: "nat option \<Rightarrow> string \<Rightarrow> string" where
  "ends_shown m s =
     (case m of
        None \<Rightarrow> s
      | Some k \<Rightarrow>
          if length s \<le> k then s
          else take (k div 2) s @ omitted_marker (length s - k) @ drop (length s - (k - k div 2)) s)"

text \<open>The head holds the first half; the tail buffer has been given the rest.\<close>

definition head_len :: "nat option \<Rightarrow> string \<Rightarrow> nat" where
  "head_len m s = (case m of None \<Rightarrow> 0 | Some k \<Rightarrow> min (k div 2) (length s))"

definition eb_holds :: "nat option \<Rightarrow> ends_buffer \<Rightarrow> string \<Rightarrow> bool" where
  "eb_holds m b s \<longleftrightarrow>
     eb_head_max b = map_option (\<lambda>k. k div 2) m \<and> concat (eb_head b) = take (head_len m s) s
     \<and> eb_head_size b = head_len m s
     \<and> tb_holds (map_option (\<lambda>k. k - k div 2) m) (eb_tail b) (drop (head_len m s) s)"

lemma eb_to_tail_ok:
  assumes "tb_holds m' (eb_tail b) r"
  shows "\<exists>t'. eb_to_tail b t = Inr (b\<lparr>eb_tail := t'\<rparr>) \<and> tb_holds m' t' (r @ t)"
  using tb_append_ok [OF assms, of t] by (auto simp: eb_to_tail_def)

lemma eb_append_ok:
  assumes h: "eb_holds m b s"
  shows "\<exists>b'. eb_append b t = Inr b' \<and> eb_holds m b' (s @ t)"
proof (cases m)
  case None
  obtain t' where "eb_to_tail b t = Inr (b\<lparr>eb_tail := t'\<rparr>)" "tb_holds None t' (s @ t)"
    using eb_to_tail_ok [of None b s t] h None by (auto simp: eb_holds_def head_len_def)
  with None h show ?thesis by (simp add: eb_append_def eb_holds_def head_len_def)
next
  case (Some k)
  let ?h = "k div 2" and ?m' = "Some (k - k div 2)"
  have th: "tb_holds ?m' (eb_tail b) (drop (head_len m s) s)" using h Some by (simp add: eb_holds_def)
  show ?thesis
  proof (cases "length s < ?h")
    case False
    obtain t' where "eb_to_tail b t = Inr (b\<lparr>eb_tail := t'\<rparr>)" "tb_holds ?m' t' (drop ?h s @ t)"
      using eb_to_tail_ok [OF th, of t] False Some by (auto simp: head_len_def)
    with False Some h show ?thesis by (simp add: eb_append_def eb_holds_def head_len_def)
  next
    case True
    let ?t = "take (?h - length s) t"
    let ?b1 = "b\<lparr>eb_head := eb_head b @ [?t], eb_head_size := length s + length ?t\<rparr>"
    have len: "length s + length ?t = head_len m (s @ t)" using True Some by (auto simp: head_len_def)
    have head: "concat (eb_head b @ [?t]) = take (head_len m (s @ t)) (s @ t)"
      using h True Some by (auto simp: eb_holds_def head_len_def min_def)
    have rest: "drop (head_len m (s @ t)) (s @ t) = drop (length ?t) t" using len by (auto simp: len [symmetric])
    have empty: "tb_holds ?m' (eb_tail b) []" using th True Some by (simp add: head_len_def)
    have app: "eb_append b t = (if drop (length ?t) t = [] then Inr ?b1 else eb_to_tail ?b1 (drop (length ?t) t))"
      using h True Some by (simp add: eb_append_def eb_holds_def head_len_def Let_def)
    show ?thesis
    proof (cases "drop (length ?t) t = []")
      case True
      with app head len rest empty Some h show ?thesis by (simp add: eb_holds_def del: length_take)
    next
      case False
      have b1: "tb_holds ?m' (eb_tail ?b1) []" using empty by simp
      obtain t' where "eb_to_tail ?b1 (drop (length ?t) t) = Inr (?b1\<lparr>eb_tail := t'\<rparr>)"
        "tb_holds ?m' t' (drop (length ?t) t)"
        using eb_to_tail_ok [OF b1, of "drop (length ?t) t"] by auto
      with app False head len rest Some h show ?thesis by (simp add: eb_holds_def del: length_take)
    qed
  qed
qed

lemma eb_write_ok: "eb_holds m b s \<Longrightarrow> \<exists>b'. eb_write b t = Inr b' \<and> eb_holds m b' (s @ t)"
  using eb_append_ok by (simp add: eb_write_def)

lemma eb_getvalue_ok:
  assumes "eb_holds m b s"
  shows "eb_getvalue b = ends_shown m s"
proof (cases m)
  case None
  with assms show ?thesis
    by (simp add: eb_holds_def eb_getvalue_def ends_shown_def head_len_def tb_holds_def tb_excess_def Let_def)
next
  case (Some k)
  let ?h = "min (k div 2) (length s)"
  have t: "tb_dropped (eb_tail b) = length s - ?h - (k - k div 2)"
    "tb_kept (eb_tail b) = drop (length s - ?h - (k - k div 2)) (drop ?h s)"
    and hd: "concat (eb_head b) = take ?h s"
    using assms Some by (simp_all add: eb_holds_def head_len_def tb_holds_def tb_excess_def)
  show ?thesis
  proof (cases "length s \<le> k")
    case True
    then have "length s - ?h - (k - k div 2) = 0" by auto
    with t hd True Some show ?thesis by (simp add: eb_getvalue_def ends_shown_def Let_def)
  next
    case False
    then have h: "?h = k div 2" "length s - ?h - (k - k div 2) = length s - k"
      "length s - k + k div 2 = length s - (k - k div 2)" by auto
    with t hd False Some show ?thesis by (simp add: eb_getvalue_def ends_shown_def Let_def)
  qed
qed

lemma eb_holds_new [simp]: "eb_holds m (EndsBuffer m) []"
  by (cases m) (simp_all add: eb_holds_def EndsBuffer_def head_len_def)

interpretation ends: output_buffer eb_write eb_getvalue "eb_holds m" "ends_shown m" for m
  by unfold_locales (auto intro: eb_write_ok eb_getvalue_ok)

section \<open>The chosen buffer implements the interface\<close>

definition buf_shown :: "nat option \<Rightarrow> string \<Rightarrow> string \<Rightarrow> string" where
  "buf_shown m keep s = (if keep = ''ends'' then ends_shown m s else tail_shown m s)"

fun buf_holds :: "nat option \<Rightarrow> string \<Rightarrow> out_buffer \<Rightarrow> string \<Rightarrow> bool" where
  "buf_holds m keep (Tail b) s = (keep \<noteq> ''ends'' \<and> tb_holds m b s)"
| "buf_holds m keep (Ends b) s = (keep = ''ends'' \<and> eb_holds m b s)"

lemma buf_holds_new [simp]: "buf_holds m keep (make_output_buffer m keep) []"
  by (simp add: make_output_buffer_def)

lemma buf_write_ok:
  assumes "buf_holds m keep b s"
  shows "\<exists>b'. buf_write b t = Inr b' \<and> buf_holds m keep b' (s @ t)"
proof (cases b)
  case (Tail c)
  with assms tb_write_ok [of m c s t] show ?thesis by fastforce
next
  case (Ends c)
  with assms eb_write_ok [of m c s t] show ?thesis by fastforce
qed

lemma buf_getvalue_ok: "buf_holds m keep b s \<Longrightarrow> buf_getvalue b = buf_shown m keep s"
  by (cases b) (auto simp: buf_shown_def tb_getvalue_ok eb_getvalue_ok)

interpretation buf: output_buffer buf_write buf_getvalue "buf_holds m keep" "buf_shown m keep" for m keep
  by unfold_locales (auto intro: buf_write_ok buf_getvalue_ok)

section \<open>Properties\<close>

text \<open>
  C37: whatever is written to the buffer a policy chooses, in however many
  pieces, no write fails and the captured output is all of it when it fits;
  otherwise the truncation marker and the last \<open>m\<close> characters (\<open>tail\<close>), or the
  first \<open>m div 2\<close>, the count of what is left out, and the last \<open>m - m div 2\<close> (\<open>ends\<close>).
\<close>

theorem captured_output:
  "\<exists>b. stream_writelines buf_write (make_output_buffer m keep) ls = Inr b \<and>
       buf_getvalue b =
         (case m of
            None \<Rightarrow> concat ls
          | Some k \<Rightarrow>
              let s = concat ls in
              if length s \<le> k then s
              else if keep = ''ends'' then
                take (k div 2) s @ omitted_marker (length s - k) @ drop (length s - (k - k div 2)) s
              else TRUNCATION_MARKER @ drop (length s - k) s)"
  using buf.writelines_value [OF buf_holds_new, of m keep ls]
  by (auto simp: buf_shown_def ends_shown_def tail_shown_def Let_def split: option.splits)

text \<open>The characters a capture buffer holds.\<close>

fun buf_memory :: "out_buffer \<Rightarrow> nat" where
  "buf_memory (Tail b) = length (concat (tb_chunks b))"
| "buf_memory (Ends b) = length (concat (eb_head b)) + length (concat (tb_chunks (eb_tail b)))"

text \<open>
  The memory a capture buffer with a limit holds is bounded by the limit,
  after any sequence of writes.
\<close>

theorem capture_bounded:
  assumes "stream_writelines buf_write (make_output_buffer (Some k) keep) ls = Inr b"
  shows "buf_memory b \<le> k"
proof -
  have "buf_holds (Some k) keep b (concat ls)"
    using buf.writelines_ok [OF buf_holds_new, of "Some k" keep ls] assms by auto
  then show ?thesis
    by (cases b) (auto simp: tb_holds_def tb_kept_def tb_excess_def eb_holds_def head_len_def min_def)
qed

theorem capture_bounded_witness:
  "buf_memory (Tail \<lparr>tb_max = Some 3, tb_chunks = [''b'', ''cd''], tb_size = 3, tb_dropped = 1\<rparr>) \<le> 3"
  by (rule capture_bounded [of 3 "''tail''" "[''ab'', ''cd'']"])
    (simp add: make_output_buffer_def TailBuffer_def tb_write_def tb_append_def tb_trim_def Let_def)

end
