(* ===== verification/Net.thy ===== *)
theory Net
  imports AttrGate
begin

text \<open>
  Network permission (\<open>sandtrap/net\<close>): the context variable \<open>network_allowed\<close> and
  its two context managers, the patched socket operations that consult it, the
  installation of the patches, and \<open>wrap_privileged\<close> of \<open>gates.py\<close>, which opens
  the network or the host file system for one call.

  A context is the value of the context variables of the running task. Code is
  a function from a context and a state to a result, the context it leaves and
  a new state; \<open>ContextVar.reset\<close> puts back the value from before the \<open>set\<close>,
  whatever the code in between did. What \<open>suspend\<close> of monkeyfs does to the current file
  system on entry and exit is a parameter.
\<close>

section \<open>Contexts\<close>

record 'f ctx =
  current_fs :: "'f option"
  network_allowed :: bool
  current_clock :: "nat option"

type_synonym ('f, 's, 'r) code = "'f ctx \<Rightarrow> 's \<Rightarrow> 'r res \<times> 'f ctx \<times> 's"

definition with_network :: "bool \<Rightarrow> ('f, 's, 'r) code \<Rightarrow> ('f, 's, 'r) code" where
  "with_network b body c s =
     (case body (c\<lparr>network_allowed := b\<rparr>) s of
        (r, c', s') \<Rightarrow> (r, c'\<lparr>network_allowed := network_allowed c\<rparr>, s'))"

definition deny_network_scope :: "('f, 's, 'r) code \<Rightarrow> ('f, 's, 'r) code" where
  "deny_network_scope body = with_network False body"

definition allow_network_scope :: "('f, 's, 'r) code \<Rightarrow> ('f, 's, 'r) code" where
  "allow_network_scope body = with_network True body"

text \<open>A scope over code, as a scope over the pair of its context and the state.\<close>

definition on_pair :: "(('f, 's, 'r) code \<Rightarrow> ('f, 's, 'r) code) \<Rightarrow> ('f, 's, 'r) code \<Rightarrow> 'f ctx \<times> 's \<Rightarrow> 'r res \<times> 'f ctx \<times> 's" where
  "on_pair scope body cs = scope body (fst cs) (snd cs)"

interpretation network: restoring "on_pair (with_network b)" "\<lambda>cs. network_allowed (fst cs)" for b
  by unfold_locales (simp add: on_pair_def with_network_def split: prod.splits)

record 'f suspension =
  susp_enter :: "'f option \<Rightarrow> 'f option"
  susp_exit :: "'f option \<Rightarrow> 'f option \<Rightarrow> 'f option"

definition suspend_scope :: "'f suspension \<Rightarrow> ('f, 's, 'r) code \<Rightarrow> ('f, 's, 'r) code" where
  "suspend_scope sp body c s =
     (case body (c\<lparr>current_fs := susp_enter sp (current_fs c)\<rparr>) s of
        (r, c', s') \<Rightarrow> (r, c'\<lparr>current_fs := susp_exit sp (current_fs c) (current_fs c')\<rparr>, s'))"

text \<open>The scopes are entered in this order and left in the reverse one.\<close>

definition wrap_privileged ::
  "'f suspension \<Rightarrow> bool \<Rightarrow> bool \<Rightarrow> ('f, 's, 'r) code \<Rightarrow> ('f, 's, 'r) code" where
  "wrap_privileged sp network_access host_fs_access fn =
     (let inner = (if host_fs_access then suspend_scope sp fn else fn)
      in if network_access then allow_network_scope inner else inner)"

section \<open>Socket operations\<close>

datatype family = AF_INET | AF_INET6 | AF_UNIX | AF_OTHER

definition NETWORK_FAMILIES :: "family set" where
  "NETWORK_FAMILIES = {AF_INET, AF_INET6}"

text \<open>The family of a socket; a read that raises counts as a network socket.\<close>

definition is_network_socket :: "family res \<Rightarrow> bool" where
  "is_network_socket fam = (case fam of Inr f \<Rightarrow> f \<in> NETWORK_FAMILIES | Inl _ \<Rightarrow> True)"

definition check_network :: "string \<Rightarrow> family res option \<Rightarrow> 'f ctx \<Rightarrow> unit res" where
  "check_network operation sock c =
     (case sock of
        Some fam \<Rightarrow>
          if \<not> is_network_socket fam then Inr ()
          else if \<not> network_allowed c
          then Inl (Exc StError (''Network access denied: '' @ operation @ ''() blocked by sandbox. '' @
                  ''Register with network_access=True to allow.''))
          else Inr ()
      | None \<Rightarrow>
          if \<not> network_allowed c
          then Inl (Exc StError (''Network access denied: '' @ operation @ ''() blocked by sandbox. '' @
                  ''Register with network_access=True to allow.''))
          else Inr ())"

text \<open>A patched operation: the check, then the saved original.\<close>

definition gated_op :: "string \<Rightarrow> family res option \<Rightarrow> ('f, 's, 'r) code \<Rightarrow> ('f, 's, 'r) code" where
  "gated_op operation sock original c s =
     (case check_network operation sock c of
        Inl e \<Rightarrow> (Inl e, c, s)
      | Inr _ \<Rightarrow> original c s)"

section \<open>Installing the patches\<close>

definition METHODS :: "string list" where
  "METHODS =
     [''connect'', ''connect_ex'', ''bind'', ''listen'', ''accept'', ''send'', ''sendall'',
      ''sendto'', ''sendfile'', ''recv'', ''recvfrom'', ''recv_into'', ''recvfrom_into'']"

text \<open>
  An attribute of \<open>socket.socket\<close> is the interpreter's own method or the patch
  of that name; \<open>_originals\<close>, \<open>_original_getaddrinfo\<close> and \<open>_installed\<close> are module state.
\<close>

datatype method_impl = Own string | Patch string

record patches =
  sock_methods :: "(string, method_impl) dict"
  getaddrinfo :: method_impl
  originals :: "(string, method_impl) dict"
  original_getaddrinfo :: "method_impl option"
  pt_installed :: bool
  thread_start :: method_impl
  executor_submit :: method_impl
  original_thread_start :: "method_impl option"
  original_executor_submit :: "method_impl option"

definition install_threading :: "patches \<Rightarrow> patches" where
  "install_threading p =
     (let p = (if original_thread_start p = None
               then p\<lparr>original_thread_start := Some (thread_start p), thread_start := Patch ''start''\<rparr>
               else p)
      in if original_executor_submit p = None
         then p\<lparr>original_executor_submit := Some (executor_submit p), executor_submit := Patch ''submit''\<rparr>
         else p)"

definition patch_method :: "string \<Rightarrow> patches \<Rightarrow> patches" where
  "patch_method name p =
     (if dmem name (originals p) then p
      else
        (case dget (sock_methods p) name of
           Some m \<Rightarrow> p\<lparr>originals := dset name m (originals p),
                       sock_methods := dset name (Patch name) (sock_methods p)\<rparr>
         | None \<Rightarrow> p))"

definition net_install :: "patches \<Rightarrow> patches" where
  "net_install p0 =
     (let p = install_threading p0 in
      if pt_installed p then p
      else
        (let p = fold patch_method METHODS p;
             p = (if original_getaddrinfo p = None
                  then p\<lparr>original_getaddrinfo := Some (getaddrinfo p), getaddrinfo := Patch ''getaddrinfo''\<rparr>
                  else p)
         in p\<lparr>pt_installed := True\<rparr>))"

text \<open>
  \<open>Thread.start\<close> and \<open>ThreadPoolExecutor.submit\<close> run their target in a copy of the
  caller's context, which the caller keeps.
\<close>

definition run_in_copied_context :: "('f, 's, 'r) code \<Rightarrow> ('f, 's, 'r) code" where
  "run_in_copied_context body c s = (case body c s of (r, _, s') \<Rightarrow> (r, c, s'))"

section \<open>Lemmas\<close>

named_theorems scope_simps "unfolding of context scopes"

lemmas [scope_simps] = with_network_def deny_network_scope_def allow_network_scope_def
  suspend_scope_def wrap_privileged_def Let_def

lemma patch_method_other:
  "m \<noteq> n \<Longrightarrow> dget (sock_methods (patch_method n p)) m = dget (sock_methods p) m"
  "m \<noteq> n \<Longrightarrow> dget (originals (patch_method n p)) m = dget (originals p) m"
  by (auto simp: patch_method_def split: option.splits)

lemma fold_patch_method:
  assumes "distinct ns"
  shows "dget (sock_methods (fold patch_method ns p)) m
       = dget (sock_methods (if m \<in> set ns then patch_method m p else p)) m"
    and "dget (originals (fold patch_method ns p)) m
       = dget (originals (if m \<in> set ns then patch_method m p else p)) m"
proof -
  have other: "dget (sock_methods (fold patch_method xs q)) m = dget (sock_methods q) m"
    "dget (originals (fold patch_method xs q)) m = dget (originals q) m"
    if "m \<notin> set xs" for xs q
    using that by (induction xs arbitrary: q) (auto simp: patch_method_other)
  have "dget (sock_methods (fold patch_method ns p)) m
       = dget (sock_methods (if m \<in> set ns then patch_method m p else p)) m
    \<and> dget (originals (fold patch_method ns p)) m
       = dget (originals (if m \<in> set ns then patch_method m p else p)) m"
    using assms
  proof (induction ns arbitrary: p)
    case (Cons n ns)
    show ?case
    proof (cases "m = n")
      case True
      with Cons.prems other [of ns] show ?thesis by auto
    next
      case False
      with Cons.prems Cons.IH [of "patch_method n p"] show ?thesis
        by (auto simp: patch_method_other patch_method_def dmem_iff split: option.splits)
    qed
  qed simp
  then show "dget (sock_methods (fold patch_method ns p)) m
       = dget (sock_methods (if m \<in> set ns then patch_method m p else p)) m"
    "dget (originals (fold patch_method ns p)) m
       = dget (originals (if m \<in> set ns then patch_method m p else p)) m" by blast+
qed

lemma METHODS_distinct: "distinct METHODS"
  by (simp add: METHODS_def)

lemma patches_fold_rest:
  "getaddrinfo (fold patch_method ns p) = getaddrinfo p"
  "original_getaddrinfo (fold patch_method ns p) = original_getaddrinfo p"
  "pt_installed (fold patch_method ns p) = pt_installed p"
  "thread_start (fold patch_method ns p) = thread_start p"
  "executor_submit (fold patch_method ns p) = executor_submit p"
  "original_thread_start (fold patch_method ns p) = original_thread_start p"
  "original_executor_submit (fold patch_method ns p) = original_executor_submit p"
  by (induction ns arbitrary: p) (auto simp: patch_method_def split: option.splits)

text \<open>The state before any installation: the interpreter's own methods.\<close>

definition fresh_patches :: "string list \<Rightarrow> patches" where
  "fresh_patches names =
     \<lparr>sock_methods = map (\<lambda>n. (n, Own n)) names, getaddrinfo = Own ''getaddrinfo'',
      originals = [], original_getaddrinfo = None, pt_installed = False,
      thread_start = Own ''start'', executor_submit = Own ''submit'',
      original_thread_start = None, original_executor_submit = None\<rparr>"

lemma install_threading_rest [simp]:
  "sock_methods (install_threading p) = sock_methods p"
  "originals (install_threading p) = originals p"
  "getaddrinfo (install_threading p) = getaddrinfo p"
  "original_getaddrinfo (install_threading p) = original_getaddrinfo p"
  "pt_installed (install_threading p) = pt_installed p"
  by (simp_all add: install_threading_def Let_def)

lemma install_threading_again:
  "original_thread_start p \<noteq> None \<Longrightarrow> original_executor_submit p \<noteq> None \<Longrightarrow> install_threading p = p"
  by (auto simp: install_threading_def)

lemma install_threading_saved:
  "original_thread_start (install_threading p) \<noteq> None"
  "original_executor_submit (install_threading p) \<noteq> None"
  by (simp_all add: install_threading_def Let_def)

lemma fresh_lookup: "dget (sock_methods (fresh_patches names)) n = (if n \<in> set names then Some (Own n) else None)"
  by (simp add: fresh_patches_def) (induction names; simp)

lemma net_install_again: "net_install (net_install p) = net_install p"
proof -
  have "pt_installed (net_install p)" by (simp add: net_install_def Let_def)
  moreover have "install_threading (net_install p) = net_install p"
    using install_threading_saved [of p]
    by (intro install_threading_again) (auto simp: net_install_def Let_def patches_fold_rest)
  ultimately show ?thesis by (subst net_install_def) (simp add: Let_def)
qed

lemma denied_blocks:
  "gated_op operation sock original c s =
     (if (case sock of None \<Rightarrow> True | Some (Inl _) \<Rightarrow> True | Some (Inr f) \<Rightarrow> f = AF_INET \<or> f = AF_INET6)
         \<and> \<not> network_allowed c
      then (Inl (Exc StError (''Network access denied: '' @ operation @ ''() blocked by sandbox. '' @
              ''Register with network_access=True to allow.'')), c, s)
      else original c s)"
  by (auto simp: gated_op_def check_network_def is_network_socket_def NETWORK_FAMILIES_def
      split: option.splits sum.splits)

section \<open>Properties\<close>

text \<open>
  With the network denied, every patched operation on an Internet socket, on one
  whose family cannot be read, or on none, raises \<open>StError\<close> and the original is
  not called; local sockets are untouched.
\<close>

theorem denied_network_blocks:
  "gated_op operation sock original c s =
     (if (case sock of None \<Rightarrow> True | Some (Inl _) \<Rightarrow> True | Some (Inr f) \<Rightarrow> f = AF_INET \<or> f = AF_INET6)
         \<and> \<not> network_allowed c
      then (Inl (Exc StError (''Network access denied: '' @ operation @ ''() blocked by sandbox. '' @
              ''Register with network_access=True to allow.'')), c, s)
      else original c s)"
  by (rule denied_blocks)

text \<open>
  A grant lasts for one call: a function wrapped with network access runs with
  the network allowed whatever the caller's context, one wrapped without it runs
  with the caller's permission, and afterwards, whether it returned or raised and
  whatever it did to the context when network was granted, the caller's permission is back.
\<close>

theorem grant_lasts_one_call:
  "\<exists>c1. (network_allowed c1 = (net \<or> network_allowed c) \<and> current_clock c1 = current_clock c
         \<and> current_fs c1 = (if fs then susp_enter sp (current_fs c) else current_fs c))
       \<and> (case fn c1 s of (r, c2, s2) \<Rightarrow>
           \<exists>c'. wrap_privileged sp net fs fn c s = (r, c', s2)
              \<and> network_allowed c' = (if net then network_allowed c else network_allowed c2)
              \<and> current_fs c' = (if fs then susp_exit sp (current_fs c) (current_fs c2) else current_fs c2))"
proof -
  let ?c = "c\<lparr>network_allowed := net \<or> network_allowed c,
              current_fs := (if fs then susp_enter sp (current_fs c) else current_fs c)\<rparr>"
  have "c\<lparr>network_allowed := network_allowed c\<rparr> = c" "\<And>b. c\<lparr>network_allowed := b, current_fs := current_fs c\<rparr> = c\<lparr>network_allowed := b\<rparr>"
    by simp_all
  then show ?thesis
    by (intro exI [of _ ?c]) (cases net; cases fs; auto simp: scope_simps split: prod.splits)
qed

text \<open>
  Installing the patches, any number of times, replaces exactly the listed
  methods, \<open>getaddrinfo\<close> and the two threading entry points, and the saved originals are the interpreter's own:
  no patch ever calls itself.
\<close>

theorem net_install_once:
  "dget (sock_methods ((net_install ^^ Suc n) (fresh_patches names))) m
     = (if m \<in> set names then Some (if m \<in> set METHODS then Patch m else Own m) else None)
   \<and> dget (originals ((net_install ^^ Suc n) (fresh_patches names))) m
     = (if m \<in> set names \<and> m \<in> set METHODS then Some (Own m) else None)
   \<and> original_getaddrinfo ((net_install ^^ Suc n) (fresh_patches names)) = Some (Own ''getaddrinfo'')
   \<and> original_thread_start ((net_install ^^ Suc n) (fresh_patches names)) = Some (Own ''start'')
   \<and> original_executor_submit ((net_install ^^ Suc n) (fresh_patches names)) = Some (Own ''submit'')"
proof -
  have "(net_install ^^ Suc n) p = net_install p" for p
    by (induction n) (simp_all add: net_install_again)
  moreover have "dmem m (originals (fresh_patches names)) = False"
    by (simp add: fresh_patches_def dmem_def)
  moreover have
    "original_thread_start (install_threading (fresh_patches names)) = Some (Own ''start'')"
    "original_executor_submit (install_threading (fresh_patches names)) = Some (Own ''submit'')"
    "original_getaddrinfo (fresh_patches names) = None" "getaddrinfo (fresh_patches names) = Own ''getaddrinfo''"
    "\<not> pt_installed (fresh_patches names)" "originals (fresh_patches names) = []"
    by (simp_all add: install_threading_def fresh_patches_def)
  ultimately show ?thesis
    by (simp add: net_install_def Let_def fold_patch_method [OF METHODS_distinct] patches_fold_rest
        fresh_lookup patch_method_def)
qed

text \<open>
  The list of patched methods leaves \<open>sendmsg\<close> and \<open>recvmsg\<close> alone: after the
  installation they are still the interpreter's own.
\<close>

theorem sendmsg_not_patched:
  "dget (sock_methods (net_install (fresh_patches [''connect'', ''sendmsg'', ''recvmsg'']))) ''sendmsg''
     = Some (Own ''sendmsg'')"
  by code_simp

end
