(* ===== verification/Clock.thy ===== *)
theory Clock
  imports Prelude
begin

text \<open>
  Host time (\<open>sandtrap/clock.py\<close>): an execution's clock, paused while any host
  call is outstanding. The state is the start of the execution, the number of
  calls outstanding and when the first of them entered; the observer's
  notifications are kept as a list. Times are the readings of
  \<open>time.monotonic\<close> at each call.
\<close>

record host_clock =
  hc_start :: "real option"
  hc_depth :: int
  hc_entered :: real
  hc_observed :: "bool list"

definition HostClock :: "real option \<Rightarrow> host_clock" where
  "HostClock start = \<lparr>hc_start = start, hc_depth = 0, hc_entered = 0, hc_observed = []\<rparr>"

definition clock_paused :: "host_clock \<Rightarrow> bool" where
  "clock_paused c = (hc_depth c > 0)"

definition clock_enter :: "real \<Rightarrow> host_clock \<Rightarrow> host_clock" where
  "clock_enter now c =
     (let c1 = (if hc_depth c = 0
                then c\<lparr>hc_entered := now, hc_observed := hc_observed c @ [True]\<rparr> else c)
      in c1\<lparr>hc_depth := hc_depth c1 + 1\<rparr>)"

definition clock_exit :: "real \<Rightarrow> host_clock \<Rightarrow> host_clock" where
  "clock_exit now c =
     (let c1 = c\<lparr>hc_depth := hc_depth c - 1\<rparr> in
      if hc_depth c1 = 0
      then c1\<lparr>hc_start := map_option (\<lambda>s. s + (now - hc_entered c1)) (hc_start c1),
              hc_observed := hc_observed c1 @ [False]\<rparr>
      else c1)"

definition clock_remaining :: "real \<Rightarrow> real \<Rightarrow> host_clock \<Rightarrow> real option" where
  "clock_remaining timeout now c =
     (if clock_paused c then None else map_option (\<lambda>s. s + timeout - now) (hc_start c))"

section \<open>Sequences of host calls\<close>

datatype clock_event = EnterAt real | ExitAt real

fun clock_step :: "clock_event \<Rightarrow> host_clock \<Rightarrow> host_clock" where
  "clock_step (EnterAt t) c = clock_enter t c"
| "clock_step (ExitAt t) c = clock_exit t c"

fun event_time :: "clock_event \<Rightarrow> real" where
  "event_time (EnterAt t) = t"
| "event_time (ExitAt t) = t"

fun event_depth :: "clock_event \<Rightarrow> int" where
  "event_depth (EnterAt t) = 1"
| "event_depth (ExitAt t) = - 1"

text \<open>Every exit has an enter before it, and the calls are over at the end.\<close>

fun balanced_from :: "int \<Rightarrow> clock_event list \<Rightarrow> bool" where
  "balanced_from d [] = (d = 0)"
| "balanced_from d (e # es) = (0 \<le> d + event_depth e \<and> balanced_from (d + event_depth e) es)"

text \<open>
  The time during which at least one call was outstanding, each moment counted
  once: the stretches between consecutive events at which the depth was positive.
\<close>

fun paused_time :: "int \<Rightarrow> real \<Rightarrow> clock_event list \<Rightarrow> real" where
  "paused_time d t0 [] = 0"
| "paused_time d t0 (e # es) =
     (if d > 0 then event_time e - t0 else 0) + paused_time (d + event_depth e) (event_time e) es"

fun pause_notices :: "int \<Rightarrow> clock_event list \<Rightarrow> bool list" where
  "pause_notices d [] = []"
| "pause_notices d (e # es) =
     (if d = 0 then [True] else if d + event_depth e = 0 then [False] else [])
     @ pause_notices (d + event_depth e) es"

lemma clock_run:
  assumes "balanced_from (hc_depth c) es" "0 \<le> hc_depth c" "hc_start c = Some s"
  shows "hc_start (fold clock_step es c)
     = Some (s + (if hc_depth c > 0 then t0 - hc_entered c else 0) + paused_time (hc_depth c) t0 es)
     \<and> hc_observed (fold clock_step es c) = hc_observed c @ pause_notices (hc_depth c) es
     \<and> hc_depth (fold clock_step es c) = 0"
  using assms
proof (induction es arbitrary: c s t0)
  case (Cons e es)
  show ?case
  proof (cases e)
    case (EnterAt t)
    define c1 where "c1 = clock_enter t c"
    have d: "hc_depth c1 = hc_depth c + 1" "hc_start c1 = Some s" "0 < hc_depth c1"
      using Cons.prems by (auto simp: c1_def clock_enter_def Let_def)
    have "balanced_from (hc_depth c1) es" using Cons.prems EnterAt d by simp
    from Cons.IH [OF this _ d(2), of t] d show ?thesis
      using Cons.prems EnterAt by (auto simp: c1_def clock_enter_def Let_def split: if_splits)
  next
    case (ExitAt t)
    define c1 where "c1 = clock_exit t c"
    have pos: "0 < hc_depth c" using Cons.prems ExitAt by simp
    have d: "hc_depth c1 = hc_depth c - 1" by (auto simp: c1_def clock_exit_def Let_def)
    have s: "hc_start c1 = Some (if hc_depth c = 1 then s + (t - hc_entered c) else s)"
      using Cons.prems by (auto simp: c1_def clock_exit_def Let_def)
    have "balanced_from (hc_depth c1) es" "0 \<le> hc_depth c1" using Cons.prems ExitAt d pos by auto
    from Cons.IH [OF this s, of t] d pos show ?thesis
      using Cons.prems ExitAt by (auto simp: c1_def clock_exit_def Let_def split: if_splits)
  qed
qed simp

lemma clock_depth_exact: "hc_depth (fold clock_step es c) = hc_depth c + sum_list (map event_depth es)"
proof (induction es arbitrary: c)
  case (Cons e es)
  then show ?case
    by (cases e) (auto simp: clock_enter_def clock_exit_def Let_def)
qed simp

section \<open>Host calls\<close>

text \<open>
  \<open>host_time()\<close> around a call: outside an execution there is no clock. The call is
  what happens on the clock between entering and leaving.
\<close>

definition host_time :: "real \<Rightarrow> real \<Rightarrow> (host_clock \<Rightarrow> host_clock) \<Rightarrow> host_clock option \<Rightarrow> host_clock option" where
  "host_time t_in t_out body clock =
     (case clock of
        None \<Rightarrow> None
      | Some c \<Rightarrow> Some (clock_exit t_out (body (clock_enter t_in c))))"

text \<open>
  \<open>wrap_host_time\<close>: every call of the wrapped function, or every await of a coroutine
  function, is host time, whether it returns or raises.
\<close>

definition wrap_host_time ::
  "real \<Rightarrow> real \<Rightarrow> (host_clock option \<Rightarrow> 'r res \<times> host_clock option) \<Rightarrow> host_clock option \<Rightarrow>
   'r res \<times> host_clock option" where
  "wrap_host_time t_in t_out fn clock =
     (case fn (map_option (clock_enter t_in) clock) of
        (r, clock') \<Rightarrow> (r, map_option (clock_exit t_out) clock'))"

text \<open>A host call costs the code nothing: as much time is left after it as before, and its outcome is the function's.\<close>

lemma wrapped_call_is_free:
  assumes "hc_depth c = 0" "\<And>k. fn k = (r, k)"
  shows "\<exists>c'. wrap_host_time t_in t_out fn (Some c) = (r, Some c')
    \<and> clock_remaining timeout t_out c' = clock_remaining timeout t_in c"
  using assms
  by (cases "hc_start c")
    (auto simp: wrap_host_time_def clock_enter_def clock_exit_def clock_remaining_def clock_paused_def Let_def)

section \<open>Properties\<close>

text \<open>
  After any sequence of host calls, nested or overlapping in any way, the
  start has moved forward by exactly the time during which at least one was
  outstanding, so the time left is the timeout less the time spent outside host
  calls; and the observer was told of each pause and resumption, in turn.
\<close>

theorem host_time_refund:
  assumes "balanced_from 0 es"
  shows "clock_remaining timeout now (fold clock_step es (HostClock (Some s)))
     = Some (timeout - (now - s - paused_time 0 s es))
   \<and> hc_observed (fold clock_step es (HostClock (Some s))) = pause_notices 0 es"
  using clock_run [of "HostClock (Some s)" es s s] assms
  by (simp add: HostClock_def clock_remaining_def clock_paused_def)

theorem host_time_refund_witness:
  "clock_remaining 10 9 (fold clock_step [EnterAt 1, EnterAt 2, ExitAt 3, ExitAt 5] (HostClock (Some 0)))
     = Some (10 - (9 - 0 - paused_time 0 0 [EnterAt 1, EnterAt 2, ExitAt 3, ExitAt 5]))
   \<and> hc_observed (fold clock_step [EnterAt 1, EnterAt 2, ExitAt 3, ExitAt 5] (HostClock (Some 0)))
     = pause_notices 0 [EnterAt 1, EnterAt 2, ExitAt 3, ExitAt 5]"
  by (rule host_time_refund) simp

end
