(* ===== verification/Checkpoint.thy ===== *)
theory Checkpoint
  imports Net Clock
begin

text \<open>
  Checkpoints and callbacks (\<open>gates.py\<close>): the cancel flag, the boxes that the
  gates of one execution share, \<open>__st_checkpoint__\<close>, which every loop, function
  and comprehension of rewritten code calls, and \<open>__st_capture_context__\<close>, which
  keeps a callback confined when the host calls it after the execution. The
  readings of \<open>time.monotonic\<close> and of the resident set size are arguments.
\<close>

section \<open>The state shared by the gates of one execution\<close>

record cancel_flag =
  cf_set :: bool

definition CancelFlag :: cancel_flag where
  "CancelFlag = \<lparr>cf_set = False\<rparr>"

definition cf_do_set :: "cancel_flag \<Rightarrow> cancel_flag" where
  "cf_do_set f = f\<lparr>cf_set := True\<rparr>"

definition cf_clear :: "cancel_flag \<Rightarrow> cancel_flag" where
  "cf_clear f = f\<lparr>cf_set := False\<rparr>"

text \<open>The start box is the one inside the host clock.\<close>

record boxes =
  tick_counter :: nat
  cancel_flag_box :: "cancel_flag option"
  memory_limit_box :: "int option"
  start_rss_box :: "int option"
  in_exec_box :: bool
  callback_depth :: int
  host_clock_box :: host_clock

definition new_boxes ::
  "real option \<Rightarrow> cancel_flag option \<Rightarrow> int option \<Rightarrow> int option \<Rightarrow> boxes" where
  "new_boxes start flag mem rss =
     \<lparr>tick_counter = 0, cancel_flag_box = flag, memory_limit_box = mem, start_rss_box = rss,
      in_exec_box = True, callback_depth = 0, host_clock_box = HostClock start\<rparr>"

section \<open>The checkpoint\<close>

definition cancelled :: "boxes \<Rightarrow> bool" where
  "cancelled b = (case cancel_flag_box b of Some f \<Rightarrow> cf_set f | None \<Rightarrow> False)"

definition over_ticks :: "policy \<Rightarrow> nat \<Rightarrow> bool" where
  "over_ticks pol n = (case tick_limit pol of Some l \<Rightarrow> l < n | None \<Rightarrow> False)"

definition over_time :: "real option \<Rightarrow> real \<Rightarrow> host_clock \<Rightarrow> bool" where
  "over_time tmo now c =
     (case (hc_start c, tmo) of
        (Some s, Some t) \<Rightarrow> \<not> clock_paused c \<and> now - s > t
      | _ \<Rightarrow> False)"

definition over_memory :: "int \<Rightarrow> boxes \<Rightarrow> bool" where
  "over_memory rss b =
     (case (memory_limit_box b, start_rss_box b) of
        (Some l, Some r0) \<Rightarrow> rss - r0 > l
      | _ \<Rightarrow> False)"

definition st_checkpoint ::
  "policy \<Rightarrow> real option \<Rightarrow> real \<Rightarrow> int \<Rightarrow> boxes \<Rightarrow> unit res \<times> boxes" where
  "st_checkpoint pol tmo now rss b =
     (if cancelled b then (Inl (Exc StCancelled ''Execution cancelled''), b)
      else
        (let b = b\<lparr>tick_counter := tick_counter b + 1\<rparr> in
         if over_ticks pol (tick_counter b)
         then (Inl (Exc StTickLimit ''Execution exceeded the tick limit''), b)
         else if over_time tmo now (host_clock_box b)
         then (Inl (Exc StTimeout ''Execution exceeded the timeout''), b)
         else if over_memory rss b
         then (Inl (Exc MemoryError ''Execution exceeded the memory limit''), b)
         else (Inr (), b)))"

text \<open>
  A run of checkpoints, with the readings each of them sees and what else may
  happen between two of them: host calls move the clock, a signal sets the flag.
\<close>

datatype event = Tick real int | Clock clock_event | Cancel

fun event_step :: "policy \<Rightarrow> real option \<Rightarrow> event \<Rightarrow> boxes \<Rightarrow> unit res \<times> boxes" where
  "event_step pol tmo (Tick now rss) b = st_checkpoint pol tmo now rss b"
| "event_step pol tmo (Clock e) b = (Inr (), b\<lparr>host_clock_box := clock_step e (host_clock_box b)\<rparr>)"
| "event_step pol tmo Cancel b = (Inr (), b\<lparr>cancel_flag_box := map_option cf_do_set (cancel_flag_box b)\<rparr>)"

fun events :: "policy \<Rightarrow> real option \<Rightarrow> event list \<Rightarrow> boxes \<Rightarrow> unit res \<times> boxes" where
  "events pol tmo [] b = (Inr (), b)"
| "events pol tmo (e # es) b =
     (case event_step pol tmo e b of
        (Inl x, b') \<Rightarrow> (Inl x, b')
      | (Inr _, b') \<Rightarrow> events pol tmo es b')"

definition ticks :: "event list \<Rightarrow> nat" where
  "ticks es = length (filter (\<lambda>e. case e of Tick _ _ \<Rightarrow> True | _ \<Rightarrow> False) es)"

section \<open>Callbacks\<close>

text \<open>
  A callback of sandboxed code. \<open>now\<close> is the reading when it is called; the clock
  of this execution has the identity \<open>clk\<close>. \<open>None\<close> of \<open>captured\<close> stands for the
  function left unwrapped.
\<close>

record 'f captured =
  captured_fs :: "'f option"
  captured_net :: bool

definition st_capture_context :: "'f ctx \<Rightarrow> 'f captured option" where
  "st_capture_context c =
     (if current_fs c = None \<and> network_allowed c then None
      else Some \<lparr>captured_fs = current_fs c, captured_net = network_allowed c\<rparr>)"

definition enter_callback :: "real \<Rightarrow> boxes \<Rightarrow> boxes" where
  "enter_callback now b =
     (let b = (if \<not> in_exec_box b \<and> callback_depth b = 0
               then b\<lparr>tick_counter := 0,
                      host_clock_box := (host_clock_box b)\<lparr>hc_start := Some now\<rparr>\<rparr>
               else b)
      in b\<lparr>callback_depth := callback_depth b + 1\<rparr>)"

definition call_captured ::
  "nat \<Rightarrow> real \<Rightarrow> 'f captured option \<Rightarrow> ('f, boxes, 'r) code \<Rightarrow> ('f, boxes, 'r) code" where
  "call_captured clk now cap fn c b =
     (case cap of
        None \<Rightarrow> fn c b
      | Some k \<Rightarrow>
          (let c1 = (case captured_fs k of Some f \<Rightarrow> c\<lparr>current_fs := Some f\<rparr> | None \<Rightarrow> c);
               c1 = c1\<lparr>network_allowed := captured_net k, current_clock := Some clk\<rparr>
           in case fn c1 (enter_callback now b) of
                (r, c2, b2) \<Rightarrow>
                  (let c3 = c2\<lparr>current_clock := current_clock c, network_allowed := network_allowed c\<rparr>;
                       c3 = (if captured_fs k \<noteq> None then c3\<lparr>current_fs := current_fs c\<rparr> else c3)
                   in (r, c3, b2\<lparr>callback_depth := callback_depth b2 - 1\<rparr>))))"

section \<open>Lemmas\<close>

lemma st_checkpoint_ok:
  assumes "st_checkpoint pol tmo now rss b = (Inr u, b')"
  shows "b' = b\<lparr>tick_counter := tick_counter b + 1\<rparr>" "\<not> cancelled b"
    "\<not> over_ticks pol (tick_counter b + 1)" "\<not> over_time tmo now (host_clock_box b)"
    "\<not> over_memory rss b'"
  using assms by (auto simp: st_checkpoint_def Let_def split: if_splits)

fun clock_events :: "event list \<Rightarrow> clock_event list" where
  "clock_events [] = []"
| "clock_events (Clock e # es) = e # clock_events es"
| "clock_events (_ # es) = clock_events es"

lemma events_append:
  "events pol tmo (es @ fs) b =
     (case events pol tmo es b of (Inl x, b') \<Rightarrow> (Inl x, b') | (Inr _, b') \<Rightarrow> events pol tmo fs b')"
  by (induction pol tmo es b rule: events.induct) (auto split: prod.splits sum.splits)

lemma ticks_simps [simp]:
  "ticks [] = 0" "ticks (Tick n r # es) = Suc (ticks es)" "ticks (Clock e # es) = ticks es"
  "ticks (Cancel # es) = ticks es"
  by (simp_all add: ticks_def)

text \<open>What a run of events that raised nothing has done to the boxes.\<close>

lemma events_ok:
  assumes "events pol tmo es b = (Inr u, b')"
  shows "tick_counter b' = tick_counter b + ticks es
    \<and> host_clock_box b' = fold clock_step (clock_events es) (host_clock_box b)
    \<and> (cancelled b \<longrightarrow> ticks es = 0 \<and> cancelled b')
    \<and> (ticks es > 0 \<longrightarrow> \<not> over_ticks pol (tick_counter b'))"
  using assms
proof (induction pol tmo es b rule: events.induct)
  case (2 pol tmo e es b)
  then obtain u1 b1 where b1: "event_step pol tmo e b = (Inr u1, b1)" "events pol tmo es b1 = (Inr u, b')"
    by (auto split: prod.splits sum.splits)
  note IH = "2.IH" [OF b1(1) [symmetric] refl b1(2)]
  show ?case
  proof (cases e)
    case (Tick now rss)
    with b1 IH st_checkpoint_ok [of pol tmo now rss b u1 b1] show ?thesis
      by (cases "ticks es") (auto simp: cancelled_def)
  next
    case (Clock ce)
    with b1 IH show ?thesis by (auto simp: cancelled_def)
  next
    case Cancel
    with b1 IH show ?thesis
      by (auto simp: cancelled_def cf_do_set_def split: option.splits)
  qed
qed simp

lemma cancel_step_cancelled:
  "cancel_flag_box b \<noteq> None \<Longrightarrow> event_step pol tmo Cancel b = (r, b') \<Longrightarrow> cancelled b'"
  by (auto simp: cancelled_def cf_do_set_def)

lemma events_keep_flag:
  assumes "events pol tmo es b = (Inr u, b')"
  shows "cancel_flag_box b' = None \<longleftrightarrow> cancel_flag_box b = None"
  using assms
proof (induction pol tmo es b rule: events.induct)
  case (2 pol tmo e es b)
  then obtain u1 b1 where b1: "event_step pol tmo e b = (Inr u1, b1)" "events pol tmo es b1 = (Inr u, b')"
    by (auto split: prod.splits sum.splits)
  have "cancel_flag_box b1 = None \<longleftrightarrow> cancel_flag_box b = None"
    using b1(1) st_checkpoint_ok(1) by (cases e) (auto, fastforce+)
  with "2.IH" [OF b1(1) [symmetric] refl b1(2)] show ?case by simp
qed simp

section \<open>Properties\<close>

text \<open>
  C23: Under a tick limit an execution passes at most that many checkpoints, whatever
  the clock does and however long host calls pause it: the next one raises \<open>StTickLimit\<close>.
\<close>

theorem tick_limit_enforced:
  assumes "tick_limit pol = Some l"
    and "events pol tmo es (new_boxes start flag mem rss) = (Inr u, b)"
  shows "ticks es \<le> l
    \<and> (ticks es = l \<and> \<not> cancelled b \<longrightarrow>
        fst (st_checkpoint pol tmo now r b) = Inl (Exc StTickLimit ''Execution exceeded the tick limit''))"
  using events_ok [OF assms(2)] assms(1)
  by (cases "ticks es") (auto simp: over_ticks_def new_boxes_def st_checkpoint_def Let_def)

theorem tick_limit_witness:
  "events (empty_policy\<lparr>tick_limit := Some 2\<rparr>) None [Tick 0 0, Cancel, Tick 9 0] (new_boxes None None None None)
     = (Inr (), (new_boxes None None None None)\<lparr>tick_counter := 2\<rparr>)
   \<and> fst (st_checkpoint (empty_policy\<lparr>tick_limit := Some 2\<rparr>) None 10 0
           ((new_boxes None None None None)\<lparr>tick_counter := 2\<rparr>))
     = Inl (Exc StTickLimit ''Execution exceeded the tick limit'')"
proof -
  have run: "events (empty_policy\<lparr>tick_limit := Some 2\<rparr>) None [Tick 0 0, Cancel, Tick 9 0]
      (new_boxes None None None None) = (Inr (), (new_boxes None None None None)\<lparr>tick_counter := 2\<rparr>)"
    by (simp add: new_boxes_def st_checkpoint_def cancelled_def over_ticks_def over_time_def
        over_memory_def HostClock_def)
  from tick_limit_enforced [OF _ run, of 2 10 0] run show ?thesis
    by (simp add: new_boxes_def cancelled_def)
qed


lemmas checkpoint_eval = new_boxes_def st_checkpoint_def cancelled_def over_ticks_def over_time_def
  over_memory_def HostClock_def clock_enter_def clock_exit_def clock_paused_def


text \<open>
  A cancellation takes effect at the next checkpoint: after the flag is set no
  checkpoint passes.
\<close>

theorem cancel_stops:
  assumes "events pol tmo (es @ Cancel # fs) (new_boxes start (Some f) mem rss) = (Inr u, b)"
  shows "ticks fs = 0"
proof -
  obtain u1 b1 where b1: "events pol tmo es (new_boxes start (Some f) mem rss) = (Inr u1, b1)"
    and rest: "events pol tmo (Cancel # fs) b1 = (Inr u, b)"
    using assms by (auto simp: events_append split: prod.splits sum.splits)
  have "cancel_flag_box b1 \<noteq> None" using events_keep_flag [OF b1] by (simp add: new_boxes_def)
  then have "cancelled (snd (event_step pol tmo Cancel b1))"
    using cancel_step_cancelled by (metis prod.collapse)
  with rest events_ok show ?thesis by (auto split: prod.splits sum.splits)
qed

text \<open>
  C22: A callback that the host calls later runs confined as when it was defined: with
  the file system and network permission captured then, on the clock of its
  execution, with a fresh budget when no other callback of the finished
  execution is running; afterwards the host's own context is back, also when it
  raised. Only a function defined without any restriction is left unwrapped.
\<close>

theorem callback_confined:
  assumes "st_capture_context c0 = cap" and "call_captured clk now cap fn c b = (r, c', b')"
  shows "case cap of
      None \<Rightarrow> current_fs c0 = None \<and> network_allowed c0
    | Some k \<Rightarrow>
        \<exists>c1 b1 c2 b2. fn c1 b1 = (r, c2, b2)
        \<and> network_allowed c1 = network_allowed c0 \<and> current_clock c1 = Some clk
        \<and> (current_fs c0 \<noteq> None \<longrightarrow> current_fs c1 = current_fs c0 \<and> current_fs c' = current_fs c)
        \<and> network_allowed c' = network_allowed c \<and> current_clock c' = current_clock c
        \<and> callback_depth b1 = callback_depth b + 1 \<and> callback_depth b' = callback_depth b2 - 1
        \<and> tick_counter b1 = (if \<not> in_exec_box b \<and> callback_depth b = 0 then 0 else tick_counter b)
        \<and> (\<not> in_exec_box b \<and> callback_depth b = 0 \<longrightarrow> hc_start (host_clock_box b1) = Some now)"
proof (cases cap)
  case None
  with assms show ?thesis by (auto simp: st_capture_context_def split: if_splits)
next
  case (Some k)
  let ?c1 = "(case captured_fs k of Some f \<Rightarrow> c\<lparr>current_fs := Some f\<rparr> | None \<Rightarrow> c)
      \<lparr>network_allowed := captured_net k, current_clock := Some clk\<rparr>"
  obtain r2 c2 b2 where fn: "fn ?c1 (enter_callback now b) = (r2, c2, b2)" by (metis prod_cases3)
  have k: "captured_fs k = current_fs c0" "captured_net k = network_allowed c0"
    using Some assms(1) by (auto simp: st_capture_context_def split: if_splits)
  have c': "c' = (if captured_fs k \<noteq> None
      then c2\<lparr>current_clock := current_clock c, network_allowed := network_allowed c, current_fs := current_fs c\<rparr>
      else c2\<lparr>current_clock := current_clock c, network_allowed := network_allowed c\<rparr>)"
    and b': "b' = b2\<lparr>callback_depth := callback_depth b2 - 1\<rparr>" and r: "r2 = r"
    using Some assms(2) fn by (auto simp: call_captured_def Let_def)
  have c1: "network_allowed ?c1 = network_allowed c0" "current_clock ?c1 = Some clk"
    "current_fs c0 \<noteq> None \<Longrightarrow> current_fs ?c1 = current_fs c0"
    using k by (auto split: option.splits)
  show ?thesis
    unfolding Some option.case
    by (rule exI [of _ ?c1], rule exI [of _ "enter_callback now b"], rule exI [of _ c2], rule exI [of _ b2])
      (use fn r c1 c' b' k in \<open>auto simp: enter_callback_def Let_def\<close>)
qed

theorem cancel_stops_witness:
  "ticks [Clock (EnterAt 1)] = 0 \<and>
   fst (events empty_policy None [Tick 0 0, Cancel, Tick 1 0] (new_boxes None (Some CancelFlag) None None))
     = Inl (Exc StCancelled ''Execution cancelled'')"
proof
  have "\<exists>b. events empty_policy None ([Tick 0 0] @ Cancel # [Clock (EnterAt 1)])
      (new_boxes None (Some CancelFlag) None None) = (Inr (), b)"
    by (simp add: checkpoint_eval empty_policy_def CancelFlag_def)
  then show "ticks [Clock (EnterAt 1)] = 0" using cancel_stops by blast
qed (simp add: checkpoint_eval empty_policy_def CancelFlag_def cf_do_set_def)

text \<open>A callback that opens a socket, captured with the network denied and called by a host that has it.\<close>

definition ex_ctx :: "bool \<Rightarrow> nat ctx" where
  "ex_ctx b = \<lparr>current_fs = None, network_allowed = b, current_clock = None\<rparr>"

definition ex_callback :: "(nat, boxes, unit) code" where
  "ex_callback = gated_op ''connect'' (Some (Inr AF_INET)) (\<lambda>c b. (Inr (), c, b))"

theorem callback_confined_witness:
  "\<exists>e c' b'. call_captured 1 5 (st_capture_context (ex_ctx False)) ex_callback (ex_ctx True)
       (new_boxes None None None None) = (Inl e, c', b') \<and> network_allowed c'"
proof -
  let ?cap = "\<lparr>captured_fs = None, captured_net = False\<rparr> :: nat captured"
  have cap: "st_capture_context (ex_ctx False) = Some ?cap"
    by (simp add: st_capture_context_def ex_ctx_def)
  have run: "\<exists>e c' b'. call_captured 1 5 (Some ?cap) ex_callback (ex_ctx True)
       (new_boxes None None None None) = (Inl e, c', b')"
    by (simp add: call_captured_def ex_callback_def denied_blocks Let_def)
  then obtain e c' b' where "call_captured 1 5 (Some ?cap) ex_callback (ex_ctx True)
       (new_boxes None None None None) = (Inl e, c', b')" by blast
  with callback_confined [OF cap this] show ?thesis
    unfolding cap by (auto simp: ex_ctx_def)
qed

end
