(* ===== verification/Builtins.thy ===== *)
theory Builtins
  imports AttrGate Buffers Checkpoint "HOL-Library.List_Lexorder" "HOL-Library.Char_ord"
begin

text \<open>
  What sandboxed code finds as builtins and streams (\<open>sandtrap/builtins.py\<close>): the
  safe builtins and their checkpoints, the frozen dictionary that holds them, the
  gated types of classes that may not be constructed, the synthetic \<open>sys\<close>, the
  routing of \<open>print\<close>, \<open>sys.stdout\<close> and \<open>sys.stderr\<close>, and what \<open>locals\<close> and \<open>dir\<close>
  show. What the host's own builtins are is an argument.
\<close>

section \<open>The table of safe builtins\<close>

definition SAFE_FN_NAMES :: "string list" where
  "SAFE_FN_NAMES =
     [''abs'', ''all'', ''any'', ''ascii'', ''bin'', ''bool'', ''bytearray'', ''bytes'', ''callable'',
      ''chr'', ''complex'', ''dict'', ''divmod'', ''enumerate'', ''filter'', ''float'', ''format'',
      ''frozenset'', ''hash'', ''hex'', ''id'', ''int'', ''isinstance'', ''issubclass'', ''iter'', ''len'',
      ''list'', ''map'', ''max'', ''min'', ''next'', ''object'', ''oct'', ''ord'', ''pow'', ''property'',
      ''range'', ''repr'', ''reversed'', ''round'', ''set'', ''slice'', ''sorted'', ''staticmethod'',
      ''classmethod'', ''str'', ''sum'', ''super'', ''tuple'', ''type'', ''zip'']"

definition SAFE_EXCEPTIONS :: "string list" where
  "SAFE_EXCEPTIONS =
     [''ArithmeticError'', ''AssertionError'', ''AttributeError'', ''BlockingIOError'', ''BrokenPipeError'',
      ''BufferError'', ''BytesWarning'', ''ChildProcessError'', ''ConnectionAbortedError'',
      ''ConnectionError'', ''ConnectionRefusedError'', ''ConnectionResetError'', ''DeprecationWarning'',
      ''EOFError'', ''Exception'', ''FileExistsError'', ''FileNotFoundError'', ''FloatingPointError'',
      ''FutureWarning'', ''IOError'', ''ImportError'', ''IndentationError'', ''IndexError'',
      ''InterruptedError'', ''IsADirectoryError'', ''KeyError'', ''LookupError'', ''MemoryError'',
      ''ModuleNotFoundError'', ''NameError'', ''NotADirectoryError'', ''NotImplementedError'', ''OSError'',
      ''OverflowError'', ''PendingDeprecationWarning'', ''PermissionError'', ''ProcessLookupError'',
      ''RecursionError'', ''ReferenceError'', ''ResourceWarning'', ''RuntimeError'', ''RuntimeWarning'',
      ''StopAsyncIteration'', ''StopIteration'', ''SyntaxError'', ''SyntaxWarning'', ''SystemError'',
      ''TabError'', ''TimeoutError'', ''TypeError'', ''UnboundLocalError'', ''UnicodeDecodeError'',
      ''UnicodeEncodeError'', ''UnicodeError'', ''UnicodeTranslateError'', ''UnicodeWarning'',
      ''UserWarning'', ''ValueError'', ''Warning'', ''ZeroDivisionError'']"

text \<open>What a name of the host's builtins is: a type, a callable, or something else.\<close>

datatype host_kind = HostType | HostCallable | HostValue

datatype builtin =
    Real string
  | SafeType
  | Const string
  | BuildClass
  | Gated builtin
  | GatedBuildClass
  | SafeGetattr
  | SafeHasattr
  | SafeLocals
  | SafeDir
  | PrintFn
  | HelpFn
  | InputFn
  | OpenFn
  | RealImport

type_synonym host_builtins = "string \<Rightarrow> host_kind option"

text \<open>A missing function is an error when the module is loaded, a missing exception is left out.\<close>

fun real_functions :: "host_builtins \<Rightarrow> string list \<Rightarrow> (string, builtin) dict res" where
  "real_functions host [] = Inr []"
| "real_functions host (n # ns) =
     (if host n = None then Inl (Exc AttributeError n)
      else rbind (real_functions host ns) (\<lambda>d. Inr ((n, Real n) # d)))"

definition real_exceptions :: "host_builtins \<Rightarrow> (string, builtin) dict" where
  "real_exceptions host = map (\<lambda>n. (n, Real n)) (filter (\<lambda>n. host n \<noteq> None) SAFE_EXCEPTIONS)"

definition safe_constants :: "(string, builtin) dict" where
  "safe_constants =
     [(''type'', SafeType), (''True'', Const ''True''), (''False'', Const ''False''), (''None'', Const ''None''),
      (''Ellipsis'', Const ''Ellipsis''), (''NotImplemented'', Const ''NotImplemented''),
      (''__build_class__'', BuildClass)]"

definition SAFE_BUILTINS :: "host_builtins \<Rightarrow> (string, builtin) dict res" where
  "SAFE_BUILTINS host =
     rbind (real_functions host SAFE_FN_NAMES) (\<lambda>fns.
       Inr (dupdate safe_constants (dupdate (real_exceptions host) (dupdate fns []))))"

section \<open>Gating them\<close>

fun is_type_value :: "host_builtins \<Rightarrow> builtin \<Rightarrow> bool" where
  "is_type_value host (Real n) = (host n = Some HostType)"
| "is_type_value host v = False"

fun is_callable_value :: "host_builtins \<Rightarrow> builtin \<Rightarrow> bool" where
  "is_callable_value host (Real n) = (host n \<noteq> Some HostValue)"
| "is_callable_value host (Const c) = False"
| "is_callable_value host v = True"

definition gate_builtin :: "host_builtins \<Rightarrow> builtin \<Rightarrow> builtin" where
  "gate_builtin host v =
     (if is_type_value host v then v else if is_callable_value host v then Gated v else v)"

definition gate_functions :: "host_builtins \<Rightarrow> (string, builtin) dict \<Rightarrow> (string, builtin) dict" where
  "gate_functions host d =
     map (\<lambda>(n, v). (n, if n \<in> set SAFE_FN_NAMES \<and> n \<noteq> ''super'' then gate_builtin host v else v)) d"

definition make_safe_builtins :: "host_builtins \<Rightarrow> bool \<Rightarrow> (string, builtin) dict res" where
  "make_safe_builtins host has_checkpoint =
     rbind (SAFE_BUILTINS host) (\<lambda>base.
       Inr (dupdate
         [(''getattr'', SafeGetattr), (''hasattr'', SafeHasattr), (''locals'', SafeLocals), (''dir'', SafeDir)]
         (if has_checkpoint then dset ''__build_class__'' GatedBuildClass (gate_functions host base) else base)))"

text \<open>Calling a gated builtin fires one checkpoint first; \<open>call\<close> is the call of the real one.\<close>

definition call_gated :: "(boxes \<Rightarrow> unit res \<times> boxes) \<Rightarrow> (boxes \<Rightarrow> 'r res \<times> boxes) \<Rightarrow> boxes \<Rightarrow> 'r res \<times> boxes" where
  "call_gated checkpoint call b =
     (case checkpoint b of
        (Inl e, b') \<Rightarrow> (Inl e, b')
      | (Inr _, b') \<Rightarrow> call b')"

text \<open>What the namespace of an execution adds (\<open>Sandbox._build_namespace\<close>).\<close>

definition execution_builtins :: "host_builtins \<Rightarrow> bool \<Rightarrow> bool \<Rightarrow> (string, builtin) dict res" where
  "execution_builtins host has_fs has_sys =
     rbind (make_safe_builtins host True) (\<lambda>d.
       Inr (dset ''__import__'' RealImport
         (dupdate (if has_sys then [(''input'', InputFn)] else [])
           (dset ''help'' HelpFn (dset ''print'' PrintFn
             (dupdate (if has_fs then [(''open'', OpenFn)] else []) d))))))"

section \<open>The frozen dictionary\<close>

datatype 'v frozen_op =
    FGet string
  | FGetattr string
  | FSet string 'v
  | FDel string
  | FSetattr string 'v
  | FDelattr string
  | FUpdate "(string, 'v) dict"
  | FPop string
  | FPopitem
  | FClear
  | FSetdefault string 'v
  | FIor "(string, 'v) dict"

abbreviation frozen_error :: pyerr where
  "frozen_error \<equiv> Exc TypeError ''Cannot modify sandbox builtins''"

fun frozen_step :: "'v frozen_op \<Rightarrow> (string, 'v) dict \<Rightarrow> 'v option res \<times> (string, 'v) dict" where
  "frozen_step (FGet k) d = (case dget d k of Some v \<Rightarrow> (Inr (Some v), d) | None \<Rightarrow> (Inl (Exc KeyError k), d))"
| "frozen_step (FGetattr k) d =
     (case dget d k of Some v \<Rightarrow> (Inr (Some v), d) | None \<Rightarrow> (Inl (Exc AttributeError k), d))"
| "frozen_step (FSetdefault k v) d =
     (case dget d k of Some u \<Rightarrow> (Inr (Some u), d) | None \<Rightarrow> (Inl frozen_error, d))"
| "frozen_step (FSet k v) d = (Inl frozen_error, d)"
| "frozen_step (FDel k) d = (Inl frozen_error, d)"
| "frozen_step (FSetattr k v) d = (Inl frozen_error, d)"
| "frozen_step (FDelattr k) d = (Inl frozen_error, d)"
| "frozen_step (FUpdate e) d = (Inl frozen_error, d)"
| "frozen_step (FPop k) d = (Inl frozen_error, d)"
| "frozen_step FPopitem d = (Inl frozen_error, d)"
| "frozen_step FClear d = (Inl frozen_error, d)"
| "frozen_step (FIor e) d = (Inl frozen_error, d)"

text \<open>Running the constructor once more on a frozen dictionary stores into it all the same.\<close>

definition frozen_init :: "(string, 'v) dict \<Rightarrow> (string, 'v) dict \<Rightarrow> (string, 'v) dict" where
  "frozen_init e d = dupdate e d"

section \<open>Gated types\<close>

record gated_type =
  gt_real :: oid
  gt_constructable :: bool

definition gated_call ::
  "pyworld \<Rightarrow> (boxes \<Rightarrow> unit res \<times> boxes) \<Rightarrow> (oid \<Rightarrow> boxes \<Rightarrow> 'r res \<times> boxes) \<Rightarrow> gated_type \<Rightarrow> boxes \<Rightarrow>
   'r res \<times> boxes" where
  "gated_call w checkpoint mk gt b =
     (if \<not> gt_constructable gt
      then (Inl (Exc TypeError (type_name w (gt_real gt) @ '' is not constructable in the sandbox'')), b)
      else call_gated checkpoint (mk (gt_real gt)) b)"

definition gated_instancecheck :: "pyworld \<Rightarrow> gated_type \<Rightarrow> oid \<Rightarrow> bool" where
  "gated_instancecheck w gt obj = (gt_real gt \<in> set (mro w (type_of w obj)))"

text \<open>\<open>behind\<close> is the class a gated type stands for, given by its identity.\<close>

definition gated_subclasscheck :: "pyworld \<Rightarrow> (oid \<Rightarrow> oid option) \<Rightarrow> gated_type \<Rightarrow> oid \<Rightarrow> bool" where
  "gated_subclasscheck w behind gt sub =
     (gt_real gt \<in> set (mro w (case behind sub of Some r \<Rightarrow> r | None \<Rightarrow> sub)))"

text \<open>\<open>_gated_build_class\<close>: a base is replaced when the type of its type is an instance of the metaclass.\<close>

definition gated_build_class_bases :: "pyworld \<Rightarrow> oid \<Rightarrow> (oid \<Rightarrow> oid option) \<Rightarrow> oid list \<Rightarrow> oid list" where
  "gated_build_class_bases w gated_meta behind bs =
     map (\<lambda>b. if gated_meta \<in> set (mro w (type_of w (type_of w b)))
              then (case behind b of Some r \<Rightarrow> r | None \<Rightarrow> b) else b) bs"

text \<open>
  A gated type pickles as the class behind it, by its module and qualified name:
  \<open>naming\<close> is \<open>__module__\<close> and \<open>__qualname__\<close> of a class.
\<close>

definition reduce_gated :: "(oid \<Rightarrow> string \<times> string) \<Rightarrow> gated_type \<Rightarrow> string \<times> string" where
  "reduce_gated naming gt = naming (gt_real gt)"

fun getattr_chain :: "pyworld \<Rightarrow> oid \<Rightarrow> string list \<Rightarrow> oid res" where
  "getattr_chain w obj [] = Inr obj"
| "getattr_chain w obj (attr # attrs) = rbind (get_attr w obj attr) (\<lambda>v. getattr_chain w v attrs)"

definition unpickle_real_type :: "pyworld \<Rightarrow> string \<Rightarrow> string \<Rightarrow> oid res" where
  "unpickle_real_type w module_name qualname =
     rbind (import_module w module_name) (\<lambda>m. getattr_chain w m (split_on (CHR ''.'') qualname))"

section \<open>Names that stay hidden\<close>

definition is_internal_name :: "string \<Rightarrow> bool" where
  "is_internal_name n = (startswith n ''__st_'' \<or> n = ''__builtins__'' \<or> n = ''__name__'' \<or> n = ''print'')"

definition safe_locals :: "(string, 'v) dict \<Rightarrow> (string, 'v) dict" where
  "safe_locals frame = filter (\<lambda>(k, v). \<not> is_internal_name k) frame"

text \<open>\<open>listing\<close> is what the real \<open>dir\<close> gives for the argument, if there is one.\<close>

definition safe_dir :: "string list option \<Rightarrow> (string, 'v) dict \<Rightarrow> string list" where
  "safe_dir listing frame =
     (case listing of
        Some ks \<Rightarrow> filter (\<lambda>k. \<not> startswith k ''__st_'' \<and> k \<noteq> ''__builtins__'') ks
      | None \<Rightarrow> sort (filter (\<lambda>k. \<not> is_internal_name k) (map fst frame)))"

section \<open>The synthetic sys\<close>

datatype stdin_arg = StdinNone | StdinText string | StdinStream nat

datatype stdin_stream = TextStream string | GivenStream nat

datatype writer_target = ToStdout | ToStderr

record sandbox_sys =
  ss_stdin :: stdin_stream
  ss_stdout :: writer_target
  ss_stderr :: writer_target
  ss_argv :: "string list"

definition make_sandbox_sys :: "stdin_arg \<Rightarrow> string list option \<Rightarrow> bool \<Rightarrow> sandbox_sys" where
  "make_sandbox_sys stdin argv has_stderr =
     \<lparr>ss_stdin = (case stdin of
                    StdinNone \<Rightarrow> TextStream []
                  | StdinText t \<Rightarrow> TextStream t
                  | StdinStream i \<Rightarrow> GivenStream i),
      ss_stdout = ToStdout,
      ss_stderr = (if has_stderr then ToStderr else ToStdout),
      ss_argv = (case argv of Some a \<Rightarrow> a | None \<Rightarrow> [[]])\<rparr>"

section \<open>Routing output\<close>

text \<open>
  The three context variables (for \<open>print\<close>, \<open>sys.stdout\<close>, \<open>sys.stderr\<close>), each with
  a buffer per context or none, and the two streams as installed: absent, the
  original, or a router over it.
\<close>

datatype stream_var = PrintVar | StdoutVar | StderrVar

datatype sys_stream = NoStream | Original | Routed

record stdio =
  io_var :: "stream_var \<Rightarrow> nat \<Rightarrow> nat option"
  io_stream :: "stream_var \<Rightarrow> sys_stream"
  io_buffers :: "nat \<Rightarrow> string"
  io_original :: "stream_var \<Rightarrow> string"

definition install_router :: "stream_var \<Rightarrow> stdio \<Rightarrow> stdio" where
  "install_router v io =
     (if io_stream io v = Original then io\<lparr>io_stream := (io_stream io)(v := Routed)\<rparr> else io)"

text \<open>A write through the installed stream (or the patched \<open>print\<close>) in a context.\<close>

definition route_write :: "stream_var \<Rightarrow> nat \<Rightarrow> string \<Rightarrow> stdio \<Rightarrow> stdio" where
  "route_write v ctx t io =
     (let original = io\<lparr>io_original := (io_original io)(v := io_original io v @ t)\<rparr> in
      case io_stream io v of
        NoStream \<Rightarrow> io
      | Original \<Rightarrow> original
      | Routed \<Rightarrow>
          (case io_var io v ctx of
             Some b \<Rightarrow> io\<lparr>io_buffers := (io_buffers io)(b := io_buffers io b @ t)\<rparr>
           | None \<Rightarrow> original))"

fun route_writelines :: "stream_var \<Rightarrow> nat \<Rightarrow> string list \<Rightarrow> stdio \<Rightarrow> stdio" where
  "route_writelines v ctx [] io = io"
| "route_writelines v ctx (l # ls) io = route_writelines v ctx ls (route_write v ctx l io)"

text \<open>\<open>flush\<close> of a router goes to the same target, if that has one: which buffer (\<open>None\<close>: the original) is flushed.\<close>

definition route_flush :: "(nat option \<Rightarrow> bool) \<Rightarrow> stream_var \<Rightarrow> nat \<Rightarrow> stdio \<Rightarrow> nat option list" where
  "route_flush has_flush v ctx io = (let target = io_var io v ctx in if has_flush target then [target] else [])"

text \<open>
  \<open>install_print\<close> replaces \<open>builtins.print\<close> once, by a flag of its module; \<open>_patched_print\<close>
  calls the print function of the context, or the original one.
\<close>

definition install_print :: "bool \<times> stdio \<Rightarrow> bool \<times> stdio" where
  "install_print st =
     (case st of (installed, io) \<Rightarrow>
        if installed then (installed, io) else (True, io\<lparr>io_stream := (io_stream io)(PrintVar := Routed)\<rparr>))"

definition patched_print :: "(nat \<Rightarrow> stdio \<Rightarrow> stdio) \<Rightarrow> (stdio \<Rightarrow> stdio) \<Rightarrow> nat \<Rightarrow> stdio \<Rightarrow> stdio" where
  "patched_print sandbox_print original_print ctx io =
     (case io_var io PrintVar ctx of Some fn \<Rightarrow> sandbox_print fn io | None \<Rightarrow> original_print io)"

definition set_var :: "stream_var \<Rightarrow> nat \<Rightarrow> nat option \<Rightarrow> stdio \<Rightarrow> stdio" where
  "set_var v ctx b io = io\<lparr>io_var := (io_var io)(v := (io_var io v)(ctx := b))\<rparr>"

text \<open>\<open>redirect_print\<close>, \<open>redirect_stdout\<close>, \<open>redirect_stderr\<close>: the body runs redirected, then the old target is back.\<close>

definition redirect :: "stream_var \<Rightarrow> nat \<Rightarrow> nat \<Rightarrow> (stdio \<Rightarrow> 'r \<times> stdio) \<Rightarrow> stdio \<Rightarrow> 'r \<times> stdio" where
  "redirect v ctx b body io =
     (case body (set_var v ctx (Some b) io) of (r, io') \<Rightarrow> (r, set_var v ctx (io_var io v ctx) io'))"

definition passthrough_stdio :: "nat \<Rightarrow> (stdio \<Rightarrow> 'r \<times> stdio) \<Rightarrow> stdio \<Rightarrow> 'r \<times> stdio" where
  "passthrough_stdio ctx body io =
     (case body (set_var StderrVar ctx None (set_var StdoutVar ctx None (set_var PrintVar ctx None io))) of
        (r, io') \<Rightarrow>
          (r, set_var PrintVar ctx (io_var io PrintVar ctx)
                (set_var StdoutVar ctx (io_var io StdoutVar ctx)
                  (set_var StderrVar ctx (io_var io StderrVar ctx) io'))))"

section \<open>Laws of the tables\<close>

lemma keys_dupdate: "fst ` set (dupdate e d) = fst ` set e \<union> fst ` set d"
proof (induction e arbitrary: d)
  case (Cons kv e)
  obtain k v where kv: "kv = (k, v)" by fastforce
  have "dupdate (kv # e) d = dupdate e (dset k v d)" by (simp add: kv dupdate_def)
  with Cons.IH [of "dset k v d"] show ?case by (simp only: kv set_keys_dset) simp
qed (simp add: dupdate_def)

lemma real_functions_entries:
  "real_functions host ns = Inr d \<Longrightarrow> d = map (\<lambda>n. (n, Real n)) ns"
  by (induction ns arbitrary: d) (auto simp: res_simps split: if_splits)

lemma real_functions_total:
  "\<forall>n \<in> set ns. host n \<noteq> None \<Longrightarrow> real_functions host ns = Inr (map (\<lambda>n. (n, Real n)) ns)"
  by (induction ns) auto

text \<open>Every name a builtin can have.\<close>

definition builtin_names :: "string list" where
  "builtin_names = SAFE_FN_NAMES @ SAFE_EXCEPTIONS @ map fst safe_constants
     @ [''getattr'', ''hasattr'', ''locals'', ''dir'']"

text \<open>The host's builtins that reach code, frames, the namespace or the process.\<close>

definition withheld_builtins :: "string list" where
  "withheld_builtins =
     [''eval'', ''exec'', ''compile'', ''open'', ''input'', ''__import__'', ''globals'', ''vars'', ''setattr'',
      ''delattr'', ''breakpoint'', ''memoryview'', ''exit'', ''quit'', ''__loader__'', ''__spec__'',
      ''BaseException'', ''KeyboardInterrupt'', ''SystemExit'', ''GeneratorExit'']"

lemma safe_builtins_keys:
  assumes "SAFE_BUILTINS host = Inr d" "dget d n = Some v"
  shows "n \<in> set (SAFE_FN_NAMES @ SAFE_EXCEPTIONS @ map fst safe_constants)"
proof -
  from assms(1) obtain fns where fns: "real_functions host SAFE_FN_NAMES = Inr fns"
    and d: "d = dupdate safe_constants (dupdate (real_exceptions host) (dupdate fns []))"
    by (auto simp: SAFE_BUILTINS_def res_simps)
  have "n \<in> fst ` set d" using assms(2) by (force dest: map_of_SomeD)
  then show ?thesis
    using real_functions_entries [OF fns] by (auto simp: d keys_dupdate real_exceptions_def image_image)
qed

lemma gate_functions_keys: "map fst (gate_functions host d) = map fst d"
  by (simp add: gate_functions_def comp_def case_prod_unfold)

lemma gate_functions_lookup:
  "dget (gate_functions host d) n =
     map_option (\<lambda>v. if n \<in> set SAFE_FN_NAMES \<and> n \<noteq> ''super'' then gate_builtin host v else v) (dget d n)"
  by (induction d) (auto simp: gate_functions_def)

lemma dget_None_keys: "dget d n = None \<longleftrightarrow> n \<notin> fst ` set d"
  by (simp add: map_of_eq_None_iff)

definition added_names :: "string list" where
  "added_names = [''getattr'', ''hasattr'', ''locals'', ''dir'', ''__build_class__'']"

lemma added_disjoint: "set added_names \<inter> set SAFE_FN_NAMES = {}"
  by code_simp

lemma added_listed: "set added_names \<subseteq> set builtin_names"
  by code_simp

lemma withheld_disjoint: "set withheld_builtins \<inter> set builtin_names = {}"
  by code_simp

section \<open>Properties\<close>


text \<open>
  No sequence of operations on the frozen builtins of an execution changes
  them: whatever the code tries, every later lookup finds what was there.
\<close>

theorem frozen_builtins_constant:
  "fold (\<lambda>op d. snd (frozen_step op d)) ops d = d"
proof (induction ops arbitrary: d)
  case (Cons op ops)
  have "snd (frozen_step op d) = d" by (cases op) (auto split: option.splits)
  with Cons.IH show ?case by simp
qed simp

text \<open>
  Concurrent executions in one process do not mix their output: with a buffer
  of its own for each context, every buffer receives exactly its context's writes,
  in order, and nothing reaches the process's own stream.
\<close>

theorem output_not_mixed:
  assumes "io_stream io v = Routed" "inj buf" "\<And>c. io_var io v c = Some (buf c)"
  shows "io_buffers (fold (\<lambda>(c, t). route_write v c t) evs io) (buf ctx)
      = io_buffers io (buf ctx) @ concat (map snd (filter (\<lambda>(c, _). c = ctx) evs))
    \<and> io_original (fold (\<lambda>(c, t). route_write v c t) evs io) = io_original io"
  using assms
proof (induction evs arbitrary: io)
  case (Cons ev evs)
  obtain c t where ev: "ev = (c, t)" by fastforce
  define io1 where "io1 = route_write v c t io"
  have io1: "io_stream io1 v = Routed" "\<And>c. io_var io1 v c = Some (buf c)" "io_original io1 = io_original io"
    "io_buffers io1 (buf ctx) = (if c = ctx then io_buffers io (buf ctx) @ t else io_buffers io (buf ctx))"
    using Cons.prems by (auto simp: io1_def route_write_def Let_def inj_eq)
  from Cons.IH [OF io1(1) Cons.prems(2) io1(2)] show ?case using ev io1(3,4) by (auto simp: io1_def)
qed simp

text \<open>Lines written one by one are one write of them all.\<close>

lemma route_writelines_concat: "route_writelines v ctx ls io = route_write v ctx (concat ls) io"
proof (induction ls arbitrary: io)
  case Nil
  show ?case by (simp add: route_write_def Let_def split: sys_stream.splits option.splits)
next
  case (Cons l ls)
  then show ?case by (simp add: route_write_def Let_def split: sys_stream.splits option.splits)
qed

text \<open>Once installed, \<open>print\<close> is routed like a stream, and installing it again changes nothing.\<close>

lemma print_routed:
  assumes "install_print (installed, io) = (i', io')" "installed \<longrightarrow> io_stream io PrintVar = Routed"
  shows "install_print (i', io') = (i', io')
    \<and> patched_print (\<lambda>b io. io\<lparr>io_buffers := (io_buffers io)(b := io_buffers io b @ t)\<rparr>)
        (\<lambda>io. io\<lparr>io_original := (io_original io)(PrintVar := io_original io PrintVar @ t)\<rparr>) ctx io'
      = route_write PrintVar ctx t io'"
  using assms by (auto simp: install_print_def patched_print_def route_write_def Let_def split: if_splits option.splits)

text \<open>A gated class at the top level of its module comes back as the class behind it.\<close>

lemma gated_pickles_as_real:
  assumes "naming (gt_real gt) = (m, q)" "CHR ''.'' \<notin> set q"
    and "import_module w m = Inr mo" "get_attr w mo q = Inr (gt_real gt)"
  shows "case_prod (unpickle_real_type w) (reduce_gated naming gt) = Inr (gt_real gt)"
proof -
  have "split_on (CHR ''.'') q = [q]" using assms(2) by (induction q) auto
  with assms show ?thesis by (simp add: reduce_gated_def unpickle_real_type_def)
qed

text \<open>Leaving a redirection or a passthrough brings the old targets back, whatever its body did.\<close>

interpretation redirected: restoring "redirect v ctx b" "\<lambda>io. io_var io v ctx" for v ctx b
  by unfold_locales (simp add: redirect_def set_var_def split: prod.splits)

lemma redirections_restore:
  "io_var (fold (\<lambda>body io. snd (redirect v ctx b body io)) bodies io) v ctx = io_var io v ctx"
  by (rule redirected.one_after_another)

lemma passthrough_restores:
  "io_var (snd (passthrough_stdio ctx body io)) v ctx = io_var io v ctx"
  by (cases v) (simp_all add: passthrough_stdio_def set_var_def split: prod.splits)

section \<open>Findings\<close>

text \<open>
  A gated type as a base class is never replaced by the class behind it: the type
  of its type is \<open>type\<close>, which is not an instance of the metaclass.
\<close>

lemma gated_base_not_unwrapped:
  assumes "\<And>b. b \<in> set bs \<Longrightarrow> mro w (type_of w (type_of w b)) = [type_cls, object_cls w]"
    and "gated_meta \<noteq> type_cls" "gated_meta \<noteq> object_cls w"
  shows "gated_build_class_bases w gated_meta behind bs = bs"
  using assms by (induction bs) (auto simp: gated_build_class_bases_def)

text \<open>The constructor of the frozen dictionary is not guarded.\<close>

lemma frozen_init_stores: "dget (frozen_init [(''open'', v)] d) ''open'' = Some v"
  by (simp add: frozen_init_def dupdate_def)

section \<open>A concrete host\<close>

definition ex_host :: host_builtins where
  "ex_host n =
     (if n \<in> set [''bool'', ''bytearray'', ''bytes'', ''int'', ''str'', ''list'', ''dict'', ''type''] then Some HostType
      else if n \<in> set SAFE_FN_NAMES \<or> n \<in> set SAFE_EXCEPTIONS then Some HostCallable else None)"

lemma ex_host_builtins: "\<exists>d. make_safe_builtins ex_host True = Inr d"
proof -
  have "\<forall>n \<in> set SAFE_FN_NAMES. ex_host n \<noteq> None" by (simp add: ex_host_def)
  from real_functions_total [OF this] show ?thesis by (simp add: make_safe_builtins_def SAFE_BUILTINS_def)
qed


theorem output_not_mixed_witness:
  "io_buffers (fold (\<lambda>(c, t). route_write StdoutVar c t) [(1, ''a''), (2, ''x''), (1, ''b'')]
      \<lparr>io_var = (\<lambda>_ c. Some c), io_stream = (\<lambda>_. Routed), io_buffers = (\<lambda>_. []), io_original = (\<lambda>_. [])\<rparr>) 1 = ''ab''"
  using output_not_mixed [of "\<lparr>io_var = (\<lambda>_ c. Some c), io_stream = (\<lambda>_. Routed), io_buffers = (\<lambda>_. []), io_original = (\<lambda>_. [])\<rparr>"
      StdoutVar "\<lambda>c. c" "[(1, ''a''), (2, ''x''), (1, ''b'')]" 1]
  by simp

end
