(* ===== verification/Sandbox.thy ===== *)
theory Sandbox
  imports Rewritten Builtins Home Net
begin

text \<open>
  The in-process sandbox (\<open>sandtrap/sandbox.py\<close>): validating the arguments of an
  execution, the module each execution runs in, the namespace it starts from, the
  result it returns, and the pipeline that parses, rewrites, compiles and runs the
  source. The parser, the compiler and the interpreter are arguments.
\<close>

section \<open>Validating arguments\<close>

text \<open>
  An argument as the checks see it; \<open>AFloat None\<close> is a float that is not finite, a
  collection is given by its items.
\<close>

datatype arg =
    ANone
  | AStr string
  | ABytes
  | ABool bool
  | AInt int
  | AFloat "real option"
  | AColl "arg list"
  | AOther string

definition ECHO_OPTIONS :: "string list" where
  "ECHO_OPTIONS = [''none'', ''last'', ''all'']"

definition validate_echo :: "arg \<Rightarrow> unit res" where
  "validate_echo a =
     (case a of
        AStr s \<Rightarrow> if s \<in> set ECHO_OPTIONS then Inr () else Inl (Exc ValueError ''Invalid echo option'')
      | _ \<Rightarrow> Inl (Exc ValueError ''Invalid echo option''))"

definition is_AStr :: "arg \<Rightarrow> bool" where
  "is_AStr a = (case a of AStr _ \<Rightarrow> True | _ \<Rightarrow> False)"

definition arg_str :: "arg \<Rightarrow> string" where
  "arg_str a = (case a of AStr s \<Rightarrow> s | _ \<Rightarrow> [])"

definition validate_keep :: "arg \<Rightarrow> string set option res" where
  "validate_keep a =
     (case a of
        ANone \<Rightarrow> Inr None
      | AColl xs \<Rightarrow>
          if list_all is_AStr xs then Inr (Some (set (map arg_str xs)))
          else Inl (Exc TypeError ''keep names must be strings'')
      | _ \<Rightarrow> Inl (Exc TypeError ''keep must be a collection of names''))"

definition positive_seconds :: "real option \<Rightarrow> real option res" where
  "positive_seconds r =
     (case r of
        Some x \<Rightarrow> if x \<le> 0 then Inl (Exc ValueError ''timeout must be positive and finite'') else Inr (Some x)
      | None \<Rightarrow> Inl (Exc ValueError ''timeout must be positive and finite''))"

definition validate_timeout :: "arg \<Rightarrow> real option res" where
  "validate_timeout a =
     (case a of
        ANone \<Rightarrow> Inr None
      | AInt i \<Rightarrow> positive_seconds (Some (of_int i))
      | AFloat r \<Rightarrow> positive_seconds r
      | _ \<Rightarrow> Inl (Exc TypeError ''timeout must be a number of seconds''))"

text \<open>A module provided to one execution: its name and whether it maps names to values.\<close>

fun validate_modules :: "(string \<Rightarrow> bool) \<Rightarrow> policy \<Rightarrow> (arg \<times> bool) list \<Rightarrow> unit res" where
  "validate_modules isidentifier pol [] = Inr ()"
| "validate_modules isidentifier pol ((name, is_mapping) # ms) =
     (case name of
        AStr n \<Rightarrow>
          if \<not> isidentifier n then Inl (Exc ValueError ''Invalid module name'')
          else if n = ''sys'' then Inl (Exc ValueError ''Cannot provide a module named sys'')
          else if dmem n (pol_modules pol)
          then Inl (Exc ValueError ''the policy already grants a module under that name'')
          else if \<not> is_mapping then Inl (Exc ValueError ''a module must map attribute names to values'')
          else validate_modules isidentifier pol ms
      | _ \<Rightarrow> Inl (Exc ValueError ''Invalid module name''))"

definition validate_mode :: "string \<Rightarrow> unit res" where
  "validate_mode md =
     (if md = ''raw'' then Inr ()
      else if md = ''wrapped'' then Inl (Exc ValueError ''mode=wrapped was removed in 0.4.0'')
      else Inl (Exc ValueError (''Invalid mode: '' @ md)))"

section \<open>The module of an execution\<close>

text \<open>
  A sandbox's base name, how many executions it has started, the modules of it
  that are registered, oldest first, and its cancel flag; and the interpreter's
  \<open>sys.modules\<close>.
\<close>

record sb_state =
  sb_base :: string
  sb_executions :: nat
  sb_homes :: "string list"
  sb_module_name :: string
  sb_cancelled :: bool

definition new_sandbox :: "nat \<Rightarrow> sb_state" where
  "new_sandbox n = \<lparr>sb_base = new_module_name n, sb_executions = 0, sb_homes = [], sb_module_name = new_module_name n,
     sb_cancelled = False\<rparr>"

definition home_name :: "string \<Rightarrow> nat \<Rightarrow> string" where
  "home_name base i = take (length base - 2) base @ ''_'' @ str_of_nat i @ ''__''"

fun evict :: "string list \<Rightarrow> (string, 'm) dict \<Rightarrow> string list \<times> (string, 'm) dict" where
  "evict [] mods = ([], mods)"
| "evict (h # hs) mods = (if HOMES < length (h # hs) then evict hs (dpop h mods) else (h # hs, mods))"

text \<open>\<open>own_name\<close>: the embedder's namespace left \<open>__name__\<close> as it was.\<close>

definition start_execution :: "'m \<Rightarrow> bool \<Rightarrow> sb_state \<times> (string, 'm) dict \<Rightarrow> sb_state \<times> (string, 'm) dict" where
  "start_execution m own_name st =
     (case st of (sb, mods) \<Rightarrow>
        (let n = sb_executions sb + 1; name = home_name (sb_base sb) n;
             sb = sb\<lparr>sb_executions := n, sb_module_name := name\<rparr>
         in if own_name
            then (case evict (sb_homes sb @ [name]) (dset name m mods) of
                    (hs, mods') \<Rightarrow> (sb\<lparr>sb_homes := hs\<rparr>, mods'))
            else (sb, mods)))"

text \<open>The name an execution's module gets, and the \<open>__name__\<close> it runs under once the embedder's namespace is in it.\<close>

definition next_home :: "sb_state \<Rightarrow> string" where
  "next_home sb = home_name (sb_base sb) (sb_executions sb + 1)"

definition execution_name :: "('v \<Rightarrow> string option) \<Rightarrow> string \<Rightarrow> (string, 'v) dict \<Rightarrow> string option" where
  "execution_name as_str own namespace =
     (case dget namespace ''__name__'' of None \<Rightarrow> Some own | Some v \<Rightarrow> as_str v)"

definition forget_home :: "string \<Rightarrow> sb_state \<times> (string, 'm) dict \<Rightarrow> sb_state \<times> (string, 'm) dict" where
  "forget_home name st =
     (case st of (sb, mods) \<Rightarrow>
        if name \<in> set (sb_homes sb)
        then (sb\<lparr>sb_homes := remove1 name (sb_homes sb)\<rparr>, dpop name mods)
        else (sb, mods))"

definition sandbox_exit :: "sb_state \<times> (string, 'm) dict \<Rightarrow> sb_state \<times> (string, 'm) dict" where
  "sandbox_exit st =
     (case st of (sb, mods) \<Rightarrow> (case forget (sb_homes sb) mods of
        (hs, mods') \<Rightarrow> (sb\<lparr>sb_cancelled := False, sb_homes := hs\<rparr>, mods')))"

text \<open>\<open>cancel\<close> sets the flag that checkpoints read; an execution clears it once its code compiled.\<close>

definition sandbox_cancel :: "sb_state \<times> (string, 'm) dict \<Rightarrow> sb_state \<times> (string, 'm) dict" where
  "sandbox_cancel st = (case st of (sb, mods) \<Rightarrow> (sb\<lparr>sb_cancelled := True\<rparr>, mods))"

definition clear_cancel :: "sb_state \<times> (string, 'm) dict \<Rightarrow> sb_state \<times> (string, 'm) dict" where
  "clear_cancel st = (case st of (sb, mods) \<Rightarrow> (sb\<lparr>sb_cancelled := False\<rparr>, mods))"

text \<open>
  What happens to a sandbox's modules: executions, an execution that ran out of
  memory, leaving the sandbox, and whatever the rest of the process does to
  \<open>sys.modules\<close> under other names.
\<close>

definition own_module :: "sb_state \<Rightarrow> string \<Rightarrow> bool" where
  "own_module sb n = (\<exists>i. n = home_name (sb_base sb) i)"

inductive home_step :: "sb_state \<times> (string, 'm) dict \<Rightarrow> sb_state \<times> (string, 'm) dict \<Rightarrow> bool" where
  exec: "home_step st (start_execution m own_name st)"
| out_of_memory: "home_step st (forget_home name st)"
| leave: "home_step st (sandbox_exit st)"
| cancel: "home_step st (sandbox_cancel st)"
| cleared: "home_step st (clear_cancel st)"
| others: "\<forall>n. own_module sb n \<longrightarrow> dget mods' n = dget mods n \<Longrightarrow> home_step (sb, mods) (sb, mods')"

inductive home_reach :: "nat \<Rightarrow> sb_state \<times> (string, 'm) dict \<Rightarrow> bool" for k where
  start: "\<forall>n. own_module (new_sandbox k) n \<longrightarrow> dget mods n = None \<Longrightarrow> home_reach k (new_sandbox k, mods)"
| step: "home_reach k st \<Longrightarrow> home_step st st' \<Longrightarrow> home_reach k st'"

text \<open>The registered modules are those of the latest executions, at most \<open>HOMES\<close>, in order.\<close>

definition home_inv :: "sb_state \<times> (string, 'm) dict \<Rightarrow> bool" where
  "home_inv st \<longleftrightarrow>
     (case st of (sb, mods) \<Rightarrow>
        (\<exists>ks. sb_homes sb = map (home_name (sb_base sb)) ks \<and> sorted_wrt (<) ks
              \<and> (\<forall>i \<in> set ks. i \<le> sb_executions sb) \<and> length ks \<le> HOMES)
        \<and> (\<forall>n. own_module sb n \<longrightarrow> (dget mods n \<noteq> None \<longleftrightarrow> n \<in> set (sb_homes sb))))"

lemma home_name_inj [simp]: "home_name base i = home_name base j \<longleftrightarrow> i = j"
  by (simp add: home_name_def)

lemma evict_spec:
  "fst (evict hs mods) = drop (length hs - HOMES) hs
   \<and> dget (snd (evict hs mods)) x = (if x \<in> set (take (length hs - HOMES) hs) then None else dget mods x)"
proof (induction hs mods rule: evict.induct)
  case (2 h hs mods)
  show ?case
  proof (cases "HOMES < length (h # hs)")
    case True
    then have "length (h # hs) - HOMES = Suc (length hs - HOMES)" by simp
    with 2 [OF True] True show ?thesis by auto
  qed simp
qed simp

lemma forget_spec: "fst (forget ns mods) = [] \<and> dget (snd (forget ns mods)) x = (if x \<in> set ns then None else dget mods x)"
  by (induction ns mods rule: forget.induct) auto

lemma strict_sorted_distinct_homes: "sorted_wrt (<) ks \<Longrightarrow> distinct (map (home_name base) ks)" for ks :: "nat list"
  by (simp add: distinct_map inj_on_def strict_sorted_iff)

lemma start_execution_inv:
  assumes "home_inv st"
  shows "home_inv (start_execution m own_name st)"
proof (cases own_name)
  case False
  with assms show ?thesis
    by (cases st) (fastforce simp: home_inv_def start_execution_def Let_def own_module_def)
next
  case True
  obtain sb mods where st: "st = (sb, mods)" by fastforce
  from assms st obtain ks where ks: "sb_homes sb = map (home_name (sb_base sb)) ks" "sorted_wrt (<) ks"
    "\<forall>i \<in> set ks. i \<le> sb_executions sb" "length ks \<le> HOMES"
    and reg: "\<And>n. own_module sb n \<Longrightarrow> dget mods n \<noteq> None \<longleftrightarrow> n \<in> set (sb_homes sb)"
    by (auto simp: home_inv_def)
  define n where "n = sb_executions sb + 1"
  define js where "js = ks @ [n]"
  define k where "k = length js - HOMES"
  define hs where "hs = map (home_name (sb_base sb)) js"
  have js: "sorted_wrt (<) js" "\<forall>i \<in> set js. i \<le> n"
    using ks by (auto simp: js_def n_def sorted_wrt_append less_Suc_eq_le)
  have hs: "sb_homes sb @ [home_name (sb_base sb) n] = hs" by (simp add: hs_def js_def ks(1))
  have distinct: "distinct hs" using strict_sorted_distinct_homes [OF js(1)] by (simp add: hs_def)
  obtain hs' mods' where ev: "evict hs (dset (home_name (sb_base sb) n) m mods) = (hs', mods')" by fastforce
  have hs': "hs' = drop k hs" and mods': "\<And>x. dget mods' x =
      (if x \<in> set (take k hs) then None else dget (dset (home_name (sb_base sb) n) m mods) x)"
    using evict_spec [of hs "dset (home_name (sb_base sb) n) m mods"] ev by (auto simp: k_def hs_def)
  have split: "set (take k hs) \<inter> set (drop k hs) = {}" "set hs = set (take k hs) \<union> set (drop k hs)"
    using distinct by (metis append_take_drop_id distinct_append, metis append_take_drop_id set_append)
  have "hs' = map (home_name (sb_base sb)) (drop k js)" by (simp add: hs' hs_def drop_map)
  moreover have "sorted_wrt (<) (drop k js)" using js(1) by (simp add: sorted_wrt_drop)
  moreover have "\<forall>i \<in> set (drop k js). i \<le> n" using js(2) by (auto dest: in_set_dropD)
  moreover have "length (drop k js) \<le> HOMES" by (simp add: k_def)
  moreover have "dget mods' x \<noteq> None \<longleftrightarrow> x \<in> set hs'" if "own_module sb x" for x
    using reg [OF that] split by (auto simp: mods' hs' hs [symmetric])
  moreover have "start_execution m own_name st
      = (sb\<lparr>sb_executions := n, sb_module_name := home_name (sb_base sb) n, sb_homes := hs'\<rparr>, mods')"
    using True ev hs by (simp add: start_execution_def st Let_def n_def)
  ultimately show ?thesis by (auto simp: home_inv_def own_module_def)
qed

lemma forget_home_inv:
  assumes "home_inv st"
  shows "home_inv (forget_home name st)"
proof -
  obtain sb mods where st: "st = (sb, mods)" by fastforce
  from assms st obtain ks where ks: "sb_homes sb = map (home_name (sb_base sb)) ks" "sorted_wrt (<) ks"
    "\<forall>i \<in> set ks. i \<le> sb_executions sb" "length ks \<le> HOMES"
    and reg: "\<And>n. own_module sb n \<Longrightarrow> dget mods n \<noteq> None \<longleftrightarrow> n \<in> set (sb_homes sb)"
    by (auto simp: home_inv_def)
  show ?thesis
  proof (cases "name \<in> set (sb_homes sb)")
    case True
    then obtain i where i: "i \<in> set ks" "name = home_name (sb_base sb) i" by (auto simp: ks(1))
    have "remove1 name (sb_homes sb) = map (home_name (sb_base sb)) (remove1 i ks)"
      unfolding ks(1) i(2) by (induction ks) auto
    moreover have "sorted_wrt (<) (remove1 i ks)" using ks(2) by (induction ks) (auto dest: notin_set_remove1)
    moreover have "\<forall>j \<in> set (remove1 i ks). j \<le> sb_executions sb" using ks(3) by (meson notin_set_remove1)
    moreover have "length (remove1 i ks) \<le> HOMES" using ks(4) by (auto simp: length_remove1)
    moreover have "set (remove1 name (sb_homes sb)) = set (sb_homes sb) - {name}"
      using strict_sorted_distinct_homes [OF ks(2)] ks(1) by (simp add: set_remove1_eq)
    ultimately show ?thesis
      using True reg by (auto simp: home_inv_def forget_home_def st own_module_def)
  qed (use assms st in \<open>simp add: forget_home_def\<close>)
qed

lemma sandbox_exit_inv:
  assumes "home_inv st"
  shows "home_inv (sandbox_exit st)"
proof -
  obtain sb mods where st: "st = (sb, mods)" by fastforce
  obtain hs mods' where f: "forget (sb_homes sb) mods = (hs, mods')" by fastforce
  have "hs = []" "\<And>x. dget mods' x = (if x \<in> set (sb_homes sb) then None else dget mods x)"
    using forget_spec [of "sb_homes sb" mods] f by auto
  with assms st f show ?thesis by (auto simp: home_inv_def sandbox_exit_def own_module_def)
qed

lemma cancel_inv:
  "home_inv st \<Longrightarrow> home_inv (sandbox_cancel st)" "home_inv st \<Longrightarrow> home_inv (clear_cancel st)"
  by (auto simp: home_inv_def own_module_def sandbox_cancel_def clear_cancel_def split: prod.splits)

lemma home_reach_inv: "home_reach k st \<Longrightarrow> home_inv st"
proof (induction rule: home_reach.induct)
  case (start mods)
  then show ?case by (auto simp: home_inv_def new_sandbox_def own_module_def)
next
  case (step st st')
  from step.hyps(2) step.IH show ?case
  proof (induction rule: home_step.induct)
    case (others sb mods' mods)
    then show ?case by (simp add: home_inv_def)
  qed (auto intro: start_execution_inv forget_home_inv sandbox_exit_inv cancel_inv)
qed

section \<open>The namespace of an execution\<close>

definition INTERNAL_KEYS :: "string list" where
  "INTERNAL_KEYS = [''__builtins__'', ''__name__'', ''__doc__'', ''__loader__'', ''__package__'', ''__spec__'']"

text \<open>
  What the sandbox puts into a namespace: the entries of the fresh module, the
  frozen builtins, the gates, the registered functions, classes and modules (each
  as it is bound), \<open>print\<close> and \<open>help\<close>, and, where they apply, the display function
  of echo and \<open>sys\<close> with \<open>input\<close>.
\<close>

record 'v ns_parts =
  np_module :: "(string, 'v) dict"
  np_builtins :: 'v
  np_gates :: "(string, 'v) dict"
  np_registered :: "(string, 'v) dict"
  np_print :: 'v
  np_display :: "'v option"
  np_help :: 'v
  np_sys :: "('v \<times> 'v) option"

text \<open>
  The objects they are: what the interpreter makes of a string, a host object, a
  wrapper that opens privileges or stops the clock, a gated type, and the functions
  the sandbox defines for the execution.
\<close>

record 'v makers =
  mk_string :: "string \<Rightarrow> 'v"
  mk_none :: 'v
  mk_builtins :: 'v
  mk_gate :: "string \<Rightarrow> 'v"
  mk_object :: "oid \<Rightarrow> 'v"
  mk_privileged :: "bool \<Rightarrow> bool \<Rightarrow> 'v \<Rightarrow> 'v"
  mk_host_time :: "'v \<Rightarrow> 'v"
  mk_gated_type :: "oid \<Rightarrow> 'v"
  mk_print :: 'v
  mk_display :: 'v
  mk_help :: 'v
  mk_sys :: 'v
  mk_input :: 'v

text \<open>The dictionary of a new module, and the gates as \<open>make_gates\<close> names them.\<close>

definition module_entries :: "'v makers \<Rightarrow> string \<Rightarrow> (string, 'v) dict" where
  "module_entries mk name =
     [(''__name__'', mk_string mk name), (''__doc__'', mk_none mk), (''__package__'', mk_none mk),
      (''__loader__'', mk_none mk), (''__spec__'', mk_none mk)]"

definition GATE_NAMES :: "string list" where
  "GATE_NAMES = [''__st_tick_counter__'', ''__st_start_time__'', ''__st_cancel_flag__'', ''__st_memory__'',
     ''__st_in_exec__'', ''__st_host_clock__'', ''__st_getattr__'', ''__st_setattr__'', ''__st_delattr__'',
     ''__st_import__'', ''__st_importfrom__'', ''__st_dynimport__'', ''__st_checkpoint__'',
     ''__st_capture_context__'', ''__st_vfs__'', ''__st_exec_modules__'']"

definition make_gates :: "(string \<Rightarrow> 'v) \<Rightarrow> (string, 'v) dict" where
  "make_gates impl = map (\<lambda>n. (n, impl n)) GATE_NAMES"

text \<open>
  A registered function is bound with the privileges of its registration, a class as it
  is or, when it may not be constructed, as a gated type, and a module as it is.
\<close>

definition bind_function :: "'v makers \<Rightarrow> fn_registration \<Rightarrow> 'v" where
  "bind_function mk r =
     (let fn = mk_object mk (fr_func r);
          fn = (if fr_network r \<or> fr_host_fs r then mk_privileged mk (fr_network r) (fr_host_fs r) fn else fn)
      in if fr_host_time r then mk_host_time mk fn else fn)"

definition bind_class :: "'v makers \<Rightarrow> cls_registration \<Rightarrow> 'v" where
  "bind_class mk r = (if cr_constructable r then mk_object mk (cr_cls r) else mk_gated_type mk (cr_cls r))"

definition registered_values :: "'v makers \<Rightarrow> policy \<Rightarrow> (string, 'v) dict" where
  "registered_values mk pol =
     map (\<lambda>(n, r). (n, bind_function mk r)) (pol_functions pol)
     @ map (\<lambda>(n, r). (n, bind_class mk r)) (pol_classes pol)
     @ map (\<lambda>(n, r). (n, mk_object mk (mr_obj r))) (pol_modules pol)"

text \<open>The parts of an execution: \<open>given\<close> tells whether the caller passed \<open>stdin\<close> or \<open>argv\<close>.\<close>

definition execution_parts :: "'v makers \<Rightarrow> policy \<Rightarrow> string \<Rightarrow> bool \<Rightarrow> string \<Rightarrow> 'v ns_parts" where
  "execution_parts mk pol echo given own =
     \<lparr>np_module = module_entries mk own, np_builtins = mk_builtins mk, np_gates = make_gates (mk_gate mk),
      np_registered = registered_values mk pol, np_print = mk_print mk,
      np_display = (if echo \<noteq> ''none'' then Some (mk_display mk) else None), np_help = mk_help mk,
      np_sys = (if given then Some (mk_sys mk, mk_input mk) else None)\<rparr>"

type_synonym 'v ns_pair = "(string, 'v) dict \<times> (string, 'v) dict"

definition provide :: "string \<Rightarrow> 'v \<Rightarrow> 'v ns_pair \<Rightarrow> 'v ns_pair" where
  "provide k v p = (case p of (ns, injected) \<Rightarrow> (dset k v ns, dset k v injected))"

text \<open>\<open>ns.setdefault(name, value); injected[name] = ns[name]\<close>.\<close>

definition provide_default :: "string \<times> 'v \<Rightarrow> 'v ns_pair \<Rightarrow> 'v ns_pair" where
  "provide_default kv p =
     (case p of (ns, injected) \<Rightarrow>
        (let ns = dsetdefault (fst kv) (snd kv) ns
         in (ns, case dget ns (fst kv) of Some v \<Rightarrow> dset (fst kv) v injected | None \<Rightarrow> injected)))"

definition build_namespace :: "(string, 'v) dict \<Rightarrow> 'v ns_parts \<Rightarrow> 'v ns_pair" where
  "build_namespace namespace np =
     (let ns = dupdate (np_gates np) (dset ''__builtins__'' (np_builtins np) (dupdate namespace (np_module np)));
          p = fold provide_default (np_registered np) (ns, []);
          p = provide ''print'' (np_print np) p;
          p = (case np_display np of Some d \<Rightarrow> provide ''__st_display__'' d p | None \<Rightarrow> p);
          p = provide ''help'' (np_help np) p
      in case np_sys np of
           Some (sy, inp) \<Rightarrow> provide ''input'' inp (provide ''sys'' sy p)
         | None \<Rightarrow> p)"

text \<open>
  \<open>_resolve_module_refs\<close>: a reference to a module is imported again through the
  gate, under its top-level name or as an alias; one that cannot be stays.
\<close>

definition resolve_ref ::
  "('v \<Rightarrow> string option) \<Rightarrow> (string \<Rightarrow> string option \<Rightarrow> 'v res) \<Rightarrow> string \<Rightarrow> 'v \<Rightarrow> 'v res" where
  "resolve_ref module_ref import_gate k v =
     (case module_ref v of
        None \<Rightarrow> Inr v
      | Some name \<Rightarrow>
          (case import_gate name (if k = hd (split_on CHR ''.'' name) then None else Some k) of
             Inr m \<Rightarrow> Inr m
           | Inl e \<Rightarrow> if exc_caught_by (err_class e) Exception then Inr v else Inl e))"

fun resolve_module_refs ::
  "('v \<Rightarrow> string option) \<Rightarrow> (string \<Rightarrow> string option \<Rightarrow> 'v res) \<Rightarrow> (string, 'v) dict \<Rightarrow> (string, 'v) dict res" where
  "resolve_module_refs module_ref import_gate [] = Inr []"
| "resolve_module_refs module_ref import_gate ((k, v) # ns) =
     rbind (resolve_ref module_ref import_gate k v) (\<lambda>v'.
       rbind (resolve_module_refs module_ref import_gate ns) (\<lambda>ns'. Inr ((k, v') # ns')))"

section \<open>The result of an execution\<close>

definition visible_name :: "string \<Rightarrow> bool" where
  "visible_name k = (k \<notin> set INTERNAL_KEYS \<and> \<not> startswith k ''__st_'')"

text \<open>\<open>is_exec_module\<close> tells the modules the embedder provided for the execution.\<close>

definition result_namespace ::
  "('v \<Rightarrow> bool) \<Rightarrow> (string, 'v) dict \<Rightarrow> (string, 'v) dict \<Rightarrow> (string, 'v) dict \<Rightarrow> string set option \<Rightarrow>
   (string, 'v) dict" where
  "result_namespace is_exec_module injected ns extra keep =
     (let r = filter (\<lambda>(k, v). visible_name k \<and> \<not> is_exec_module v \<and> dget injected k \<noteq> Some v) ns;
          r = dupdate (filter (\<lambda>(k, v). \<not> startswith k ''__st_'') extra) r
      in case keep of None \<Rightarrow> r | Some names \<Rightarrow> filter (\<lambda>(k, v). k \<in> names) r)"

text \<open>
  What an execution leaves beside its names: the two capture buffers, made by
  \<open>_make_stdout_buf\<close>, the snapshots and renderings of its prints, and the ticks counted.
\<close>

record 'p exec_output =
  cp_stdout :: out_buffer
  cp_stderr :: out_buffer
  cp_prints :: "'p list"
  cp_ticks :: nat
  cp_rendered :: "string list"
  cp_print_count :: nat

definition make_stdout_buf :: "policy \<Rightarrow> out_buffer" where
  "make_stdout_buf pol = make_output_buffer (max_stdout pol) (stdout_keep pol)"

definition nothing_captured :: "policy \<Rightarrow> 'p exec_output" where
  "nothing_captured pol = \<lparr>cp_stdout = make_stdout_buf pol, cp_stderr = make_stdout_buf pol, cp_prints = [],
     cp_ticks = 0, cp_rendered = [], cp_print_count = 0\<rparr>"

record ('v, 'p) sb_result =
  sr_namespace :: "(string, 'v) dict"
  sr_stdout :: string
  sr_stderr :: string
  sr_ticks :: nat
  sr_rendered :: "string list"
  sr_print_count :: nat
  sr_prints :: "'p list"
  sr_dropped :: "string list"
  sr_error :: "pyerr option"

definition is_memory_error :: "pyerr option \<Rightarrow> bool" where
  "is_memory_error e = (case e of None \<Rightarrow> False | Some x \<Rightarrow> exc_caught_by (err_class x) MemoryError)"

text \<open>The result, and the sandbox and \<open>sys.modules\<close> with the module of a memory failure forgotten.\<close>

definition build_result ::
  "('v \<Rightarrow> bool) \<Rightarrow> (string, 'v) dict \<Rightarrow> (string, 'v) dict \<Rightarrow> (string, 'v) dict \<Rightarrow> string set option \<Rightarrow>
   'p exec_output \<Rightarrow> pyerr option \<Rightarrow> string option \<Rightarrow> sb_state \<times> (string, 'm) dict \<Rightarrow>
   ('v, 'p) sb_result \<times> sb_state \<times> (string, 'm) dict" where
  "build_result is_exec_module injected ns extra keep cap error home st =
     (let r = result_namespace is_exec_module injected ns extra keep;
          out = \<lparr>sr_namespace = r, sr_stdout = buf_getvalue (cp_stdout cap), sr_stderr = buf_getvalue (cp_stderr cap),
                 sr_ticks = cp_ticks cap, sr_rendered = cp_rendered cap, sr_print_count = cp_print_count cap,
                 sr_prints = cp_prints cap, sr_dropped = [], sr_error = error\<rparr>
      in if is_memory_error error
         then (out\<lparr>sr_namespace := [], sr_prints := [], sr_dropped := map fst r\<rparr>,
               case home of Some h \<Rightarrow> forget_home h st | None \<Rightarrow> st)
         else (out, st))"

section \<open>The pipeline\<close>

datatype prepared = Refused pyerr | Prepared node

text \<open>\<open>_parse_and_rewrite\<close>: syntax and validation errors become results, anything else escapes.\<close>

definition parse_and_rewrite :: "(string \<Rightarrow> node res) \<Rightarrow> nat \<Rightarrow> string \<Rightarrow> string \<Rightarrow> prepared res" where
  "parse_and_rewrite parse minor echo src =
     (case rbind (parse src) take_future of
        Inl e \<Rightarrow> if exc_caught_by (err_class e) SyntaxError then Inr (Refused e) else Inl e
      | Inr (tree, flags) \<Rightarrow>
          (case visit \<lparr>rw_echo = echo, future_flags = flags, py_minor = minor\<rparr> tree 0 of
             Inl e \<Rightarrow> if exc_caught_by (err_class e) StValidationError then Inr (Refused e) else Inl e
           | Inr (r, _) \<Rightarrow> Inr (Prepared (expr_of r))))"

text \<open>The contexts around the code: the clock, the network denied, the filesystem in place.\<close>

definition with_clock :: "nat \<Rightarrow> ('f, 's, 'r) code \<Rightarrow> ('f, 's, 'r) code" where
  "with_clock clk body c s =
     (case body (c\<lparr>current_clock := Some clk\<rparr>) s of
        (r, c', s') \<Rightarrow> (r, c'\<lparr>current_clock := current_clock c\<rparr>, s'))"

definition with_fs :: "'f \<Rightarrow> ('f, 's, 'r) code \<Rightarrow> ('f, 's, 'r) code" where
  "with_fs f body c s =
     (case body (c\<lparr>current_fs := Some f\<rparr>) s of
        (r, c', s') \<Rightarrow> (r, c'\<lparr>current_fs := current_fs c\<rparr>, s'))"

definition sandbox_context :: "policy \<Rightarrow> 'f option \<Rightarrow> nat \<Rightarrow> ('f, 's, 'r) code \<Rightarrow> ('f, 's, 'r) code" where
  "sandbox_context pol fs clk body =
     (let inner = (case fs of Some f \<Rightarrow> with_fs f body | None \<Rightarrow> body);
          denied = (if allow_network pol then inner else deny_network_scope inner)
      in with_clock clk denied)"

text \<open>
  The arguments of an execution and what the sandbox relies on: parsing,
  compiling, running a compiled tree on a namespace in a context, and settling
  lost writes. \<open>xa_sys\<close>: the caller passed \<open>stdin\<close> or \<open>argv\<close>.
\<close>

record ('v, 'p) exec_args =
  xa_source :: string
  xa_namespace :: "(string, 'v) dict"
  xa_modules :: "(arg \<times> bool) list"
  xa_echo :: "arg option"
  xa_keep :: arg
  xa_timeout :: arg
  xa_sys :: bool

record ('v, 'f, 'p) machine =
  mc_isidentifier :: "string \<Rightarrow> bool"
  mc_parse :: "string \<Rightarrow> node res"
  mc_minor :: nat
  mc_compile :: "node \<Rightarrow> unit res"
  mc_run :: "node \<Rightarrow> ('f, (string, 'v) dict \<times> 'p exec_output, unit) code"
  mc_module_ref :: "'v \<Rightarrow> string option"
  mc_import :: "string \<Rightarrow> string option \<Rightarrow> 'v res"
  mc_settle :: "pyerr option \<Rightarrow> out_buffer \<Rightarrow> pyerr option \<times> out_buffer"
  mc_exec_module :: "'v \<Rightarrow> bool"
  mc_str :: "'v \<Rightarrow> string option"
  mc_top_level_await :: "node \<Rightarrow> bool"

text \<open>An error before anything ran.\<close>

definition error_result :: "pyerr \<Rightarrow> ('v, 'p) sb_result" where
  "error_result e = \<lparr>sr_namespace = [], sr_stdout = [], sr_stderr = [], sr_ticks = 0, sr_rendered = [],
     sr_print_count = 0, sr_prints = [], sr_dropped = [], sr_error = Some e\<rparr>"

text \<open>
  \<open>_await_hint\<close>: the compiler's complaint says that the module awaits at its top,
  where that is what was refused.
\<close>

definition await_hint :: "bool \<Rightarrow> pyerr \<Rightarrow> pyerr" where
  "await_hint top_level_await e =
     (if top_level_await
      then Exc SyntaxError (err_msg e @ '': top-level await needs an async execution (aexec runs it; exec does not)'')
      else e)"

text \<open>After the code: lost writes are settled, with what they add to standard error, then the result is built.\<close>

definition settle_output :: "('v, 'f, 'p) machine \<Rightarrow> pyerr option \<Rightarrow> 'p exec_output \<Rightarrow> pyerr option \<times> 'p exec_output" where
  "settle_output mc raised cap =
     (case mc_settle mc raised (cp_stderr cap) of (e, buf) \<Rightarrow> (e, cap\<lparr>cp_stderr := buf\<rparr>))"

definition finish_exec ::
  "('v, 'f, 'p) machine \<Rightarrow> (string, 'v) dict \<Rightarrow> (string, 'v) dict \<Rightarrow> string set option \<Rightarrow> 'p exec_output \<Rightarrow> pyerr option \<Rightarrow>
   node \<Rightarrow> string option \<Rightarrow> 'f ctx \<Rightarrow> sb_state \<times> (string, 'm) dict \<Rightarrow>
   ('v, 'p) sb_result res \<times> node option \<times> 'f ctx \<times> sb_state \<times> (string, 'm) dict" where
  "finish_exec mc injected ns keep cap raised tree home c st =
     (case settle_output mc raised cap of (error, cap') \<Rightarrow>
        (case build_result (mc_exec_module mc) injected ns [] keep cap' error home st of
           (r, st') \<Rightarrow> (Inr r, Some tree, c, st')))"

text \<open>The arguments every execution checks first: what to keep, and its own timeout.\<close>

definition validate_call :: "(string \<Rightarrow> bool) \<Rightarrow> policy \<Rightarrow> ('v, 'p) exec_args \<Rightarrow> (string set option \<times> real option) res" where
  "validate_call isidentifier pol xa =
     rbind (case xa_echo xa of None \<Rightarrow> Inr () | Some a \<Rightarrow> validate_echo a) (\<lambda>_.
       rbind (validate_keep (xa_keep xa)) (\<lambda>keep.
         rbind (validate_timeout (xa_timeout xa)) (\<lambda>tmo.
           rbind (validate_modules isidentifier pol (xa_modules xa)) (\<lambda>_. Inr (keep, tmo)))))"

definition effective_echo :: "string \<Rightarrow> ('v, 'p) exec_args \<Rightarrow> string" where
  "effective_echo echo xa = (case xa_echo xa of None \<Rightarrow> echo | Some a \<Rightarrow> arg_str a)"

text \<open>
  \<open>_compile_and_setup\<close>: compiling comes first, so a tree the compiler refuses starts
  no execution and leaves a cancellation pending; then the flag is cleared, the module
  and the namespace are made, and the references in it resolved.
\<close>

definition compile_and_setup ::
  "('v, 'f, 'p) machine \<Rightarrow> 'v makers \<Rightarrow> policy \<Rightarrow> string \<Rightarrow> 'm \<Rightarrow> node \<Rightarrow> ('v, 'p) exec_args \<Rightarrow> sb_state \<times> (string, 'm) dict \<Rightarrow>
   ((string, 'v) dict \<times> (string, 'v) dict \<times> string option) res \<times> sb_state \<times> (string, 'm) dict" where
  "compile_and_setup mc mk pol echo m tree xa st =
     (case mc_compile mc tree of
        Inl e \<Rightarrow> (Inl e, st)
      | Inr _ \<Rightarrow>
          (let own = next_home (fst st);
               home = execution_name (mc_str mc) own (xa_namespace xa);
               st1 = start_execution m (home = Some own) (clear_cancel st);
               (built, injected) = build_namespace (xa_namespace xa) (execution_parts mk pol echo (xa_sys xa) own)
           in (rbind (resolve_module_refs (mc_module_ref mc) (mc_import mc) built) (\<lambda>ns. Inr (ns, injected, home)), st1)))"

text \<open>
  \<open>Sandbox.exec\<close>. \<open>Inl\<close> is an exception to the host: an invalid argument, or a
  \<open>KeyboardInterrupt\<close>. The second component is the tree that was run, if any.
\<close>

definition sandbox_exec ::
  "('v, 'f, 'p) machine \<Rightarrow> policy \<Rightarrow> 'f option \<Rightarrow> string \<Rightarrow> nat \<Rightarrow> 'v makers \<Rightarrow> 'm \<Rightarrow> ('v, 'p) exec_args \<Rightarrow>
   'f ctx \<Rightarrow> sb_state \<times> (string, 'm) dict \<Rightarrow>
   ('v, 'p) sb_result res \<times> node option \<times> 'f ctx \<times> sb_state \<times> (string, 'm) dict" where
  "sandbox_exec mc pol fs echo clk mk m xa c st =
     (case validate_call (mc_isidentifier mc) pol xa of
        Inl e \<Rightarrow> (Inl e, None, c, st)
      | Inr (keep, tmo) \<Rightarrow>
     (case parse_and_rewrite (mc_parse mc) (mc_minor mc) (effective_echo echo xa) (xa_source xa) of
        Inl e \<Rightarrow> (Inl e, None, c, st)
      | Inr (Refused e) \<Rightarrow> (Inr (error_result e), None, c, st)
      | Inr (Prepared tree) \<Rightarrow>
     (case compile_and_setup mc mk pol (effective_echo echo xa) m tree xa st of
        (Inl e, st1) \<Rightarrow>
          (if exc_caught_by (err_class e) SyntaxError
           then Inr (error_result (await_hint (mc_top_level_await mc tree) e)) else Inl e, None, c, st1)
      | (Inr (ns, injected, home), st1) \<Rightarrow>
     (case sandbox_context pol fs clk (mc_run mc tree) c (ns, nothing_captured pol) of
        (Inr _, c', (ns', cap)) \<Rightarrow> finish_exec mc injected ns' keep cap None tree home c' st1
      | (Inl e, c', (ns', cap)) \<Rightarrow>
          if exc_caught_by (err_class e) KeyboardInterrupt then (Inl e, Some tree, c', st1)
          else finish_exec mc injected ns' keep cap (Some e) tree home c' st1))))"

section \<open>Laws of the namespace\<close>

lemma provide_lookup [simp]:
  "dget (fst (provide k v p)) x = (if x = k then Some v else dget (fst p) x)"
  "dget (snd (provide k v p)) x = (if x = k then Some v else dget (snd p) x)"
  by (simp_all add: provide_def split: prod.splits)

lemma provide_default_lookup:
  "dget (fst (provide_default kv p)) x =
     (if x = fst kv \<and> dget (fst p) x = None then Some (snd kv) else dget (fst p) x)"
  "dget (snd (provide_default kv p)) x =
     (if x = fst kv then dget (fst (provide_default kv p)) x else dget (snd p) x)"
  by (auto simp: provide_default_def Let_def split: prod.splits option.splits)

lemma provide_defaults_lookup:
  "(dget (fst p) x \<noteq> None \<longrightarrow> dget (fst (fold provide_default reg p)) x = dget (fst p) x)
   \<and> (x \<notin> fst ` set reg \<longrightarrow> dget (fst (fold provide_default reg p)) x = dget (fst p) x
        \<and> dget (snd (fold provide_default reg p)) x = dget (snd p) x)
   \<and> (x \<in> fst ` set reg \<longrightarrow>
        dget (snd (fold provide_default reg p)) x = dget (fst (fold provide_default reg p)) x)"
proof (induction reg arbitrary: p)
  case (Cons kv reg)
  let ?q = "provide_default kv p"
  have keep: "dget (fst ?q) x \<noteq> None \<Longrightarrow> dget (fst (fold provide_default reg ?q)) x = dget (fst ?q) x"
    using Cons.IH [of ?q] by blast
  show ?case
  proof (cases "x = fst kv")
    case True
    then have "dget (snd ?q) x = dget (fst ?q) x" "dget (fst ?q) x \<noteq> None"
      by (auto simp: provide_default_lookup)
    with True keep Cons.IH [of ?q] show ?thesis by (auto simp: provide_default_lookup)
  next
    case False
    then have "dget (snd ?q) x = dget (snd p) x" "dget (fst ?q) x = dget (fst p) x"
      by (auto simp: provide_default_lookup)
    with False Cons.IH [of ?q] show ?thesis by auto
  qed
qed simp

text \<open>The names the sandbox binds itself in a namespace, beside internal ones.\<close>

definition provided_names :: "'v ns_parts \<Rightarrow> string set" where
  "provided_names np =
     fst ` set (np_registered np) \<union> {''print'', ''help''}
     \<union> (case np_sys np of Some _ \<Rightarrow> {''sys'', ''input''} | None \<Rightarrow> {})"

text \<open>The parts are as the sandbox makes them: its module's own entries and the gates have internal names.\<close>

definition parts_ok :: "'v ns_parts \<Rightarrow> bool" where
  "parts_ok np \<longleftrightarrow>
     set (map fst (np_module np)) \<subseteq> set INTERNAL_KEYS
     \<and> list_all (\<lambda>k. startswith k ''__st_'') (map fst (np_gates np))"

text \<open>
  Every gate has a reserved name: it never shows in a result, and an assignment to it
  or a deletion of it is refused.
\<close>

lemma gates_reserved:
  assumes "(n, g) \<in> set (make_gates impl)"
  shows "\<not> visible_name n \<and> isl (check_name_store n) \<and> isl (check_name_del n)"
proof -
  have st: "startswith n ''__st_''" using assms by (auto simp: make_gates_def GATE_NAMES_def startswith_def)
  then show ?thesis by (simp add: visible_name_def check_name_store_def check_name_del_def refuse_def)
qed

lemma execution_parts_ok: "parts_ok (execution_parts mk pol echo given own)"
  by (auto simp: parts_ok_def execution_parts_def module_entries_def INTERNAL_KEYS_def make_gates_def GATE_NAMES_def
      startswith_def)

lemma execution_parts_distinct: "distinct (map fst (np_module (execution_parts mk pol echo given own)))"
  by (simp add: execution_parts_def module_entries_def)

text \<open>The names an execution provides, as the policy and the call give them.\<close>

definition registered_names :: "policy \<Rightarrow> string set" where
  "registered_names pol = fst ` set (pol_functions pol) \<union> fst ` set (pol_classes pol) \<union> fst ` set (pol_modules pol)"

lemma execution_provides:
  "provided_names (execution_parts mk pol echo given own) =
     registered_names pol \<union> {''print'', ''help''} \<union> (if given then {''sys'', ''input''} else {})"
  by (auto simp: provided_names_def execution_parts_def registered_values_def registered_names_def image_iff
      split: prod.splits) force+

lemma dget_dupdate_other: "x \<notin> fst ` set e \<Longrightarrow> dget (dupdate e d) x = dget d x"
proof -
  assume "x \<notin> fst ` set e"
  then have "dget (rev e) x = None" by (simp add: map_of_eq_None_iff)
  then show ?thesis by (simp add: dget_dupdate)
qed

text \<open>At a name, a pair is as it was outside a set of names, and injected as bound inside it.\<close>

definition tracked :: "'v option \<Rightarrow> string \<Rightarrow> string set \<Rightarrow> 'v ns_pair \<Rightarrow> bool" where
  "tracked old x S p \<longleftrightarrow>
     (if x \<in> S then dget (snd p) x = dget (fst p) x else dget (fst p) x = old \<and> dget (snd p) x = None)"

lemma tracked_provide: "tracked old x S p \<Longrightarrow> tracked old x (insert k S) (provide k v p)"
  by (simp add: tracked_def)

lemma tracked_provide_away: "tracked old x S p \<Longrightarrow> x \<noteq> k \<Longrightarrow> tracked old x S (provide k v p)"
  by (simp add: tracked_def)

lemma tracked_defaults:
  "tracked (dget ns x) x (fst ` set reg) (fold provide_default reg (ns, []))"
  using provide_defaults_lookup [of "(ns, [])" x reg] by (auto simp: tracked_def)

lemma build_namespace_lookup:
  assumes "parts_ok np" "visible_name x"
  shows "(x \<notin> provided_names np \<longrightarrow>
      dget (fst (build_namespace namespace np)) x = dget (dupdate namespace []) x
      \<and> dget (snd (build_namespace namespace np)) x = None)
    \<and> (x \<in> provided_names np \<longrightarrow>
      dget (snd (build_namespace namespace np)) x = dget (fst (build_namespace namespace np)) x)"
proof -
  define ns where "ns = dupdate (np_gates np) (dset ''__builtins__'' (np_builtins np) (dupdate namespace (np_module np)))"
  define p where "p = fold provide_default (np_registered np) (ns, [])"
  have gates: "x \<notin> fst ` set (np_gates np)"
    using assms by (auto simp: parts_ok_def visible_name_def list_all_iff)
  have builtins: "x \<noteq> ''__builtins__''" using assms(2) by (auto simp: visible_name_def INTERNAL_KEYS_def)
  have module: "dget (np_module np) x = None"
    using assms by (auto simp: parts_ok_def visible_name_def map_of_eq_None_iff)
  have display: "x \<noteq> ''__st_display__''" using assms(2) by (auto simp: visible_name_def startswith_def)
  have ns: "dget ns x = dget (dupdate namespace []) x"
    using gates builtins module by (simp add: ns_def dget_dupdate_other) (simp add: dget_dupdate split: option.splits)
  define q where "q = provide ''print'' (np_print np) p"
  define r where "r = (case np_display np of Some d \<Rightarrow> provide ''__st_display__'' d q | None \<Rightarrow> q)"
  define u where "u = provide ''help'' (np_help np) r"
  have bn: "build_namespace namespace np =
      (case np_sys np of Some (sy, inp) \<Rightarrow> provide ''input'' inp (provide ''sys'' sy u) | None \<Rightarrow> u)"
    unfolding build_namespace_def u_def r_def q_def p_def ns_def Let_def by (rule refl)
  have "tracked (dget ns x) x (insert ''print'' (fst ` set (np_registered np))) q"
    unfolding q_def p_def by (intro tracked_provide tracked_defaults)
  then have "tracked (dget ns x) x (insert ''print'' (fst ` set (np_registered np))) r"
    unfolding r_def using display by (auto intro: tracked_provide_away split: option.split)
  then have "tracked (dget ns x) x (insert ''help'' (insert ''print'' (fst ` set (np_registered np)))) u"
    unfolding u_def by (rule tracked_provide)
  note hlp = this
  have "tracked (dget ns x) x (provided_names np) (build_namespace namespace np)"
  proof (cases "np_sys np")
    case None
    then have "provided_names np = insert ''help'' (insert ''print'' (fst ` set (np_registered np)))"
      by (auto simp: provided_names_def)
    with hlp None show ?thesis by (simp add: bn)
  next
    case (Some sys)
    obtain sy inp where si: "sys = (sy, inp)" by fastforce
    from tracked_provide [OF tracked_provide [OF hlp, of "''sys''" sy], of "''input''" inp]
    have "tracked (dget ns x) x
        (insert ''input'' (insert ''sys'' (insert ''help'' (insert ''print'' (fst ` set (np_registered np))))))
        (build_namespace namespace np)" by (simp add: bn Some si)
    moreover have "provided_names np =
        insert ''input'' (insert ''sys'' (insert ''help'' (insert ''print'' (fst ` set (np_registered np)))))"
      by (auto simp: provided_names_def Some)
    ultimately show ?thesis by simp
  qed
  then show ?thesis by (auto simp: tracked_def ns split: if_splits)
qed

lemma dget_filter_distinct:
  "distinct (map fst d) \<Longrightarrow>
     dget (filter (\<lambda>(k, v). P k v) d) x = (case dget d x of Some v \<Rightarrow> if P x v then Some v else None | None \<Rightarrow> None)"
proof (induction d)
  case (Cons kv d)
  obtain k v where kv: "kv = (k, v)" by fastforce
  show ?case
  proof (cases "x = k")
    case True
    then have "dget d x = None" using Cons.prems kv by (simp add: map_of_eq_None_iff)
    with True Cons kv show ?thesis by auto
  qed (use Cons kv in auto)
qed simp

lemma result_namespace_lookup:
  assumes "distinct (map fst ns)"
  shows "dget (result_namespace is_em injected ns [] None) k =
    (case dget ns k of
       Some v \<Rightarrow> if visible_name k \<and> \<not> is_em v \<and> dget injected k \<noteq> Some v then Some v else None
     | None \<Rightarrow> None)"
  using dget_filter_distinct [OF assms, of "\<lambda>k v. visible_name k \<and> \<not> is_em v \<and> dget injected k \<noteq> Some v" k]
  by (simp add: result_namespace_def dupdate_def)

lemma distinct_dupdate: "distinct (map fst d) \<Longrightarrow> distinct (map fst (dupdate e d))"
  by (induction e arbitrary: d) (auto simp: dupdate_def simp del: distinct_map)

lemma distinct_provide:
  "distinct (map fst (fst p)) \<Longrightarrow> distinct (map fst (fst (provide k v p)))"
  by (cases p) (simp add: provide_def)

lemma distinct_provide_defaults:
  "distinct (map fst (fst p)) \<Longrightarrow> distinct (map fst (fst (fold provide_default reg p)))"
proof (induction reg arbitrary: p)
  case (Cons kv reg)
  have "distinct (map fst (fst (provide_default kv p)))"
    using Cons.prems by (cases p) (simp add: provide_default_def dsetdefault_def Let_def)
  from Cons.IH [OF this] show ?case by simp
qed simp

lemma distinct_build_namespace:
  assumes "distinct (map fst (np_module np))"
  shows "distinct (map fst (fst (build_namespace namespace np)))"
proof -
  have "distinct (map fst (dupdate (np_gates np)
      (dset ''__builtins__'' (np_builtins np) (dupdate namespace (np_module np)))))"
    using assms by (intro distinct_dupdate distinct_keys_dset)
  then show ?thesis
    by (cases "np_sys np"; cases "np_display np")
      (auto simp: build_namespace_def Let_def intro!: distinct_provide distinct_provide_defaults)
qed

section \<open>Laws of the pipeline\<close>

text \<open>What the parser is documented to give: trees of the grammar, without the rewriter's own nodes.\<close>

definition parses_source :: "(string \<Rightarrow> node res) \<Rightarrow> bool" where
  "parses_source parse \<longleftrightarrow>
     (\<forall>src t t' fl. parse src = Inr t \<longrightarrow> take_future t = Inr (t', fl) \<longrightarrow>
        source_tree t' \<and> fl AND 0x1000000 = 0)"

lemma prepared_gated:
  assumes "parses_source parse" "parse_and_rewrite parse minor echo src = Inr (Prepared t)"
  shows "gated t"
proof -
  from assms(2) obtain tree flags where pt: "rbind (parse src) take_future = Inr (tree, flags)"
    by (auto simp: parse_and_rewrite_def split: sum.splits if_splits)
  with assms(1) have tree: "source_tree tree" "flags AND 0x1000000 = 0"
    unfolding parses_source_def by (auto simp: res_simps)
  from assms(2) pt obtain r k where
    v: "visit \<lparr>rw_echo = echo, future_flags = flags, py_minor = minor\<rparr> tree 0 = Inr (r, k)" and t: "t = expr_of r"
    by (auto simp: parse_and_rewrite_def split: sum.splits if_splits)
  have "res_gated r" by (rule visit_gated [OF _ tree(1) v]) (simp add: postponed_def tree(2))
  then show ?thesis by (simp add: t)
qed

lemma validate_call_valid:
  assumes "validate_call isid pol xa = Inr (keep, tmo)"
  shows "validate_keep (xa_keep xa) = Inr keep \<and> validate_timeout (xa_timeout xa) = Inr tmo
    \<and> validate_modules isid pol (xa_modules xa) = Inr () \<and> (\<forall>s. tmo = Some s \<longrightarrow> 0 < s)"
  using assms
  by (auto simp: validate_call_def rbind_eq_Inr_iff validate_timeout_def positive_seconds_def
      split: arg.splits option.splits if_splits)

lemma sandbox_exec_ran:
  assumes "sandbox_exec mc pol fs echo clk mk m xa c st = (r, Some tree, c', st')"
  shows "parse_and_rewrite (mc_parse mc) (mc_minor mc) (effective_echo echo xa) (xa_source xa) = Inr (Prepared tree)
    \<and> (\<exists>keep tmo. validate_call (mc_isidentifier mc) pol xa = Inr (keep, tmo))"
proof (cases "validate_call (mc_isidentifier mc) pol xa")
  case (Inr kt)
  obtain keep tmo where kt: "kt = (keep, tmo)" by fastforce
  show ?thesis
  proof (cases "parse_and_rewrite (mc_parse mc) (mc_minor mc) (effective_echo echo xa) (xa_source xa)")
    case pr: (Inr pr)
    with Inr kt assms show ?thesis
      by (cases pr) (auto simp: sandbox_exec_def finish_exec_def settle_output_def split: sum.splits prod.splits if_splits)
  qed (use Inr kt assms in \<open>simp add: sandbox_exec_def\<close>)
qed (use assms in \<open>simp add: sandbox_exec_def\<close>)

text \<open>How an execution can go: invalid arguments, stopped before its code, interrupted, or finished.\<close>

lemma sandbox_exec_cases:
  assumes "sandbox_exec mc pol fs echo clk mk m xa c st = (out, tr, c', st')"
  obtains (invalid) e where "validate_call (mc_isidentifier mc) pol xa = Inl e" "out = Inl e" "tr = None" "c' = c" "st' = st"
  | (stopped) kt where "validate_call (mc_isidentifier mc) pol xa = Inr kt" "tr = None" "c' = c"
      "(\<exists>e. out = Inl e) \<or> (\<exists>e. out = Inr (error_result e))"
  | (interrupted) kt e tree ns ns' cap where "validate_call (mc_isidentifier mc) pol xa = Inr kt" "out = Inl e" "tr = Some tree"
      "exc_caught_by (err_class e) KeyboardInterrupt"
      "sandbox_context pol fs clk (mc_run mc tree) c (ns, nothing_captured pol) = (Inl e, c', ns', cap)"
  | (finished) keep tmo tree ns injected home res ns' cap st1
    where "validate_call (mc_isidentifier mc) pol xa = Inr (keep, tmo)"
      "sandbox_context pol fs clk (mc_run mc tree) c (ns, nothing_captured pol) = (res, c', ns', cap)"
      "\<forall>e. res = Inl e \<longrightarrow> \<not> exc_caught_by (err_class e) KeyboardInterrupt"
      "finish_exec mc injected ns' keep cap (case res of Inl e \<Rightarrow> Some e | Inr _ \<Rightarrow> None) tree home c' st1 = (out, tr, c', st')"
proof (cases "validate_call (mc_isidentifier mc) pol xa")
  case (Inl e)
  with assms show thesis by (intro invalid [of e]) (simp_all add: sandbox_exec_def)
next
  case (Inr kt)
  obtain keep tmo where kt: "kt = (keep, tmo)" by fastforce
  note valid = Inr [unfolded kt]
  consider (none) "tr = None" "c' = c" "(\<exists>e. out = Inl e) \<or> (\<exists>e. out = Inr (error_result e))"
    | (run) tree ns injected home st1 where
      "(case sandbox_context pol fs clk (mc_run mc tree) c (ns, nothing_captured pol) of
          (Inr _, c', (ns', cap)) \<Rightarrow> finish_exec mc injected ns' keep cap None tree home c' st1
        | (Inl e, c', (ns', cap)) \<Rightarrow>
            if exc_caught_by (err_class e) KeyboardInterrupt then (Inl e, Some tree, c', st1)
            else finish_exec mc injected ns' keep cap (Some e) tree home c' st1) = (out, tr, c', st')"
    using assms unfolding sandbox_exec_def valid
    by (auto split: sum.splits prod.splits prepared.splits if_splits)
  then show thesis
  proof cases
    case none
    with valid stopped show thesis by blast
  next
    case run
    obtain res c1 ns' cap where ctx: "sandbox_context pol fs clk (mc_run mc tree) c (ns, nothing_captured pol) = (res, c1, ns', cap)"
      by (metis prod_cases4)
    have fin: "c1 = c'" if "finish_exec mc injected ns' keep cap r tree home c1 st1 = (out, tr, c', st')" for r
      using that by (simp add: finish_exec_def split: prod.splits)
    show thesis
    proof (cases res)
      case (Inl e)
      show thesis
      proof (cases "exc_caught_by (err_class e) KeyboardInterrupt")
        case True
        with run ctx Inl valid interrupted [of "(keep, tmo)" e tree ns ns' cap] show thesis by simp
      next
        case False
        with run ctx Inl have "finish_exec mc injected ns' keep cap (Some e) tree home c1 st1 = (out, tr, c', st')" by simp
        with fin [OF this] False ctx Inl valid finished [of keep tmo tree ns "Inl e" ns' cap injected home st1] show thesis by simp
      qed
    next
      case (Inr u)
      with run ctx have "finish_exec mc injected ns' keep cap None tree home c1 st1 = (out, tr, c', st')" by simp
      with fin [OF this] ctx Inr valid finished [of keep tmo tree ns "Inr u" ns' cap injected home st1] show thesis by simp
    qed
  qed
qed

lemma dget_dupdate_distinct:
  "distinct (map fst e) \<Longrightarrow> dget (dupdate e d) k = (case dget e k of Some v \<Rightarrow> Some v | None \<Rightarrow> dget d k)"
proof -
  assume "distinct (map fst e)"
  then have "map_of (rev e) = map_of e" by (subst map_of_inject_set) (simp_all add: rev_map [symmetric])
  then show ?thesis by (simp add: dget_dupdate)
qed

lemma dget_dupdate_Nil: "distinct (map fst e) \<Longrightarrow> dget (dupdate e []) k = dget e k"
  by (simp add: dget_dupdate_distinct split: option.splits)

lemma latest_home_registered:
  assumes "home_inv (sb, mods)"
  shows "dget (snd (start_execution m True (sb, mods))) (sb_module_name (fst (start_execution m True (sb, mods)))) = Some m"
proof -
  define name where "name = home_name (sb_base sb) (sb_executions sb + 1)"
  define hs where "hs = sb_homes sb @ [name]"
  from assms obtain ks where ks: "sb_homes sb = map (home_name (sb_base sb)) ks"
    "\<forall>i \<in> set ks. i \<le> sb_executions sb" "length ks \<le> HOMES"
    by (auto simp: home_inv_def)
  have "name \<notin> set (sb_homes sb)" using ks(1,2) by (auto simp: name_def)
  moreover have "set (take (length hs - HOMES) hs) \<subseteq> set (sb_homes sb)"
    using ks(1,3) by (auto simp: hs_def HOMES_def take_map dest: in_set_takeD)
  ultimately have "dget (snd (evict hs (dset name m mods))) name = Some m"
    using evict_spec [of hs "dset name m mods" name] by auto
  then show ?thesis by (auto simp: start_execution_def Let_def name_def hs_def split: prod.splits)
qed

lemma sandbox_context_eq:
  "sandbox_context pol fs clk body c s =
     (let c0 = c\<lparr>current_clock := Some clk,
                network_allowed := (allow_network pol \<and> network_allowed c),
                current_fs := (case fs of Some f \<Rightarrow> Some f | None \<Rightarrow> current_fs c)\<rparr>
      in case body c0 s of
           (r, c1, s1) \<Rightarrow>
             (r, c1\<lparr>current_clock := current_clock c,
                   network_allowed := (if allow_network pol then network_allowed c1 else network_allowed c),
                   current_fs := (case fs of Some f \<Rightarrow> current_fs c | None \<Rightarrow> current_fs c1)\<rparr>, s1))"
  by (cases fs; cases "allow_network pol")
    (simp_all add: sandbox_context_def with_clock_def with_fs_def deny_network_scope_def with_network_def Let_def
      split: prod.splits)

lemma context_restores_clock:
  "sandbox_context pol fs clk body c s = (r, c1, s1) \<Longrightarrow> current_clock c1 = current_clock c"
  by (auto simp: sandbox_context_eq Let_def split: prod.splits)

interpretation clock_scope: restoring "on_pair (with_clock clk)" "\<lambda>cs. current_clock (fst cs)" for clk
  by unfold_locales (simp add: on_pair_def with_clock_def split: prod.splits)

interpretation fs_scope: restoring "on_pair (with_fs f)" "\<lambda>cs. current_fs (fst cs)" for f
  by unfold_locales (simp add: on_pair_def with_fs_def split: prod.splits)

interpretation execution_scope: restoring "on_pair (sandbox_context pol (Some f) clk)"
  "\<lambda>cs. (current_clock (fst cs), current_fs (fst cs), allow_network pol \<or> network_allowed (fst cs))" for pol f clk
  by unfold_locales (auto simp: on_pair_def sandbox_context_eq Let_def split: prod.splits)

text \<open>Any number of executions leave the caller's clock and filesystem, and under a policy without network its network.\<close>

lemma executions_restore_context:
  assumes "\<not> allow_network pol"
  shows "network_allowed (fst (fold (\<lambda>body cs. snd (on_pair (sandbox_context pol (Some f) clk) body cs)) bodies (c, s)))
     = network_allowed c"
  using execution_scope.one_after_another [of pol f clk bodies "(c, s)"] assms by simp

section \<open>Properties\<close>


text \<open>
  C30: whatever executions a sandbox has had, at most \<open>HOMES\<close> of its modules are in
  \<open>sys.modules\<close>, they are exactly the ones it keeps count of, an execution's own
  module is there when its code starts, and leaving the sandbox removes them all.
\<close>

theorem home_registry:
  assumes "home_reach k (sb, mods)"
  shows "length (sb_homes sb) \<le> HOMES \<and> distinct (sb_homes sb)
    \<and> {n. own_module sb n \<and> dget mods n \<noteq> None} = set (sb_homes sb)
    \<and> dget (snd (start_execution m True (sb, mods))) (sb_module_name (fst (start_execution m True (sb, mods)))) = Some m
    \<and> {n. own_module sb n \<and> dget (snd (sandbox_exit (sb, mods))) n \<noteq> None} = {}"
proof -
  have inv: "home_inv (sb, mods)" using home_reach_inv [OF assms] .
  then obtain ks where ks: "sb_homes sb = map (home_name (sb_base sb)) ks" "sorted_wrt (<) ks" "length ks \<le> HOMES"
    and reg: "\<And>n. own_module sb n \<Longrightarrow> dget mods n \<noteq> None \<longleftrightarrow> n \<in> set (sb_homes sb)"
    by (auto simp: home_inv_def)
  have own: "own_module sb n" if "n \<in> set (sb_homes sb)" for n using that ks(1) by (auto simp: own_module_def)
  obtain hs mods' where f: "forget (sb_homes sb) mods = (hs, mods')" by fastforce
  have "dget mods' n = None" if "own_module sb n" for n
    using forget_spec [of "sb_homes sb" mods n] f reg [OF that] by (cases "dget mods n") auto
  then have "{n. own_module sb n \<and> dget (snd (sandbox_exit (sb, mods))) n \<noteq> None} = {}"
    using f by (auto simp: sandbox_exit_def)
  moreover have "{n. own_module sb n \<and> dget mods n \<noteq> None} = set (sb_homes sb)"
    using reg own by blast
  moreover have "length (sb_homes sb) \<le> HOMES" "distinct (sb_homes sb)"
    using ks strict_sorted_distinct_homes [OF ks(2)] by simp_all
  ultimately show ?thesis using latest_home_registered [OF inv] by blast
qed


text \<open>
  C39: an execution that ran out of memory hands nothing of what it built to the
  caller: no value, no print snapshot, only the names that were withheld, its output and the
  error; and its module is no longer registered.
\<close>

theorem memory_failure_withholds:
  assumes "is_memory_error error" "home \<in> set (sb_homes sb)" "home_inv (sb, mods)"
    and "build_result is_em injected ns extra keep cap error (Some home) (sb, mods) = (r, sb', mods')"
  shows "sr_namespace r = [] \<and> sr_prints r = [] \<and> sr_error r = error
    \<and> sr_stdout r = buf_getvalue (cp_stdout cap) \<and> sr_stderr r = buf_getvalue (cp_stderr cap)
    \<and> sr_dropped r = map fst (result_namespace is_em injected ns extra keep)
    \<and> home \<notin> set (sb_homes sb') \<and> dget mods' home = None"
proof -
  from assms(3) have "distinct (sb_homes sb)"
    using strict_sorted_distinct_homes by (auto simp: home_inv_def)
  with assms show ?thesis by (auto simp: build_result_def forget_home_def Let_def set_remove1_eq)
qed


text \<open>
  Sandboxed code runs with the execution's clock, its filesystem and the network
  denied unless the policy allows it; afterwards, however the code ended and
  whatever it did to them, the caller has its own again.
\<close>

theorem code_runs_confined:
  "sandbox_context pol fs clk body c s =
     (let c0 = c\<lparr>current_clock := Some clk,
                network_allowed := (allow_network pol \<and> network_allowed c),
                current_fs := (case fs of Some f \<Rightarrow> Some f | None \<Rightarrow> current_fs c)\<rparr>
      in case body c0 s of
           (r, c1, s1) \<Rightarrow>
             (r, c1\<lparr>current_clock := current_clock c,
                   network_allowed := (if allow_network pol then network_allowed c1 else network_allowed c),
                   current_fs := (case fs of Some f \<Rightarrow> current_fs c | None \<Rightarrow> current_fs c1)\<rparr>, s1))"
  by (rule sandbox_context_eq)

section \<open>A finding\<close>

text \<open>
  A value the embedder passes under a registered name is not given back unless the
  code rebinds it: a rebinding of such a name, returned by one execution and
  carried into the next, is gone after it.
\<close>

lemma registered_name_rebinding_lost:
  assumes "build_namespace namespace (execution_parts mk pol echo given own) = (ns, injected)"
    and "k \<in> registered_names pol" "dget namespace k = Some v"
  shows "dget (result_namespace is_em injected ns [] None) k = None"
proof (cases "visible_name k")
  case True
  have "k \<in> provided_names (execution_parts mk pol echo given own)" using assms(2) by (simp add: execution_provides)
  with build_namespace_lookup [OF execution_parts_ok True, of mk pol echo given own namespace] assms(1) show ?thesis
    using result_namespace_lookup [OF distinct_build_namespace [OF execution_parts_distinct], of is_em
      injected namespace mk pol echo given own k] by (auto split: option.splits)
next
  case False
  with assms(1) show ?thesis
    using result_namespace_lookup [OF distinct_build_namespace [OF execution_parts_distinct], of is_em
      injected namespace mk pol echo given own k] by (auto split: option.splits)
qed

text \<open>A function is bound with a privilege only when the policy as a whole counts it.\<close>

lemma bound_privileges_counted:
  assumes "(n, r) \<in> set (pol_functions pol)"
  shows "(fr_network r \<longrightarrow> needs_network pol) \<and> (fr_host_fs r \<longrightarrow> needs_host_fs pol)"
  using assms by (auto simp: needs_network_def needs_host_fs_def list_ex_iff)

text \<open>
  A cancellation that arrives between two executions is lost: the next one clears the
  flag before its code runs. Source that does not compile leaves it.
\<close>

lemma setup_clears_cancel:
  "\<not> sb_cancelled (fst (snd (compile_and_setup mc mk pol echo m tree xa st))) \<or> isl (mc_compile mc tree)"
  by (cases st) (auto simp: compile_and_setup_def clear_cancel_def start_execution_def Let_def isl_def
      split: sum.splits prod.splits)

section \<open>Concrete executions\<close>

text \<open>Values are numbers; a gate, a host object and a wrapper are told apart.\<close>

definition ex_makers :: "nat makers" where
  "ex_makers = \<lparr>mk_string = length, mk_none = 0, mk_builtins = 2, mk_gate = (\<lambda>n. 100 + length n),
     mk_object = (\<lambda>i. 1000 + i), mk_privileged = (\<lambda>n f v. v + 1000), mk_host_time = (\<lambda>v. v + 10000),
     mk_gated_type = (\<lambda>i. 2000 + i), mk_print = 5, mk_display = 10, mk_help = 6, mk_sys = 7, mk_input = 8\<rparr>"

definition ex_machine :: "(nat, nat, nat) machine" where
  "ex_machine = \<lparr>mc_isidentifier = (\<lambda>_. True), mc_parse = (\<lambda>_. Inr ex_loop), mc_minor = 12,
     mc_compile = (\<lambda>_. Inr ()), mc_run = (\<lambda>t c s. (Inr (), c, s)), mc_module_ref = (\<lambda>_. None),
     mc_import = (\<lambda>n _. Inl (Exc ImportError n)), mc_settle = Pair, mc_exec_module = (\<lambda>_. False),
     mc_str = (\<lambda>_. None), mc_top_level_await = (\<lambda>_. False)\<rparr>"

definition ex_args :: "(nat, nat) exec_args" where
  "ex_args = \<lparr>xa_source = ''while True: pass'', xa_namespace = [(''x'', 9), (''math'', 8)], xa_modules = [],
     xa_echo = None, xa_keep = ANone, xa_timeout = AInt 5, xa_sys = False\<rparr>"


definition ex_sb :: sb_state where
  "ex_sb = fst (start_execution (7::nat) True (new_sandbox 1, []))"

definition ex_mods :: "(string, nat) dict" where
  "ex_mods = snd (start_execution 7 True (new_sandbox 1, []))"

lemma ex_home_reach: "home_reach 1 (ex_sb, ex_mods)"
proof -
  have start: "home_reach 1 (new_sandbox 1, [] :: (string, nat) dict)" by (rule home_reach.start) simp
  from home_reach.step [OF start home_step.exec [of _ 7 True]] show ?thesis
    by (simp add: ex_sb_def ex_mods_def)
qed

theorem home_registry_witness:
  "length (sb_homes ex_sb) \<le> HOMES \<and> {n. own_module ex_sb n \<and> dget ex_mods n \<noteq> None} = set (sb_homes ex_sb)
   \<and> sb_homes ex_sb \<noteq> []"
proof -
  have "sb_homes ex_sb \<noteq> []" by code_simp
  with home_registry [OF ex_home_reach] show ?thesis by blast
qed

definition ex_captured :: "nat exec_output" where
  "ex_captured = (nothing_captured empty_policy)\<lparr>cp_prints := [1]\<rparr>"

theorem memory_failure_witness:
  "\<exists>r sb' mods'. build_result (\<lambda>_. False) [] [(''big'', 1::nat)] [] None (ex_captured :: nat exec_output) (Some (Exc MemoryError []))
      (Some (sb_module_name ex_sb)) (ex_sb, ex_mods) = (r, sb', mods')
    \<and> sr_namespace r = [] \<and> sr_dropped r = [''big''] \<and> dget mods' (sb_module_name ex_sb) = None"
proof -
  obtain r sb' mods' where b: "build_result (\<lambda>_. False) [] [(''big'', 1::nat)] [] None (ex_captured :: nat exec_output) (Some (Exc MemoryError []))
      (Some (sb_module_name ex_sb)) (ex_sb, ex_mods) = (r, sb', mods')" by (metis prod_cases3)
  have mem: "is_memory_error (Some (Exc MemoryError []))" by code_simp
  have home: "sb_module_name ex_sb \<in> set (sb_homes ex_sb)" by code_simp
  have names: "map fst (result_namespace (\<lambda>_. False) [] [(''big'', 1::nat)] [] None) = [''big'']" by code_simp
  from memory_failure_withholds [OF mem home home_reach_inv [OF ex_home_reach] b] names b
  show ?thesis by auto
qed

lemma ex_prepared: "parse_and_rewrite (\<lambda>_. Inr ex_loop) 12 ''none'' src = Inr (Prepared ex_loop_rewritten)"
proof -
  have "take_future ex_loop = Inr (ex_loop, 0)" by code_simp
  then show ?thesis using ex_loop_visit by (simp add: parse_and_rewrite_def default_cfg_def)
qed

lemma ex_parses: "parses_source (\<lambda>_. Inr ex_loop)"
proof -
  have fut: "take_future ex_loop = Inr (ex_loop, 0)" by code_simp
  have "source_tree ex_loop" by code_simp
  then show ?thesis by (auto simp: parses_source_def fut)
qed

lemma ex_call_valid: "validate_call (mc_isidentifier ex_machine) empty_policy ex_args = Inr (None, Some 5)"
  by (simp add: validate_call_def ex_args_def validate_keep_def validate_timeout_def positive_seconds_def)

lemma ex_parsed:
  "parse_and_rewrite (mc_parse ex_machine) (mc_minor ex_machine) (effective_echo ''none'' ex_args) (xa_source ex_args)
   = Inr (Prepared ex_loop_rewritten)"
  using ex_prepared by (simp add: ex_machine_def ex_args_def effective_echo_def)

lemma ex_run: "mc_run ex_machine t c s = (Inr (), c, s)"
  by (simp add: ex_machine_def)

lemma ex_setup:
  "\<exists>ns injected home. fst (compile_and_setup ex_machine ex_makers empty_policy echo (7::nat) tree ex_args (new_sandbox 1, []))
    = Inr (ns, injected, home)"
proof -
  have refs: "resolve_module_refs (\<lambda>_. None) g d = Inr d" for g and d :: "(string, nat) dict"
    by (induction d) (auto simp: resolve_ref_def)
  show ?thesis
    by (simp add: compile_and_setup_def ex_machine_def refs Let_def split: prod.splits)
qed

lemma ex_exec_ran:
  "fst (snd (sandbox_exec ex_machine empty_policy None ''none'' 1 ex_makers (7::nat) ex_args
      \<lparr>current_fs = None, network_allowed = True, current_clock = None\<rparr> (new_sandbox 1, []))) = Some ex_loop_rewritten"
proof -
  obtain ns injected home st1 where su:
    "compile_and_setup ex_machine ex_makers empty_policy (effective_echo ''none'' ex_args) (7::nat) ex_loop_rewritten ex_args
       (new_sandbox 1, []) = (Inr (ns, injected, home), st1)"
    using ex_setup by (metis prod.collapse)
  show ?thesis
    by (simp add: sandbox_exec_def ex_call_valid ex_parsed su ex_run sandbox_context_eq finish_exec_def settle_output_def Let_def
        del: One_nat_def split: prod.splits)
qed


text \<open>The same call of code that raises.\<close>

definition ex_raising :: "(nat, nat, nat) machine" where
  "ex_raising = ex_machine\<lparr>mc_run := \<lambda>t c s. (Inl (Exc ValueError ''bad''), c, s)\<rparr>"


end
