(* ===== verification/Aexec.thy ===== *)
theory Aexec
  imports Sandbox
begin

text \<open>
  Asynchronous execution (\<open>Sandbox.aexec\<close> and \<open>_within_timeout\<close> in
  \<open>sandtrap/sandbox.py\<close>): the rewritten body becomes the body of a coroutine, which
  is awaited within a deadline that host calls move; what it bound comes back as
  its locals, also when it raised. The theorems: what runs is a gated body in that
  wrapper; the wait ends as soon as host calls stop moving the deadline, and gives
  up only on time the code spent itself; and the result is the one a synchronous
  execution of the same bindings would give, for names the sandbox has no part in.
\<close>

section \<open>The wrapper\<close>

definition call_locals :: node where
  "call_locals = mk_call (mk_name ''__st_locals__'' ''Load'') [] []"

definition capture_locals_on_error :: node where
  "capture_locals_on_error =
     Node ''ExceptHandler''
       [(''type'', One (K KNone)), (''name'', One (K KNone)),
        (''body'', Many
          [N (mk_expr (mk_call
             (Node ''Attribute'' [(''value'', One (N (mk_name ''__st_local_capture__'' ''Load''))),
                                  (''attr'', One (K (KStr ''update''))), (''ctx'', One (N (leaf ''Load'')))])
             [call_locals] [])),
           N (Node ''Raise'' [(''exc'', One (K KNone)), (''cause'', One (K KNone))])])]"

definition try_wrapper :: "val list \<Rightarrow> node" where
  "try_wrapper body =
     Node ''Try'' [(''body'', Many body), (''handlers'', Many [N capture_locals_on_error]),
                   (''orelse'', Many []), (''finalbody'', Many [])]"

definition no_arguments :: node where
  "no_arguments =
     Node ''arguments'' [(''posonlyargs'', Many []), (''args'', Many []), (''vararg'', One (K KNone)),
       (''kwonlyargs'', Many []), (''kw_defaults'', Many []), (''kwarg'', One (K KNone)), (''defaults'', Many [])]"

definition async_wrapper :: "nat \<Rightarrow> val list \<Rightarrow> node" where
  "async_wrapper minor body =
     Node ''AsyncFunctionDef''
       ([(''name'', One (K (KStr ''__st_aexec__''))), (''args'', One (N no_arguments)),
         (''body'', Many [N (try_wrapper body), N (Node ''Return'' [(''value'', One (N call_locals))])]),
         (''decorator_list'', Many []), (''returns'', One (K KNone)), (''type_comment'', One (K KNone))]
        @ (if 12 \<le> minor then [(''type_params'', Many [])] else []))"

definition wrap_async :: "nat \<Rightarrow> node \<Rightarrow> node" where
  "wrap_async minor tree = set_fld ''body'' (Many [N (async_wrapper minor (get_vals tree ''body''))]) tree"

section \<open>Waiting within the timeout\<close>

text \<open>
  One round of the loop: the reading of the clock and its state, and how the wait
  ended: the task is not done, it is done, or the wait itself raised (the caller
  was cancelled). \<open>asyncio.TimeoutError\<close> is the built-in class from 3.11 on.
\<close>

definition PAUSED_POLL :: real where
  "PAUSED_POLL = 1 / 20"

datatype 'r waited = NotDone | Done "'r res" | WaitRaises pyerr

record 'r async_turn =
  at_now :: real
  at_clock :: host_clock
  at_waited :: "'r waited"

datatype 'r settled = WasCancelled | Settled "'r res"

definition async_timeout_class :: "nat \<Rightarrow> exc_class" where
  "async_timeout_class minor =
     (if 11 \<le> minor then OtherException ''TimeoutError'' else OtherException ''asyncio.TimeoutError'')"

definition wait_seconds :: "real \<Rightarrow> 'r async_turn \<Rightarrow> real" where
  "wait_seconds tmo t =
     (case clock_remaining tmo (at_now t) (at_clock t) of None \<Rightarrow> PAUSED_POLL | Some left \<Rightarrow> left)"

text \<open>\<open>None\<close>: the turns are used up and the loop still waits. After the deadline the task is cancelled and settles.\<close>

fun within_loop :: "nat \<Rightarrow> real \<Rightarrow> 'r settled \<Rightarrow> 'r async_turn list \<Rightarrow> 'r res option" where
  "within_loop minor tmo fin [] = None"
| "within_loop minor tmo fin (t # ts) =
     (let left = clock_remaining tmo (at_now t) (at_clock t) in
      if left \<noteq> None \<and> the left \<le> 0
      then Some (case fin of WasCancelled \<Rightarrow> Inl (Exc (async_timeout_class minor) []) | Settled r \<Rightarrow> r)
      else
        (case at_waited t of
           NotDone \<Rightarrow> within_loop minor tmo fin ts
         | Done r \<Rightarrow> Some r
         | WaitRaises e \<Rightarrow> Some (Inl e)))"

definition within_timeout ::
  "nat \<Rightarrow> real option \<Rightarrow> 'r res \<Rightarrow> 'r settled \<Rightarrow> 'r async_turn list \<Rightarrow> 'r res option" where
  "within_timeout minor tmo plain fin ts =
     (case tmo of None \<Rightarrow> Some plain | Some s \<Rightarrow> within_loop minor s fin ts)"

section \<open>The execution\<close>

text \<open>
  The code runs as a coroutine on the namespace; \<open>Inr\<close> are its locals (\<open>None\<close> for
  the literal \<open>None\<close>), and the third part of the state is what the wrapper captured
  when the body raised.
\<close>

type_synonym 'v locals = "(string, 'v) dict"

type_synonym ('v, 'f, 'p) async_run =
  "node \<Rightarrow> real option \<Rightarrow> ('f, (string, 'v) dict \<times> 'p exec_output \<times> 'v locals, 'v locals option) code"

definition finish_async ::
  "nat \<Rightarrow> real option \<Rightarrow> 'v locals option res \<Rightarrow> 'v locals \<Rightarrow> (pyerr option \<times> 'v locals) res" where
  "finish_async minor budget res capture =
     (case res of
        Inr l \<Rightarrow> Inr (None, case l of Some d \<Rightarrow> d | None \<Rightarrow> [])
      | Inl e \<Rightarrow>
          if exc_caught_by (err_class e) (async_timeout_class minor)
          then Inr (Some (Exc StTimeout ''Execution exceeded the timeout''), [])
          else if exc_caught_by (err_class e) KeyboardInterrupt then Inl e
          else Inr (Some e, capture))"

definition async_extras :: "'v \<Rightarrow> 'v \<Rightarrow> 'v \<Rightarrow> 'v ns_pair \<Rightarrow> 'v ns_pair" where
  "async_extras locals_fn capture_box dir_fn p =
     (case p of (ns, injected) \<Rightarrow>
        (let ns = dset ''__st_local_capture__'' capture_box (dset ''__st_locals__'' locals_fn ns)
         in if dmem ''dir'' ns then (ns, injected) else provide ''dir'' dir_fn (ns, injected)))"

text \<open>
  After the coroutine: its locals go into the module, then the result is built.
\<close>

definition async_result ::
  "('v \<Rightarrow> bool) \<Rightarrow> (string, 'v) dict \<Rightarrow> (string, 'v) dict \<Rightarrow> 'v locals \<Rightarrow> string set option \<Rightarrow> 'p exec_output \<Rightarrow>
   pyerr option \<Rightarrow> string option \<Rightarrow> sb_state \<times> (string, 'm) dict \<Rightarrow>
   ('v, 'p) sb_result \<times> sb_state \<times> (string, 'm) dict" where
  "async_result is_em injected ns locs keep cap error home st =
     build_result is_em injected (dupdate (filter (\<lambda>(k, v). \<not> startswith k ''__st_'') locs) ns) locs keep cap error home st"

definition sandbox_aexec ::
  "('v, 'f, 'p) machine \<Rightarrow> ('v, 'f, 'p) async_run \<Rightarrow> 'v \<Rightarrow> 'v \<Rightarrow> 'v \<Rightarrow> policy \<Rightarrow> 'f option \<Rightarrow> string \<Rightarrow> nat \<Rightarrow>
   'v makers \<Rightarrow> 'm \<Rightarrow> ('v, 'p) exec_args \<Rightarrow> 'f ctx \<Rightarrow> sb_state \<times> (string, 'm) dict \<Rightarrow>
   ('v, 'p) sb_result res \<times> node option \<times> 'f ctx \<times> sb_state \<times> (string, 'm) dict" where
  "sandbox_aexec mc arun locals_fn capture_box dir_fn pol fs echo clk mk m xa c st =
     (case validate_call (mc_isidentifier mc) pol xa of
        Inl e \<Rightarrow> (Inl e, None, c, st)
      | Inr (keep, tmo) \<Rightarrow>
     (case parse_and_rewrite (mc_parse mc) (mc_minor mc) (effective_echo echo xa) (xa_source xa) of
        Inl e \<Rightarrow> (Inl e, None, c, st)
      | Inr (Refused e) \<Rightarrow> (Inr (error_result e), None, c, st)
      | Inr (Prepared tree) \<Rightarrow>
     (let wrapped = wrap_async (mc_minor mc) tree;
          budget = (case tmo of None \<Rightarrow> Some (timeout pol) | Some s \<Rightarrow> Some s)
      in case compile_and_setup mc mk pol (effective_echo echo xa) m wrapped xa st of
        (Inl e, st1) \<Rightarrow>
          (if exc_caught_by (err_class e) SyntaxError then Inr (error_result e) else Inl e, None, c, st1)
      | (Inr (resolved, provided, home), st1) \<Rightarrow>
     (case async_extras locals_fn capture_box dir_fn (resolved, provided) of
        (ns, injected) \<Rightarrow>
     (case sandbox_context pol fs clk (arun wrapped budget) c (ns, nothing_captured pol, []) of
        (res, c', (ns', cap, capture)) \<Rightarrow>
     (case finish_async (mc_minor mc) budget res capture of
        Inl e \<Rightarrow> (Inl e, Some wrapped, c', st1)
      | Inr (raised, locs) \<Rightarrow>
     (case settle_output mc raised cap of (error, cap') \<Rightarrow>
     (case async_result (mc_exec_module mc) injected ns' locs keep cap' error home st1 of
        (r, st') \<Rightarrow> (Inr r, Some wrapped, c', st')))))))))"

section \<open>Laws of the wait\<close>

definition out_of_time :: "real \<Rightarrow> 'r async_turn \<Rightarrow> bool" where
  "out_of_time tmo t \<longleftrightarrow>
     \<not> clock_paused (at_clock t) \<and> (\<exists>s. hc_start (at_clock t) = Some s \<and> tmo \<le> at_now t - s)"

lemma remaining_out_of_time:
  "(clock_remaining tmo (at_now t) (at_clock t) \<noteq> None \<and> the (clock_remaining tmo (at_now t) (at_clock t)) \<le> 0)
   \<longleftrightarrow> out_of_time tmo t"
  by (auto simp: clock_remaining_def out_of_time_def)

lemma within_loop_Cons:
  "within_loop minor tmo fin (t # ts) =
     (if out_of_time tmo t
      then Some (case fin of WasCancelled \<Rightarrow> Inl (Exc (async_timeout_class minor) []) | Settled r \<Rightarrow> r)
      else (case at_waited t of
              NotDone \<Rightarrow> within_loop minor tmo fin ts | Done r \<Rightarrow> Some r | WaitRaises e \<Rightarrow> Some (Inl e)))"
  by (simp only: within_loop.simps Let_def remaining_out_of_time)

lemma still_waiting_iff:
  "within_loop minor tmo fin ts = None \<longleftrightarrow> (\<forall>t \<in> set ts. \<not> out_of_time tmo t \<and> at_waited t = NotDone)"
  by (induction ts) (auto simp: within_loop_Cons simp del: within_loop.simps(2) split: waited.splits)

text \<open>A wait that the task does not end lasts as long as it was asked to.\<close>

definition paced :: "real \<Rightarrow> 'r async_turn list \<Rightarrow> bool" where
  "paced tmo ts \<longleftrightarrow>
     (\<forall>i. Suc i < length ts \<longrightarrow> at_waited (ts ! i) = NotDone \<longrightarrow>
        at_now (ts ! i) + wait_seconds tmo (ts ! i) \<le> at_now (ts ! Suc i))"

lemma unmoved_deadline_ends:
  assumes "paced tmo ts" "Suc i < length ts"
    and "\<not> clock_paused (at_clock (ts ! i))" "\<not> clock_paused (at_clock (ts ! Suc i))"
    and "hc_start (at_clock (ts ! i)) = Some s" "hc_start (at_clock (ts ! Suc i)) = Some s'" "s' \<le> s"
  shows "within_loop minor tmo fin ts \<noteq> None"
proof
  assume "within_loop minor tmo fin ts = None"
  then have w: "\<forall>t \<in> set ts. \<not> out_of_time tmo t \<and> at_waited t = NotDone" by (simp add: still_waiting_iff)
  then have nd: "at_waited (ts ! i) = NotDone" and late: "\<not> out_of_time tmo (ts ! Suc i)"
    using assms(2) by simp_all
  have "wait_seconds tmo (ts ! i) = s + tmo - at_now (ts ! i)"
    using assms(3,5) by (simp add: wait_seconds_def clock_remaining_def)
  then have "s + tmo \<le> at_now (ts ! Suc i)" using assms(1,2) nd unfolding paced_def by fastforce
  with late assms(4,6,7) show False by (auto simp: out_of_time_def)
qed

section \<open>Laws of the result\<close>

lemma dget_filter_keys: "dget (filter (\<lambda>(k, v). P k) d) k = (if P k then dget d k else None)"
  by (induction d) auto

lemma async_lookup:
  assumes "distinct (map fst ns)" "distinct (map fst locs)"
  defines "own \<equiv> filter (\<lambda>(k, v). \<not> startswith k ''__st_'') locs"
  shows "dget (result_namespace is_em injected (dupdate own ns) locs keep) k =
    (if \<not> (case keep of None \<Rightarrow> True | Some names \<Rightarrow> k \<in> names) then None
     else case dget own k of
            Some v \<Rightarrow> Some v
          | None \<Rightarrow> dget (result_namespace is_em injected (dupdate own ns) [] None) k)"
proof -
  have d: "distinct (map fst own)" using assms(2) unfolding own_def by (simp add: distinct_map_filter)
  show ?thesis
    by (cases keep) (simp_all add: result_namespace_def own_def [symmetric] dget_filter_keys
        dget_dupdate_distinct [OF d] dupdate_def [of "[]"] split: option.splits)
qed

lemma sync_lookup:
  "dget (result_namespace is_em injected ns [] keep) k =
    (if \<not> (case keep of None \<Rightarrow> True | Some names \<Rightarrow> k \<in> names) then None
     else dget (result_namespace is_em injected ns [] None) k)"
  by (cases keep) (simp_all add: result_namespace_def dget_filter_keys)

lemma async_agrees:
  assumes "distinct (map fst ns)" "distinct (map fst locs)"
    and "\<And>v. dget locs k = Some v \<Longrightarrow> visible_name k \<and> \<not> is_em v \<and> dget injected k \<noteq> Some v"
  defines "own \<equiv> filter (\<lambda>(k, v). \<not> startswith k ''__st_'') locs"
  shows "dget (result_namespace is_em injected (dupdate own ns) locs keep) k
    = dget (result_namespace is_em injected (dupdate own ns) [] keep) k"
proof (cases "dget own k")
  case None
  then show ?thesis using async_lookup [OF assms(1,2), of is_em injected keep k] sync_lookup [of is_em injected "dupdate own ns" keep k]
    by (simp add: own_def)
next
  case (Some v)
  then have locs: "dget locs k = Some v" by (auto simp: own_def dget_filter_keys split: if_splits)
  have "distinct (map fst own)" using assms(2) unfolding own_def by (simp add: distinct_map_filter)
  with Some have "dget (dupdate own ns) k = Some v" by (simp add: dget_dupdate_distinct)
  then have "dget (result_namespace is_em injected (dupdate own ns) [] None) k = Some v"
    using assms(3) [OF locs] result_namespace_lookup [OF distinct_dupdate [OF assms(1)], of is_em injected own k] by simp
  with Some async_lookup [OF assms(1,2), of is_em injected keep k] sync_lookup [of is_em injected "dupdate own ns" keep k]
  show ?thesis by (simp add: own_def)
qed

lemma aexec_ran:
  assumes "sandbox_aexec mc arun lf cb df pol fs echo clk mk m xa c st = (r, Some tree, c', st')"
  shows "\<exists>e body. parse_and_rewrite (mc_parse mc) (mc_minor mc) e (xa_source xa) = Inr (Prepared body)
    \<and> tree = wrap_async (mc_minor mc) body"
proof (cases "validate_call (mc_isidentifier mc) pol xa")
  case (Inr kt)
  obtain keep tmo where kt: "kt = (keep, tmo)" by fastforce
  show ?thesis
  proof (cases "parse_and_rewrite (mc_parse mc) (mc_minor mc) (effective_echo echo xa) (xa_source xa)")
    case pr: (Inr pr)
    show ?thesis
    proof (cases pr)
      case (Prepared body)
      with Inr kt pr assms have "tree = wrap_async (mc_minor mc) body"
        by (auto simp: sandbox_aexec_def settle_output_def Let_def split: sum.splits prod.splits if_splits)
      with pr Prepared show ?thesis by blast
    qed (use Inr kt pr assms in \<open>simp add: sandbox_aexec_def\<close>)
  qed (use Inr kt assms in \<open>simp add: sandbox_aexec_def\<close>)
qed (use assms in \<open>simp add: sandbox_aexec_def\<close>)

section \<open>Properties\<close>

text \<open>
  What an asynchronous execution runs is the rewriter's output, every access in
  it gated, inside the wrapper that hands its locals back.
\<close>

theorem async_runs_gated_body:
  assumes "parses_source (mc_parse mc)"
    and "sandbox_aexec mc arun lf cb df pol fs echo clk mk m xa c st = (r, Some tree, c', st')"
  shows "\<exists>body. gated body \<and> tree = wrap_async (mc_minor mc) body"
  using aexec_ran [OF assms(2)] prepared_gated [OF assms(1)] by blast



section \<open>Findings\<close>

text \<open>
  A module the embedder provided for the execution is never in the result of a
  synchronous execution, but an asynchronous one returns it when the code imported it.
\<close>

lemma async_exec_module_returned:
  assumes "distinct (map fst ns)" "distinct (map fst locs)" "is_em v" "dget locs k = Some v" "\<not> startswith k ''__st_''"
  defines "own \<equiv> filter (\<lambda>(k, v). \<not> startswith k ''__st_'') locs"
  shows "dget (result_namespace is_em injected (dupdate own ns) locs None) k = Some v
    \<and> dget (result_namespace is_em injected (dupdate own ns) [] None) k = None"
proof -
  have own: "dget own k = Some v" using assms(4,5) by (simp add: own_def dget_filter_keys)
  have "distinct (map fst own)" using assms(2) unfolding own_def by (simp add: distinct_map_filter)
  with own have "dget (dupdate own ns) k = Some v" by (simp add: dget_dupdate_distinct)
  then show ?thesis
    using own assms(3) async_lookup [OF assms(1,2), of is_em injected None k]
      result_namespace_lookup [OF distinct_dupdate [OF assms(1)], of is_em injected own k]
    by (simp add: own_def)
qed

text \<open>
  A \<open>TimeoutError\<close> of the code's own is reported as the sandbox's timeout from
  Python 3.11 on, and what the code had bound is gone with it.
\<close>

lemma own_timeout_error_misreported:
  "finish_async 12 None (Inl (Exc (OtherException ''TimeoutError'') ''no answer'')) [(''x'', v)]
   = Inr (Some (Exc StTimeout ''Execution exceeded the timeout''), [])"
proof -
  have "exc_caught_by (OtherException ''TimeoutError'') (async_timeout_class 12)" by code_simp
  then show ?thesis by (simp add: finish_async_def)
qed

section \<open>Concrete executions\<close>

definition ex_turn :: "real \<Rightarrow> 'r async_turn" where
  "ex_turn now = \<lparr>at_now = now, at_clock = HostClock (Some 0), at_waited = NotDone\<rparr>"



definition ex_arun :: "(nat, nat, nat) async_run" where
  "ex_arun t b c s = (Inr None, c, s)"

theorem async_gated_witness: "\<exists>body. gated body \<and> wrap_async 12 ex_loop_rewritten = wrap_async 12 body"
proof -
  let ?c = "\<lparr>current_fs = None, network_allowed = True, current_clock = None\<rparr>"
  let ?run = "sandbox_aexec ex_machine ex_arun 20 21 22 empty_policy None ''none'' 1 ex_makers (7::nat) ex_args ?c (new_sandbox 1, [])"
  have minor: "mc_minor ex_machine = 12" by (simp add: ex_machine_def)
  obtain ns injected home st1 where su:
    "compile_and_setup ex_machine ex_makers empty_policy (effective_echo ''none'' ex_args) (7::nat)
       (wrap_async 12 ex_loop_rewritten) ex_args (new_sandbox 1, []) = (Inr (ns, injected, home), st1)"
    using ex_setup by (metis prod.collapse)
  have "fst (snd ?run) = Some (wrap_async 12 ex_loop_rewritten)"
    using ex_parsed
    by (simp add: sandbox_aexec_def ex_call_valid su minor sandbox_context_eq ex_arun_def finish_async_def settle_output_def Let_def
        del: One_nat_def split: prod.splits)
  moreover obtain r t c' st' where run: "?run = (r, t, c', st')" by (metis prod_cases4)
  ultimately have run': "?run = (r, Some (wrap_async 12 ex_loop_rewritten), c', st')" by simp
  have "parses_source (mc_parse ex_machine)" using ex_parses by (simp add: ex_machine_def)
  from async_runs_gated_body [OF this run'] show ?thesis by (simp add: minor)
qed

end
