(* ===== verification/Prints.thy ===== *)
theory Prints
  imports Prelude
begin

text \<open>
  Rendered prints (\<open>sandtrap/prints.py\<close>). \<open>reprobate.render\<close> is a parameter: a
  function of the value and a budget that may raise. What the code relies on, that
  a rendering takes at most its budget, is the hypothesis \<open>respects_budget\<close>.
\<close>

definition MIN_ROOM :: int where
  "MIN_ROOM = 8"

record print_rendering =
  per_print :: int
  print_limit :: nat

definition PrintRendering :: "int \<Rightarrow> int \<Rightarrow> print_rendering res" where
  "PrintRendering pp mx =
     (if pp < 1 then Inl (Exc ValueError ''PrintRendering.per_print must be a positive int'')
      else if mx < 1 then Inl (Exc ValueError ''PrintRendering.limit must be a positive int'')
      else Inr \<lparr>per_print = pp, print_limit = nat mx\<rparr>)"

text \<open>\<open>_render\<close>: a value whose own methods raise is named by its type.\<close>

definition render_value :: "('v \<Rightarrow> int \<Rightarrow> string res) \<Rightarrow> ('v \<Rightarrow> string) \<Rightarrow> 'v \<Rightarrow> int \<Rightarrow> string" where
  "render_value render type_name v budget =
     (case render v budget of Inr s \<Rightarrow> s | Inl e \<Rightarrow> ''<'' @ type_name v @ ''>'')"

definition more_marker :: "nat \<Rightarrow> string" where
  "more_marker n = ''...'' @ str_of_nat n @ '' more''"

text \<open>The room kept for the marker that would count the values after this one.\<close>

definition marker_room :: "nat \<Rightarrow> int" where
  "marker_room after = (if after = 0 then 0 else int (length ('' '' @ more_marker after)))"

definition room_for :: "int \<Rightarrow> int \<Rightarrow> nat \<Rightarrow> int" where
  "room_for pp used after = pp - used - 1 - marker_room after"

text \<open>The loop: the values still to come, the parts so far and the characters used.\<close>

fun render_loop ::
  "('v \<Rightarrow> int \<Rightarrow> string) \<Rightarrow> int \<Rightarrow> int \<Rightarrow> 'v list \<Rightarrow> string list \<Rightarrow> int \<Rightarrow> string list" where
  "render_loop rnd share pp [] parts used = parts"
| "render_loop rnd share pp (v # vs) parts used =
     (let room = room_for pp used (length vs)
      in if room < 1 \<or> parts \<noteq> [] \<and> room < MIN_ROOM then parts
         else let text = rnd v (min share room)
              in render_loop rnd share pp vs (parts @ [text]) (used + 1 + int (length text)))"

definition print_share :: "nat \<Rightarrow> int \<Rightarrow> int" where
  "print_share count pp = max 40 (pp div int (max 1 count))"

definition render_parts :: "('v \<Rightarrow> int \<Rightarrow> string) \<Rightarrow> 'v list \<Rightarrow> int \<Rightarrow> string list" where
  "render_parts rnd args pp = render_loop rnd (print_share (length args) pp) pp args [] (- 1)"

definition render_print :: "('v \<Rightarrow> int \<Rightarrow> string) \<Rightarrow> 'v list \<Rightarrow> int \<Rightarrow> string" where
  "render_print rnd args pp =
     (let parts = render_parts rnd args pp;
          left = length args - length parts;
          parts' = (if left \<noteq> 0 then parts @ [more_marker left] else parts)
      in take (nat pp) (join '' '' parts'))"

section \<open>Sinks\<close>

record print_renderer =
  rendered :: "string list"
  print_count :: nat

definition renderer_append ::
  "('v \<Rightarrow> int \<Rightarrow> string) \<Rightarrow> print_rendering \<Rightarrow> 'v list \<Rightarrow> print_renderer \<Rightarrow> print_renderer" where
  "renderer_append rnd cfg args r =
     (let r1 = r\<lparr>print_count := print_count r + 1\<rparr> in
      if length (rendered r1) \<ge> print_limit cfg then r1
      else r1\<lparr>rendered := rendered r1 @ [render_print rnd args (per_print cfg)]\<rparr>)"

text \<open>\<open>Fanout\<close>: a snapshot list and a renderer, each present or absent.\<close>

definition fanout_append ::
  "('v \<Rightarrow> int \<Rightarrow> string) \<Rightarrow> print_rendering \<Rightarrow> 'v list \<Rightarrow>
   'v list list option \<times> print_renderer option \<Rightarrow> 'v list list option \<times> print_renderer option" where
  "fanout_append rnd cfg args = map_prod (map_option (\<lambda>ps. ps @ [args])) (map_option (renderer_append rnd cfg args))"

section \<open>The characters a print takes\<close>

definition respects_budget :: "('v \<Rightarrow> int \<Rightarrow> string) \<Rightarrow> bool" where
  "respects_budget rnd \<longleftrightarrow> (\<forall>v b. 1 \<le> b \<longrightarrow> int (length (rnd v b)) \<le> b)"

lemma length_join_append:
  "ps \<noteq> [] \<Longrightarrow> length (join '' '' (ps @ [t])) = length (join '' '' ps) + 1 + length t"
  using join_append [of ps "[t]" "'' ''"] by simp

definition used_of :: "string list \<Rightarrow> int" where
  "used_of ps = (if ps = [] then - 1 else int (length (join '' '' ps)))"

lemma used_of_snoc: "used_of (ps @ [t]) = used_of ps + 1 + int (length t)"
  by (cases "ps = []") (auto simp: used_of_def length_join_append)

lemma render_loop_room:
  assumes "respects_budget rnd" "1 \<le> share" "parts = [] \<or> used_of parts + marker_room (length vs) \<le> pp"
  shows "let ps = render_loop rnd share pp vs parts (used_of parts) in
     length parts \<le> length ps \<and> length ps \<le> length parts + length vs \<and>
     (ps = [] \<or> used_of ps + marker_room (length vs + length parts - length ps) \<le> pp)"
  using assms(3)
proof (induction vs arbitrary: parts)
  case (Cons v vs)
  define room where "room = room_for pp (used_of parts) (length vs)"
  show ?case
  proof (cases "room < 1 \<or> parts \<noteq> [] \<and> room < MIN_ROOM")
    case True
    then have "render_loop rnd share pp (v # vs) parts (used_of parts) = parts"
      by (auto simp: room_def Let_def)
    with Cons.prems show ?thesis by (simp add: Let_def)
  next
    case False
    let ?t = "rnd v (min share room)"
    have step: "render_loop rnd share pp (v # vs) parts (used_of parts)
        = render_loop rnd share pp vs (parts @ [?t]) (used_of (parts @ [?t]))"
      using False by (auto simp: room_def Let_def used_of_snoc)
    have "int (length ?t) \<le> room"
      using assms(1,2) False unfolding respects_budget_def by (smt (verit) min_def)
    then have "used_of (parts @ [?t]) + marker_room (length vs) \<le> pp"
      by (simp add: used_of_snoc room_def room_for_def)
    with Cons.IH [of "parts @ [?t]"] show ?thesis unfolding step by (simp add: Let_def)
  qed
qed (simp add: Let_def marker_room_def)

section \<open>Properties\<close>

text \<open>
  When a rendering keeps to its budget, a print of which at least one value
  was rendered is never cut: the text is the rendered values and, when some are
  left, the marker with their number, in full, within \<open>per_print\<close> characters.
\<close>

theorem render_print_uncut:
  assumes "respects_budget rnd" and "render_parts rnd args pp \<noteq> []"
  shows "render_print rnd args pp =
           join '' '' (render_parts rnd args pp @
             (if length (render_parts rnd args pp) < length args
              then [more_marker (length args - length (render_parts rnd args pp))] else []))
         \<and> length (render_print rnd args pp) \<le> nat pp"
proof -
  let ?ps = "render_parts rnd args pp"
  have share: "1 \<le> print_share (length args) pp" by (simp add: print_share_def)
  have "length ?ps \<le> length args \<and> used_of ?ps + marker_room (length args - length ?ps) \<le> pp"
    using render_loop_room [OF assms(1) share, of "[]" args pp] assms(2)
    by (simp add: render_parts_def used_of_def Let_def)
  then have fits: "int (length (join '' '' (?ps @ (if length ?ps < length args
      then [more_marker (length args - length ?ps)] else [])))) \<le> pp"
    using assms(2) by (auto simp: used_of_def marker_room_def length_join_append split: if_splits)
  then show ?thesis by (auto simp: render_print_def Let_def split: if_splits)
qed

definition ex_render :: "nat \<Rightarrow> int \<Rightarrow> string" where
  "ex_render v b = take (nat b) (replicate v CHR ''x'')"

theorem render_print_uncut_witness:
  "length (render_print ex_render [50, 60, 70] 100) \<le> nat 100"
proof -
  have "respects_budget ex_render" by (auto simp: respects_budget_def ex_render_def)
  moreover have "render_parts ex_render [50, 60, 70] 100 \<noteq> []"
    by code_simp
  ultimately show ?thesis using render_print_uncut by blast
qed

text \<open>
  However many prints are made, all are counted, at most \<open>limit\<close> are kept, and
  each of those is at most \<open>per_print\<close> characters long.
\<close>

theorem renderer_bounded:
  "let r = fold (renderer_append rnd cfg) prints \<lparr>rendered = [], print_count = 0\<rparr> in
   print_count r = length prints \<and> length (rendered r) = min (length prints) (print_limit cfg) \<and>
   list_all (\<lambda>s. length s \<le> nat (per_print cfg)) (rendered r)"
proof (induction prints rule: rev_induct)
  case (snoc p ps)
  then show ?case
    by (auto simp: Let_def renderer_append_def render_print_def)
qed simp

end
