(* ===== verification/Factory.thy ===== *)
theory Factory
  imports Portable RemoteFs Aexec Prints
begin

text \<open>
  Making sandboxes and handing executions to workers (\<open>sandtrap/factory.py\<close>, the
  constructors of \<open>Sandbox\<close> and \<open>ProcessSandbox\<close>, \<open>ProcessSandbox.exec\<close> and
  \<open>_worker_entry\<close>): every option is checked before anything is started, a policy that
  has to be sent is known to be sendable, a filesystem that lives in this process is
  reached through calls and never copied, and what crosses with an execution is what
  can be sent. The last theorem follows an \<open>isolation="kernel"\<close> from the factory to
  the worker the code runs on.
\<close>

section \<open>Options\<close>

text \<open>
  The arguments as the constructors see them: a hook that is callable or not, what
  was given as \<open>render_prints\<close> and \<open>spool\<close> (\<open>None\<close>: neither a truth value nor a path),
  and the filesystem: none, one confined to a directory, or any other.
\<close>

datatype render_arg = RenderNone | RenderSpec print_rendering | RenderOther string

datatype fs_arg = NoFs | IsolatedFs string | OtherFs

datatype worker_fs = NoWorkerFs | InheritedFs string | RemoteMarker

definition validate_render_prints :: "unit res \<Rightarrow> render_arg \<Rightarrow> unit res" where
  "validate_render_prints require_reprobate a =
     (case a of
        RenderNone \<Rightarrow> Inr ()
      | RenderSpec _ \<Rightarrow> require_reprobate
      | RenderOther t \<Rightarrow> Inl (Exc TypeError (''render_prints takes a PrintRendering (or None), not '' @ t)))"

record 'h options =
  op_mode :: string
  op_hook :: "bool option"
  op_render :: render_arg
  op_echo :: arg
  op_fs :: fs_arg
  op_allow_degraded :: bool
  op_close_fds :: bool
  op_start_method :: "string option"
  op_preload :: bool
  op_spool :: "spool_arg option"
  op_handlers :: "(string, 'h) dict"

text \<open>The host: what it offers to start processes with, its paths, and how it pickles.\<close>

record process_host =
  ph_start_methods :: "string list"
  ph_reprobate :: "unit res"
  ph_install_fs :: "unit res"
  ph_realpath :: "string \<Rightarrow> string"
  ph_tempdir :: string
  ph_world :: pyworld
  ph_pickler :: pickler

fun spool_truthy :: "spool_arg \<Rightarrow> bool" where
  "spool_truthy SpoolOff = False"
| "spool_truthy SpoolOn = True"
| "spool_truthy (SpoolIn d) = (d \<noteq> [])"

section \<open>The constructors\<close>

text \<open>
  \<open>Sandbox.__init__\<close>: \<open>n\<close> numbers its module name. With a filesystem the patches of
  monkeyfs are installed, so that the \<open>open\<close> an execution captures is the patched one.
\<close>

definition sandbox_init :: "process_host \<Rightarrow> nat \<Rightarrow> 'h options \<Rightarrow> sb_state res" where
  "sandbox_init ph n op =
     rbind (validate_mode (op_mode op)) (\<lambda>_.
       rbind (validate_render_prints (ph_reprobate ph) (op_render op)) (\<lambda>_.
         rbind (validate_echo (op_echo op)) (\<lambda>_.
           rbind (if op_fs op \<noteq> NoFs then ph_install_fs ph else Inr ()) (\<lambda>_. Inr (new_sandbox n)))))"

record 'h process_sandbox =
  pc_config :: psb_config
  pc_state :: psb
  pc_policy :: policy
  pc_handlers :: "(string, 'h) dict"
  pc_worker_fs :: worker_fs
  pc_hook :: bool

definition choose_start_method :: "process_host \<Rightarrow> string option \<Rightarrow> string res" where
  "choose_start_method ph sm =
     (let m = (case sm of Some m \<Rightarrow> m | None \<Rightarrow> default_start_method (ph_start_methods ph)) in
      if m \<in> set (ph_start_methods ph) then Inr m
      else Inl (Exc ValueError (''start_method='' @ m @ '' is not available on this platform'')))"

definition check_spool :: "process_host \<Rightarrow> fs_arg \<Rightarrow> spool_arg option \<Rightarrow> spool_arg res" where
  "check_spool ph fs spool =
     (case spool of
        None \<Rightarrow> Inl (Exc TypeError ''spool must be True, False, or a directory to spool under'')
      | Some sp \<Rightarrow>
          (case fs of
             IsolatedFs rt \<Rightarrow>
               if spool_truthy sp
               then rbind (refuse_spool_inside_root (ph_realpath ph) (ph_tempdir ph) sp rt) (\<lambda>_. Inr sp)
               else Inr sp
           | _ \<Rightarrow> Inr sp))"

text \<open>A filesystem that is not confined to a directory is bridged: its handler joins the others.\<close>

definition bridge_fs :: "'h \<Rightarrow> fs_arg \<Rightarrow> (string, 'h) dict \<Rightarrow> worker_fs \<times> (string, 'h) dict" where
  "bridge_fs fs_handler fs handlers =
     (case fs of
        NoFs \<Rightarrow> (NoWorkerFs, handlers)
      | IsolatedFs rt \<Rightarrow> (InheritedFs rt, handlers)
      | OtherFs \<Rightarrow> (RemoteMarker, dsetdefault FS_RPC_TARGET fs_handler handlers))"

definition process_init ::
  "process_host \<Rightarrow> 'h \<Rightarrow> isolation_mode \<Rightarrow> policy \<Rightarrow> 'h options \<Rightarrow> 'h process_sandbox res" where
  "process_init ph fs_handler im pol op =
     rbind (validate_mode (op_mode op)) (\<lambda>_.
     rbind (if op_hook op = Some False then Inl (Exc TypeError ''on_worker_start must be callable'') else Inr ()) (\<lambda>_.
     rbind (validate_render_prints (ph_reprobate ph) (op_render op)) (\<lambda>_.
     rbind (choose_start_method ph (op_start_method op)) (\<lambda>sm.
     rbind (if sm \<noteq> ''fork'' then require_portable_policy (ph_world ph) (ph_pickler ph) pol sm else Inr ()) (\<lambda>_.
     rbind (validate_echo (op_echo op)) (\<lambda>_.
     rbind (check_spool ph (op_fs op) (op_spool op)) (\<lambda>sp.
     case bridge_fs fs_handler (op_fs op) (op_handlers op) of
       (wfs, hs) \<Rightarrow>
         Inr \<lparr>pc_config = \<lparr>cf_isolation = im, cf_allow_degraded = op_allow_degraded op, cf_start_method = sm,
                cf_spool = spool_truthy sp, cf_close_fds = op_close_fds op\<rparr>,
              pc_state = new_psb, pc_policy = pol, pc_handlers = hs, pc_worker_fs = wfs,
              pc_hook = (op_hook op \<noteq> None)\<rparr>)))))))"

section \<open>The factory\<close>

datatype 'h made = InProcess sb_state | InWorker "'h process_sandbox"

definition sandbox ::
  "process_host \<Rightarrow> 'h \<Rightarrow> nat \<Rightarrow> policy \<Rightarrow> string \<Rightarrow> 'h options \<Rightarrow> 'h made res" where
  "sandbox ph fs_handler n pol isolation op =
     (if isolation = ''none''
      then if op_hook op \<noteq> None then Inl (Exc ValueError ''on_worker_start needs a worker'')
           else rbind (sandbox_init ph n op) (\<lambda>s. Inr (InProcess s))
      else rbind (process_init ph fs_handler (if isolation = ''kernel'' then Iso_auto else Iso_none) pol op)
             (\<lambda>p. Inr (InWorker p)))"

section \<open>Handing an execution to the worker\<close>

text \<open>A warning for each name that cannot be sent; the names that can are the message.\<close>

definition skipped :: "string \<Rightarrow> string list \<Rightarrow> string list" where
  "skipped what ks = map (\<lambda>k. what @ k @ '' skipped: value is not picklable'') ks"

fun safe_modules ::
  "('v \<Rightarrow> unit res) \<Rightarrow> (string \<times> (string \<times> 'v) list) list \<Rightarrow>
   ((string \<times> (string \<times> 'v) list) list \<times> string list) res" where
  "safe_modules check [] = Inr ([], [])"
| "safe_modules check ((m, attrs) # ms) =
     rbind (partition_namespace check (Some attrs)) (\<lambda>(safe, lost).
       rbind (safe_modules check ms) (\<lambda>(rest, warned).
         Inr ((m, case safe of Some es \<Rightarrow> es | None \<Rightarrow> []) # rest,
              skipped (''Module attribute '' @ m @ ''.'') lost @ warned)))"

definition exec_message ::
  "('v entry \<Rightarrow> unit res) \<Rightarrow> 'q \<Rightarrow> (string \<times> 'v entry) list option \<Rightarrow>
   (string \<times> (string \<times> 'v entry) list) list option \<Rightarrow> (('v, 'q) exec_msg \<times> string list) res" where
  "exec_message check request namespace modules =
     rbind (partition_namespace check namespace) (\<lambda>(safe_ns, lost).
       rbind (case modules of
                None \<Rightarrow> Inr (None, [])
              | Some ms \<Rightarrow> rbind (safe_modules check ms) (\<lambda>(sm, warned). Inr (Some sm, warned)))
         (\<lambda>(sm, warned).
           Inr (\<lparr>xm_request = request, xm_namespace = safe_ns, xm_modules = sm\<rparr>,
                skipped ''Namespace key '' lost @ warned)))"

text \<open>
  \<open>ProcessSandbox.exec\<close> up to waiting for the result: its arguments are valid, the
  worker is up, the message is sent; with it the time the wait allows.
\<close>

definition process_exec ::
  "(string \<Rightarrow> bool) \<Rightarrow> ('v entry \<Rightarrow> unit res) \<Rightarrow> 'h process_sandbox \<Rightarrow> spawn \<Rightarrow> hook option \<Rightarrow> 'q \<Rightarrow>
   ('w, 'p) exec_args \<Rightarrow> (string \<times> 'v entry) list option \<Rightarrow> (string \<times> (string \<times> 'v entry) list) list option \<Rightarrow>
   psb \<Rightarrow> (('v, 'q) exec_msg \<times> string list \<times> real) res \<times> psb" where
  "process_exec isidentifier check pc sp hook request xa namespace modules s =
     (case validate_call isidentifier (pc_policy pc) xa of
        Inl e \<Rightarrow> (Inl e, s)
      | Inr (keep, tmo) \<Rightarrow>
          (case exec_start (pc_config pc) sp hook s of
             (Inl e, s1) \<Rightarrow> (Inl e, s1)
           | (Inr _, s1) \<Rightarrow>
               (rbind (exec_message check request namespace modules) (\<lambda>(msg, warned).
                  Inr (msg, warned, case tmo of None \<Rightarrow> timeout (pc_policy pc) | Some t \<Rightarrow> t)), s1)))"

text \<open>\<open>ProcessSandbox.aexec\<close>: invalid arguments fail on the calling task, the rest runs in an executor.\<close>

definition process_aexec ::
  "(string \<Rightarrow> bool) \<Rightarrow> ('v entry \<Rightarrow> unit res) \<Rightarrow> 'h process_sandbox \<Rightarrow> spawn \<Rightarrow> hook option \<Rightarrow> 'q \<Rightarrow>
   ('w, 'p) exec_args \<Rightarrow> (string \<times> 'v entry) list option \<Rightarrow> (string \<times> (string \<times> 'v entry) list) list option \<Rightarrow>
   psb \<Rightarrow> (('v, 'q) exec_msg \<times> string list \<times> real) res \<times> psb" where
  "process_aexec isidentifier check pc sp hook request xa namespace modules s =
     (case validate_call isidentifier (pc_policy pc) xa of
        Inl e \<Rightarrow> (Inl e, s)
      | Inr _ \<Rightarrow> process_exec isidentifier check pc sp hook request xa namespace modules s)"

text \<open>\<open>cancel\<close>: the signal goes to a live worker; one that is gone meanwhile is no error.\<close>

definition process_cancel :: "bool \<Rightarrow> psb \<Rightarrow> bool" where
  "process_cancel kill_works s = (ps_process s = Some Alive \<and> kill_works)"

text \<open>
  \<open>_worker_entry\<close>: whatever fails before the worker installs its own reporting is
  reported here; only a channel that is itself unusable stays silent.
\<close>

datatype entered = EntersMain | Reported string | Unreported

definition worker_entry :: "unit res \<Rightarrow> unit res \<Rightarrow> (string \<Rightarrow> unit res) \<Rightarrow> entered" where
  "worker_entry neutralize import_worker send =
     (case rbind neutralize (\<lambda>_. import_worker) of
        Inr _ \<Rightarrow> EntersMain
      | Inl e \<Rightarrow> (case send (err_msg e) of Inr _ \<Rightarrow> Reported (err_msg e) | Inl _ \<Rightarrow> Unreported))"

section \<open>Laws\<close>

lemma bridged_fs_not_copied:
  assumes "bridge_fs h fs hs = (wfs, hs')"
  shows "(wfs = RemoteMarker \<longleftrightarrow> fs = OtherFs)
    \<and> (fs = OtherFs \<longrightarrow> dget hs' FS_RPC_TARGET = Some (case dget hs FS_RPC_TARGET of Some g \<Rightarrow> g | None \<Rightarrow> h))
    \<and> (\<forall>t. t \<noteq> FS_RPC_TARGET \<longrightarrow> dget hs' t = dget hs t)"
  using assms by (auto simp: bridge_fs_def split: fs_arg.splits option.splits)

lemma process_init_parts:
  assumes "process_init ph h im pol op = Inr pc"
  shows "pc_policy pc = pol \<and> pc_state pc = new_psb
    \<and> cf_isolation (pc_config pc) = im \<and> cf_allow_degraded (pc_config pc) = op_allow_degraded op
    \<and> cf_start_method (pc_config pc) \<in> set (ph_start_methods ph)
    \<and> (cf_start_method (pc_config pc) \<noteq> ''fork'' \<longrightarrow>
         require_portable_policy (ph_world ph) (ph_pickler ph) pol (cf_start_method (pc_config pc)) = Inr ())
    \<and> validate_mode (op_mode op) = Inr () \<and> validate_echo (op_echo op) = Inr ()
    \<and> (\<exists>sp. op_spool op = Some sp \<and> cf_spool (pc_config pc) = spool_truthy sp
         \<and> (\<forall>rt. op_fs op = IsolatedFs rt \<longrightarrow> spool_truthy sp \<longrightarrow>
              refuse_spool_inside_root (ph_realpath ph) (ph_tempdir ph) sp rt = Inr ()))
    \<and> bridge_fs h (op_fs op) (op_handlers op) = (pc_worker_fs pc, pc_handlers pc)"
proof -
  obtain wfs hs where br: "bridge_fs h (op_fs op) (op_handlers op) = (wfs, hs)" by fastforce
  from assms obtain sm sp where
    "choose_start_method ph (op_start_method op) = Inr sm"
    "(if sm \<noteq> ''fork'' then require_portable_policy (ph_world ph) (ph_pickler ph) pol sm else Inr ()) = Inr ()"
    "validate_mode (op_mode op) = Inr ()" "validate_echo (op_echo op) = Inr ()"
    "check_spool ph (op_fs op) (op_spool op) = Inr sp"
    "pc = \<lparr>pc_config = \<lparr>cf_isolation = im, cf_allow_degraded = op_allow_degraded op, cf_start_method = sm,
                cf_spool = spool_truthy sp, cf_close_fds = op_close_fds op\<rparr>,
              pc_state = new_psb, pc_policy = pol, pc_handlers = hs, pc_worker_fs = wfs,
              pc_hook = (op_hook op \<noteq> None)\<rparr>"
    unfolding process_init_def by (auto simp: rbind_eq_Inr_iff br)
  then show ?thesis
    by (auto simp: choose_start_method_def check_spool_def Let_def rbind_eq_Inr_iff br
        split: if_splits option.splits fs_arg.splits)
qed

lemma safe_modules_parts:
  assumes "safe_modules check ms = Inr (sm, ws)"
  shows "sm = map (\<lambda>(m, attrs). (m, filter (\<lambda>(k, v). \<not> isl (check v)) attrs)) ms"
  using assms
proof (induction ms arbitrary: sm ws)
  case (Cons ma ms)
  obtain m attrs where ma: "ma = (m, attrs)" by fastforce
  from Cons.prems obtain es lost rest rs where p: "partition_entries check attrs = Inr (es, lost)"
    "safe_modules check ms = Inr (rest, rs)" "sm = (m, es) # rest"
    by (auto simp: ma rbind_eq_Inr_iff partition_namespace_def)
  from Cons.IH [OF p(2)] partition_entries_parts [OF p(1)] p(3) show ?case by (simp add: ma)
qed simp

lemma exec_message_parts:
  assumes "exec_message check request namespace modules = Inr (msg, ws)"
  shows "xm_request msg = request
    \<and> xm_namespace msg = map_option (filter (\<lambda>(k, v). \<not> isl (check v))) namespace
    \<and> xm_modules msg = map_option (map (\<lambda>(m, attrs). (m, filter (\<lambda>(k, v). \<not> isl (check v)) attrs))) modules"
  using assms
  by (auto simp: exec_message_def partition_namespace_def rbind_eq_Inr_iff dest!: partition_entries_parts safe_modules_parts
      split: option.splits prod.splits)

text \<open>An asynchronous execution of a process sandbox is its synchronous one.\<close>

lemma process_aexec_is_exec:
  "process_aexec isidentifier check pc sp hook request xa namespace modules s
   = process_exec isidentifier check pc sp hook request xa namespace modules s"
  by (auto simp: process_aexec_def process_exec_def split: sum.splits)

lemma made_kernel:
  assumes "sandbox ph h n pol ''kernel'' op = Inr (InWorker pc)"
  shows "process_init ph h Iso_auto pol op = Inr pc"
  using assms by (simp add: sandbox_def rbind_eq_Inr_iff)

section \<open>Properties\<close>

text \<open>
  A process sandbox that could be made is ready to start workers: its start
  method exists here, its policy pickles wherever it has to be sent, results are
  not spooled where sandboxed code could replace them, and a filesystem of this
  process is reached by calls, never through a copy.
\<close>

theorem made_sandbox_ready:
  assumes "process_init ph h im pol op = Inr pc"
  shows "cf_start_method (pc_config pc) \<in> set (ph_start_methods ph)
    \<and> (cf_start_method (pc_config pc) \<noteq> ''fork'' \<longrightarrow>
         (\<exists>st. policy_getstate (ph_world ph) (ph_pickler ph) pol = Inr st))
    \<and> (\<forall>rt sp. op_fs op = IsolatedFs rt \<and> op_spool op = Some sp \<and> spool_truthy sp \<longrightarrow>
         refuse_spool_inside_root (ph_realpath ph) (ph_tempdir ph) sp rt = Inr ())
    \<and> (op_fs op = OtherFs \<longrightarrow> pc_worker_fs pc = RemoteMarker \<and> dget (pc_handlers pc) FS_RPC_TARGET \<noteq> None)"
proof -
  note p = process_init_parts [OF assms]
  have "\<exists>st. policy_getstate (ph_world ph) (ph_pickler ph) pol = Inr st"
    if "cf_start_method (pc_config pc) \<noteq> ''fork''"
  proof -
    from p that have "require_portable_policy (ph_world ph) (ph_pickler ph) pol (cf_start_method (pc_config pc)) = Inr ()"
      by blast
    then have "check_picklable (ph_world ph) (ph_pickler ph) pol = Inr []"
      by (auto simp: require_portable_policy_def rbind_eq_Inr_iff split: if_splits)
    then show ?thesis by (rule checked_policy_pickles)
  qed
  moreover have "bridge_fs h (op_fs op) (op_handlers op) = (pc_worker_fs pc, pc_handlers pc)" using p by blast
  ultimately show ?thesis using p bridged_fs_not_copied by fastforce
qed

text \<open>
  C8: code executed in a sandbox made with \<open>isolation="kernel"\<close> runs on a live worker
  on which kernel isolation is in force, unless degradation was accepted, whatever
  happened to the sandbox before; and what it is given of the caller's values is
  exactly what can be sent.
\<close>

theorem kernel_sandbox_end_to_end:
  assumes "sandbox ph h n pol ''kernel'' op = Inr (InWorker pc)" "ps_reach (pc_config pc) s"
    and "process_exec isidentifier check pc sp (map_option (hook_of (pc_config pc)) prog) request xa namespace modules s
           = (Inr (msg, ws, budget), s')"
  shows "ps_process s' = Some Alive
    \<and> (\<not> op_allow_degraded op \<longrightarrow> (\<exists>st. ps_status s' = Some st \<and> \<not> degraded st))
    \<and> xm_namespace msg = map_option (filter (\<lambda>(k, v). \<not> isl (check v))) namespace
    \<and> xm_modules msg = map_option (map (\<lambda>(m, attrs). (m, filter (\<lambda>(k, v). \<not> isl (check v)) attrs))) modules"
proof -
  from process_init_parts [OF made_kernel [OF assms(1)]]
  have cf: "cf_isolation (pc_config pc) = Iso_auto" "cf_allow_degraded (pc_config pc) = op_allow_degraded op" by auto
  from assms(3) have st: "exec_start (pc_config pc) sp (map_option (hook_of (pc_config pc)) prog) s = (Inr (), s')"
    and msg: "exec_message check request namespace modules = Inr (msg, ws)"
    by (auto simp: process_exec_def rbind_eq_Inr_iff split: sum.splits prod.splits)
  have "psb_inv (pc_config pc) s' \<and> ps_process s' = Some Alive"
    using exec_start_effect [OF st _ hooks_of_ok] ps_reach_inv [OF assms(2)] by blast
  with cf exec_message_parts [OF msg] show ?thesis by (auto simp: psb_inv_def verified_def)
qed

section \<open>A finding\<close>

text \<open>
  The factory takes any string but \<open>none\<close> and \<open>kernel\<close> for \<open>process\<close>: a misspelt
  isolation level makes a sandbox without kernel isolation instead of an error.
\<close>

lemma misspelt_isolation_accepted:
  assumes "isolation \<noteq> ''none''" "isolation \<noteq> ''kernel''"
  shows "sandbox ph h n pol isolation op = sandbox ph h n pol ''process'' op"
  using assms by (simp add: sandbox_def)

section \<open>A concrete sandbox\<close>

definition ex_process_host :: process_host where
  "ex_process_host = \<lparr>ph_start_methods = [''fork'', ''spawn'', ''forkserver''], ph_reprobate = Inr (), ph_install_fs = Inr (),
     ph_realpath = id, ph_tempdir = ''/tmp'', ph_world = ex_here, ph_pickler = ex_pk\<rparr>"

definition ex_options :: "nat options" where
  "ex_options = \<lparr>op_mode = ''raw'', op_hook = None, op_render = RenderNone, op_echo = AStr ''none'', op_fs = OtherFs,
     op_allow_degraded = False, op_close_fds = False, op_start_method = None, op_preload = False,
     op_spool = Some SpoolOn, op_handlers = []\<rparr>"

definition ex_process_sandbox :: "nat process_sandbox" where
  "ex_process_sandbox = \<lparr>pc_config = ex_strict, pc_state = new_psb, pc_policy = ex_sent,
     pc_handlers = [(FS_RPC_TARGET, 1)], pc_worker_fs = RemoteMarker, pc_hook = False\<rparr>"

lemma ex_made: "process_init ex_process_host 1 Iso_auto ex_sent ex_options = Inr ex_process_sandbox"
proof -
  have "require_portable_policy ex_here ex_pk ex_sent ''forkserver'' = Inr ()" by code_simp
  moreover have "validate_echo (AStr ''none'') = Inr ()" by code_simp
  moreover have "choose_start_method ex_process_host None = Inr ''forkserver''" by code_simp
  ultimately show ?thesis
    by (simp add: process_init_def ex_process_host_def ex_options_def ex_process_sandbox_def validate_mode_def
        validate_render_prints_def check_spool_def bridge_fs_def dsetdefault_def ex_strict_def ex_cfg_def dmem_def)
qed

theorem made_sandbox_witness: "\<exists>st. policy_getstate ex_here ex_pk ex_sent = Inr st"
  using made_sandbox_ready [OF ex_made] by (simp add: ex_process_sandbox_def ex_strict_def ex_cfg_def ex_process_host_def)

definition ex_call :: "(nat, nat) exec_args" where
  "ex_call = \<lparr>xa_source = [], xa_namespace = [], xa_modules = [], xa_echo = None, xa_keep = ANone, xa_timeout = ANone, xa_sys = False\<rparr>"

definition ex_check :: "nat entry \<Rightarrow> unit res" where
  "ex_check e = (case e of Worker.Plain 0 \<Rightarrow> Inl (Exc PicklingError []) | _ \<Rightarrow> Inr ())"

theorem kernel_sandbox_witness:
  "(\<exists>msg ws b s'. process_exec (\<lambda>_. True) ex_check ex_process_sandbox ex_strict_spawn None (0::nat) ex_call
      (Some [(''a'', Worker.Plain 0), (''b'', Worker.Plain 1)]) None (ps_kill ex_strict_entered) = (Inr (msg, ws, b), s')
    \<and> xm_namespace msg = Some [(''b'', Worker.Plain 1)] \<and> (\<exists>st. ps_status s' = Some st \<and> \<not> degraded st))"
proof -
  let ?run = "process_exec (\<lambda>_. True) ex_check ex_process_sandbox ex_strict_spawn None (0::nat) ex_call
      (Some [(''a'', Worker.Plain 0), (''b'', Worker.Plain 1)]) None (ps_kill ex_strict_entered)"
  have "\<exists>msg ws. exec_message ex_check (0::nat) (Some [(''a'', Worker.Plain 0), (''b'', Worker.Plain 1)]) None = Inr (msg, ws)"
  proof -
    have "exc_caught_by PicklingError Exception" by code_simp
    then show ?thesis by (simp add: exec_message_def partition_namespace_def ex_check_def)
  qed
  then obtain msg ws where m: "exec_message ex_check (0::nat)
      (Some [(''a'', Worker.Plain 0), (''b'', Worker.Plain 1)]) None = Inr (msg, ws)" by blast
  have cf: "pc_config ex_process_sandbox = ex_strict" by (simp add: ex_process_sandbox_def)
  have run: "?run = (Inr (msg, ws, timeout ex_sent), ex_strict_entered\<lparr>ps_generation := 2\<rparr>)"
    using m ex_strict_exec
    by (simp add: process_exec_def validate_call_def ex_call_def validate_keep_def validate_timeout_def cf ex_process_sandbox_def)
  have made: "sandbox ex_process_host 1 0 ex_sent ''kernel'' ex_options = Inr (InWorker ex_process_sandbox)"
    using ex_made by (simp add: sandbox_def)
  from kernel_sandbox_end_to_end [OF made, of "ps_kill ex_strict_entered" "\<lambda>_. True" ex_check ex_strict_spawn None
      "0::nat" ex_call, unfolded cf, OF ex_strict_reach, simplified, OF run] run
  show ?thesis by (auto simp: ex_options_def ex_check_def)
qed

end
