(* ===== verification/WorkerStart.thy ===== *)
theory WorkerStart
  imports Factory
begin

text \<open>
  How a worker comes up: \<open>worker_main\<close> of \<open>process/worker.py\<close> before its loop. The
  patches are installed, the filesystem the parent sent becomes a stub or stays, every
  module that is still needed is imported while site-packages can be read, kernel
  isolation is applied, and only then the sandbox is built and the first message sent.
  The last section joins it with the parent's side of \<open>Lifecycle\<close>: what the parent
  accepts is the worker that runs confined.
\<close>

section \<open>Starting\<close>

text \<open>The filesystem of the worker's sandbox: inherited as it is, or a stub over the pipe.\<close>

datatype started_fs = NoStartedFs | RootedFs string | RemoteStub rpc_proxy

definition worker_filesystem :: "worker_fs \<Rightarrow> started_fs" where
  "worker_filesystem wfs =
     (case wfs of
        NoWorkerFs \<Rightarrow> NoStartedFs
      | InheritedFs rt \<Rightarrow> RootedFs rt
      | RemoteMarker \<Rightarrow> RemoteStub \<lparr>px_target = FS_RPC_TARGET, px_methods = None, px_attributes = None\<rparr>)"

text \<open>The root for the kernel is the one of an \<open>IsolatedFS\<close>; without monkeyfs there is none.\<close>

definition worker_root :: "'k host \<Rightarrow> started_fs \<Rightarrow> 'k proc \<Rightarrow> (string option \<times> 'k proc) res" where
  "worker_root h fs p =
     rcatch
       (rbind (py_import_from h ''monkeyfs'' p) (\<lambda>p.
          Inr (case fs of RootedFs rt \<Rightarrow> Some rt | _ \<Rightarrow> None, p)))
       is_import_error (\<lambda>_. Inr (None, p))"

text \<open>The parent's side of the same question: is what it was given an \<open>IsolatedFS\<close>?\<close>

definition is_isolated_fs :: "'k host \<Rightarrow> fs_arg \<Rightarrow> 'k proc \<Rightarrow> bool res" where
  "is_isolated_fs h fs p =
     rcatch
       (rbind (py_import_from h ''monkeyfs'' p) (\<lambda>_. Inr (case fs of IsolatedFs _ \<Rightarrow> True | _ \<Rightarrow> False)))
       is_import_error (\<lambda>_. Inr False)"

definition DEFERRED :: "string list" where
  "DEFERRED = [''concurrent.futures.thread'']"

fun warm_deferred_imports :: "'k host \<Rightarrow> string list \<Rightarrow> 'k proc \<Rightarrow> 'k proc res" where
  "warm_deferred_imports h [] p = Inr p"
| "warm_deferred_imports h (name # names) p =
     rbind (rcatch (py_import h name p) (\<lambda>c. exc_caught_by c Exception) (\<lambda>_. Inr p))
       (warm_deferred_imports h names)"

definition require_reprobate :: "'k host \<Rightarrow> 'k proc \<Rightarrow> 'k proc res" where
  "require_reprobate h p =
     rcatch (py_import h ''reprobate'' p) is_import_error
       (\<lambda>_. Inl (Exc ImportError (''render_prints renders with reprobate, which is not installed: '' @
                                  ''pip install sandtrap[render]'')))"

definition warm_rendering :: "'k host \<Rightarrow> render_arg \<Rightarrow> 'k proc \<Rightarrow> 'k proc res" where
  "warm_rendering h render p =
     (if render = RenderNone then Inr p
      else rbind (py_import_from h ''sandtrap.prints'' p) (require_reprobate h))"

text \<open>
  The sandbox of the worker, built after isolation: what its constructor imports has
  to be in \<open>sys.modules\<close> by then.
\<close>

fun sandbox_fs :: "started_fs \<Rightarrow> fs_arg" where
  "sandbox_fs NoStartedFs = NoFs"
| "sandbox_fs (RootedFs rt) = IsolatedFs rt"
| "sandbox_fs (RemoteStub px) = OtherFs"

definition worker_sandbox ::
  "'k host \<Rightarrow> process_host \<Rightarrow> nat \<Rightarrow> 'h options \<Rightarrow> started_fs \<Rightarrow> 'k proc \<Rightarrow> sb_state res" where
  "worker_sandbox h ph n op fs p =
     sandbox_init
       (ph\<lparr>ph_reprobate := rbind (require_reprobate h p) (\<lambda>_. Inr ()),
           ph_install_fs := rbind (py_import_from h ''monkeyfs.patching'' p) (\<lambda>_. ph_install_fs ph)\<rparr>)
       n (op\<lparr>op_fs := sandbox_fs fs\<rparr>)"

record 'k started =
  wm_status :: isolation_status
  wm_fs :: started_fs
  wm_sandbox :: sb_state
  wm_proc :: "'k proc"

text \<open>
  \<open>worker_main\<close> before isolation: the patches are in place, the root is known and every
  module that is needed later has been imported.
\<close>

definition worker_prepare ::
  "'k host \<Rightarrow> process_host \<Rightarrow> worker_fs \<Rightarrow> render_arg \<Rightarrow> 'k proc \<Rightarrow> (string option \<times> 'k proc) res" where
  "worker_prepare h ph wfs render p =
     rbind (py_import_from h ''monkeyfs.patching'' p) (\<lambda>p.
     rbind (py_import_from h ''sandtrap.sandbox'' p) (\<lambda>p.
     rbind (ph_install_fs ph) (\<lambda>_.
     rbind (py_import_from h ''sandtrap.fs.remote'' p) (\<lambda>p.
     rbind (worker_root h (worker_filesystem wfs) p) (\<lambda>(rt, p).
     rbind (warm_deferred_imports h DEFERRED p) (\<lambda>p.
     rbind (warm_rendering h render p) (\<lambda>p.
     rbind (py_import_from h ''sandtrap.process.platform'' p) (\<lambda>p. Inr (rt, p)))))))))"

text \<open>
  \<open>worker_main\<close> up to its first message. \<open>set_handler\<close> is \<open>signal.signal\<close> for the
  cancel signal; the options are the ones the parent's sandbox was made with.
\<close>

definition worker_start ::
  "'k host \<Rightarrow> process_host \<Rightarrow> unit res \<Rightarrow> nat \<Rightarrow> policy \<Rightarrow> worker_fs \<Rightarrow> isolation_mode \<Rightarrow> string option \<Rightarrow>
   'h options \<Rightarrow> 'k proc \<Rightarrow> 'k started res" where
  "worker_start h ph set_handler n pol wfs md spool_dir op p =
     rbind (worker_prepare h ph wfs (op_render op) p) (\<lambda>(rt, p).
     rbind (worker_isolation h pol md rt spool_dir p) (\<lambda>(st, p).
     rbind (worker_sandbox h ph n op (worker_filesystem wfs) p) (\<lambda>sb.
     rbind set_handler (\<lambda>_.
       Inr \<lparr>wm_status = st, wm_fs = worker_filesystem wfs, wm_sandbox = sb, wm_proc = p\<rparr>))))"

text \<open>Any failure is reported to the parent; otherwise the status goes with \<open>ReadyMsg\<close>.\<close>

definition start_message :: "'k started res \<Rightarrow> first_msg" where
  "start_message r = (case r of Inl e \<Rightarrow> WorkerError (err_msg e) | Inr w \<Rightarrow> Ready (Some (wm_status w)))"

section \<open>Imports\<close>

text \<open>What imports do to the worker: \<open>sys.modules\<close> grows, the kernel state stays.\<close>

definition grows :: "'k proc \<Rightarrow> 'k proc \<Rightarrow> bool" where
  "grows p p' \<longleftrightarrow> kern p' = kern p \<and> set (loaded p) \<subseteq> set (loaded p')"

lemma grows_refl [simp]: "grows p p"
  by (simp add: grows_def)

lemma grows_trans [trans]: "grows p q \<Longrightarrow> grows q r \<Longrightarrow> grows p r"
  by (auto simp: grows_def)

lemma py_import_grows: "py_import h name p = Inr p' \<Longrightarrow> grows p p' \<and> name \<in> set (loaded p')"
  by (auto simp: py_import_def grows_def split: if_splits)

lemma py_import_from_grows: "py_import_from h name p = Inr p' \<Longrightarrow> grows p p' \<and> name \<in> set (loaded p')"
  by (auto simp: py_import_from_def rbind_eq_Inr_iff split: if_splits dest: py_import_grows)

lemma py_import_hit: "name \<in> set (loaded p) \<Longrightarrow> py_import h name p = Inr p"
  by (simp add: py_import_def)

lemma py_import_from_hit: "name \<in> set (loaded p) \<Longrightarrow> exports h name \<Longrightarrow> py_import_from h name p = Inr p"
  by (simp add: py_import_from_def py_import_hit)

lemma worker_root_grows:
  assumes "worker_root h fs p = Inr (rt, p')"
  shows "grows p p' \<and> (rt = None \<or> (\<exists>r. fs = RootedFs r \<and> rt = Some r))"
  using assms py_import_from_grows
  by (cases "py_import_from h ''monkeyfs'' p") (auto simp: worker_root_def split: if_splits started_fs.splits)

lemma warm_deferred_grows: "warm_deferred_imports h names p = Inr p' \<Longrightarrow> grows p p'"
proof (induction h names p rule: warm_deferred_imports.induct)
  case (2 h name names p)
  then obtain q where q: "rcatch (py_import h name p) (\<lambda>c. exc_caught_by c Exception) (\<lambda>_. Inr p) = Inr q"
    "warm_deferred_imports h names q = Inr p'"
    by (auto simp: rbind_eq_Inr_iff)
  from q(1) have "grows p q"
    by (cases "py_import h name p") (auto split: if_splits dest: py_import_grows)
  also have "grows q p'" by (rule "2.IH" [OF q])
  finally show ?case .
qed simp

text \<open>Warming never fails, and what can be imported is loaded afterwards.\<close>

lemma warm_deferred_total:
  assumes "site_readable h (kern p)"
  shows "\<exists>p'. warm_deferred_imports h names p = Inr p' \<and> grows p p'
    \<and> (\<forall>m \<in> set names. installed h m \<longrightarrow> m \<in> set (loaded p'))"
  using assms
proof (induction names arbitrary: p)
  case (Cons name names)
  define q where "q = (if name \<in> set (loaded p) \<or> \<not> installed h name then p else p\<lparr>loaded := name # loaded p\<rparr>)"
  have "exc_caught_by ModuleNotFoundError Exception" by code_simp
  then have q: "rcatch (py_import h name p) (\<lambda>c. exc_caught_by c Exception) (\<lambda>_. Inr p) = Inr q"
    using Cons.prems by (auto simp: py_import_def q_def)
  have g: "grows p q" "installed h name \<longrightarrow> name \<in> set (loaded q)" by (auto simp: q_def grows_def)
  with Cons.prems Cons.IH [of q] obtain p' where "warm_deferred_imports h names q = Inr p'" "grows q p'"
    "\<forall>m \<in> set names. installed h m \<longrightarrow> m \<in> set (loaded p')"
    by (auto simp: grows_def)
  with q g show ?case by (auto simp: grows_def)
qed simp

lemma warm_rendering_grows:
  "warm_rendering h render p = Inr p' \<Longrightarrow> grows p p' \<and> (render \<noteq> RenderNone \<longrightarrow> ''reprobate'' \<in> set (loaded p'))"
  by (cases "py_import_from h ''sandtrap.prints'' p"; cases "\<exists>q. py_import_from h ''sandtrap.prints'' p = Inr q")
    (auto simp: warm_rendering_def require_reprobate_def rcatch_def split: if_splits sum.splits
      dest!: py_import_from_grows py_import_grows intro: grows_trans)

text \<open>Applying isolation takes nothing out of \<open>sys.modules\<close>.\<close>

lemma landlock_keeps_loaded:
  "landlock_apply h rt writable p = Inr (b, p') \<Longrightarrow> set (loaded p) \<subseteq> set (loaded p')"
  by (cases "py_import_from h ''landlock'' p")
    (auto simp: landlock_apply_def warn_def rcatch_def rbind_eq_Inr_iff grows_def split: if_splits sum.splits
      dest!: py_import_from_grows)

lemma seccomp_keeps_loaded:
  "seccomp_apply h net p = Inr (b, p') \<Longrightarrow> set (loaded p) \<subseteq> set (loaded p')"
  by (cases "py_import_from h ''seccomp'' p"; cases "py_import_from h ''pyseccomp'' p")
    (auto simp: seccomp_apply_def seccomp_install_def warn_def rcatch_def rbind_eq_Inr_iff grows_def
      split: if_splits sum.splits dest!: py_import_from_grows)

lemma preload_keeps_loaded:
  "seccomp_preload h p = Inr (b, p') \<Longrightarrow> set (loaded p) \<subseteq> set (loaded p')"
  by (cases "py_import h ''seccomp'' p"; cases "py_import h ''pyseccomp'' p")
    (auto simp: seccomp_preload_def grows_def split: if_splits dest!: py_import_grows)

lemma apply_linux_keeps_loaded:
  assumes "apply_linux h rt net hostfs writable st p = Inr (st', p')"
  shows "set (loaded p) \<subseteq> set (loaded p')"
proof -
  from assms obtain b1 p1 st2 p2 b3 where pre: "seccomp_preload h p = Inr (b1, p1)"
    and mid: "(case rt of
              Some r \<Rightarrow>
                if \<not> hostfs then
                  rbind (landlock_apply h r writable p1) (\<lambda>(b, p). Inr (st\<lparr>ist_landlock := Some b\<rparr>, p))
                else Inr (st, p1)
            | None \<Rightarrow> Inr (st, p1)) = Inr (st2, p2)"
    and sc: "seccomp_apply h net p2 = Inr (b3, p')"
    unfolding apply_linux_def by (auto simp: rbind_eq_Inr_iff split del: option.split if_split)
  from mid have "set (loaded p1) \<subseteq> set (loaded p2)"
    by (auto simp: rbind_eq_Inr_iff split: option.splits if_splits dest: landlock_keeps_loaded)
  with preload_keeps_loaded [OF pre] seccomp_keeps_loaded [OF sc] show ?thesis by blast
qed

lemma seatbelt_keeps_loaded: "loaded (snd (seatbelt_apply h rt net hostfs writable p)) = loaded p"
  by (auto simp: seatbelt_apply_def warn_def split: sum.splits)

lemma isolation_keeps_loaded:
  assumes "worker_isolation h pol md rt spool_dir p = Inr (st, p')"
  shows "set (loaded p) \<subseteq> set (loaded p')"
  using assms seatbelt_keeps_loaded [of h rt "needs_network pol" "needs_host_fs pol" _ p]
  unfolding worker_isolation_def apply_isolation_def apply_darwin_def
  by (auto simp: Let_def split: if_splits prod.splits dest!: apply_linux_keeps_loaded) (metis snd_conv)

section \<open>The steps of a start\<close>

text \<open>The root is known to the kernel whenever monkeyfs has the class it is read from.\<close>

lemma worker_root_of_isolated:
  assumes "worker_root h (worker_filesystem wfs) p = Inr (rt, p')" "installed h ''monkeyfs''" "exports h ''monkeyfs''"
  shows "rt = (case wfs of InheritedFs r \<Rightarrow> Some r | _ \<Rightarrow> None)"
proof -
  have "\<not> is_import_error (err_class e)" if "py_import_from h ''monkeyfs'' p = Inl e" for e
    using that assms(2,3) by (auto simp: py_import_from_def py_import_def split: if_splits)
  with assms(1) show ?thesis
    by (cases "py_import_from h ''monkeyfs'' p")
      (auto simp: worker_root_def worker_filesystem_def split: if_splits worker_fs.splits)
qed

text \<open>
  Parent and worker agree on which filesystems are confined by the kernel: exactly the
  ones the parent hands over have a root there.
\<close>

lemma confined_fs_agree:
  assumes "is_isolated_fs h fs p = Inr b" "bridge_fs g fs hs = (wfs, hs')"
    and "worker_root k (worker_filesystem wfs) q = Inr (rt, q')" "installed k ''monkeyfs''" "exports k ''monkeyfs''"
    and "installed h ''monkeyfs''" "exports h ''monkeyfs''"
  shows "b \<longleftrightarrow> rt \<noteq> None"
proof -
  have "\<not> is_import_error (err_class e)" if "py_import_from h ''monkeyfs'' p = Inl e" for e
    using that assms(6,7) by (auto simp: py_import_from_def py_import_def split: if_splits)
  with assms(1) have "b = (case fs of IsolatedFs _ \<Rightarrow> True | _ \<Rightarrow> False)"
    by (cases "py_import_from h ''monkeyfs'' p") (auto simp: is_isolated_fs_def split: if_splits)
  moreover have "rt = (case wfs of InheritedFs r \<Rightarrow> Some r | _ \<Rightarrow> None)"
    by (rule worker_root_of_isolated [OF assms(3-5)])
  ultimately show ?thesis using assms(2) by (cases fs) (auto simp: bridge_fs_def)
qed

lemma worker_prepare_parts:
  assumes "worker_prepare h ph wfs render p = Inr (rt, q)"
  shows "grows p q \<and> ''monkeyfs.patching'' \<in> set (loaded q) \<and> exports h ''monkeyfs.patching''
    \<and> (render \<noteq> RenderNone \<longrightarrow> ''reprobate'' \<in> set (loaded q))
    \<and> (\<exists>q0 q1. worker_root h (worker_filesystem wfs) q0 = Inr (rt, q1))"
  using assms unfolding worker_prepare_def
proof (elim rbind_pairE rbind_InrE)
  fix p1 p2 u p3 r p4 p5 p6 p7
  assume st: "py_import_from h ''monkeyfs.patching'' p = Inr p1" "py_import_from h ''sandtrap.sandbox'' p1 = Inr p2"
    "py_import_from h ''sandtrap.fs.remote'' p2 = Inr p3" "worker_root h (worker_filesystem wfs) p3 = Inr (r, p4)"
    "warm_deferred_imports h DEFERRED p4 = Inr p5" "warm_rendering h render p5 = Inr p6"
    "py_import_from h ''sandtrap.process.platform'' p6 = Inr p7" "Inr (r, p7) = Inr (rt, q)"
  have ex: "exports h ''monkeyfs.patching''" using st(1)
    by (auto simp: py_import_from_def rbind_eq_Inr_iff split: if_splits)
  have g6: "grows p6 q" using st(8) py_import_from_grows [OF st(7)] by auto
  have "grows p1 p4"
    using grows_trans py_import_from_grows [OF st(2)] py_import_from_grows [OF st(3)] worker_root_grows [OF st(4)] by metis
  also have "grows p4 q" using grows_trans warm_deferred_grows [OF st(5)] warm_rendering_grows [OF st(6)] g6 by metis
  finally have "grows p1 q" .
  with g6 st(4,8) py_import_from_grows [OF st(1)] warm_rendering_grows [OF st(6)] ex
  show ?thesis by (auto simp: grows_def)
qed


lemma worker_start_parts:
  assumes "worker_start h ph set_handler n pol wfs md spool_dir op p = Inr w"
  obtains rt q where "worker_prepare h ph wfs (op_render op) p = Inr (rt, q)"
    "worker_isolation h pol md rt spool_dir q = Inr (wm_status w, wm_proc w)"
    "worker_sandbox h ph n op (worker_filesystem wfs) (wm_proc w) = Inr (wm_sandbox w)"
    "wm_fs w = worker_filesystem wfs"
  using assms unfolding worker_start_def
proof (elim rbind_pairE rbind_InrE)
  fix rt q st p' sb u
  assume "worker_prepare h ph wfs (op_render op) p = Inr (rt, q)" "worker_isolation h pol md rt spool_dir q = Inr (st, p')"
    "worker_sandbox h ph n op (worker_filesystem wfs) p' = Inr sb"
    "Inr \<lparr>wm_status = st, wm_fs = worker_filesystem wfs, wm_sandbox = sb, wm_proc = p'\<rparr> = Inr w"
  then show thesis using that [of rt q] by auto
qed

text \<open>What the parent accepted is what the worker reported, for the spool directory it was given.\<close>

lemma spawn_worker_accepts:
  assumes "spawn_worker cf sp s = (Inr (), s')"
  obtains st ws where "sp_first sp = Ready st" "verify_isolation (cf_isolation cf) (cf_allow_degraded cf) st = Inr ws"
    "ps_status s' = st" "ps_ensure_spool_dir cf (sp_fresh_dir sp) s = Inr (s\<lparr>ps_spool_dir := ps_spool_dir s'\<rparr>)"
  using assms
  by (auto simp: spawn_worker_def first_contact_def ps_ensure_spool_dir_def rbind_eq_Inr_iff Let_def
      split: sum.splits if_splits first_msg.splits)

lemma process_init_valid:
  assumes "process_init ph fsh im pol op = Inr pc"
  shows "validate_mode (op_mode op) = Inr () \<and> validate_echo (op_echo op) = Inr ()
    \<and> (op_render op = RenderNone \<or> (\<exists>r. op_render op = RenderSpec r))"
  using assms unfolding process_init_def
  by (elim rbind_InrE) (auto simp: validate_render_prints_def split: render_arg.splits)

text \<open>While site-packages can be read, preparing succeeds and leaves the kernel alone.\<close>

definition STARTUP_MODULES :: "string list" where
  "STARTUP_MODULES = [''monkeyfs.patching'', ''monkeyfs'', ''sandtrap.sandbox'', ''sandtrap.fs.remote'',
     ''sandtrap.prints'', ''sandtrap.process.platform'']"

lemma import_from_readable:
  assumes "site_readable h (kern p)" "installed h m" "exports h m"
  obtains p' where "py_import_from h m p = Inr p'" "grows p p'"
  using assms by (cases "m \<in> set (loaded p)") (auto simp: py_import_from_def py_import_def grows_def)

lemma warm_rendering_total:
  assumes "site_readable h (kern p)" "installed h ''sandtrap.prints''" "exports h ''sandtrap.prints''"
    "render \<noteq> RenderNone \<longrightarrow> installed h ''reprobate''"
  shows "\<exists>p'. warm_rendering h render p = Inr p' \<and> grows p p'"
proof (cases "render = RenderNone")
  case False
  obtain q where q: "py_import_from h ''sandtrap.prints'' p = Inr q" "grows p q"
    using assms import_from_readable by blast
  have "\<exists>p'. require_reprobate h q = Inr p' \<and> grows q p'"
    using assms False q(2) by (auto simp: require_reprobate_def py_import_def grows_def)
  with q False show ?thesis by (auto simp: warm_rendering_def intro: grows_trans)
qed (simp add: warm_rendering_def)

lemma worker_prepare_total:
  assumes read: "site_readable h (kern p)" and mods: "\<forall>m \<in> set STARTUP_MODULES. installed h m \<and> exports h m"
    and inst: "ph_install_fs ph = Inr ()" and ren: "render \<noteq> RenderNone \<longrightarrow> installed h ''reprobate''"
  shows "\<exists>rt q. worker_prepare h ph wfs render p = Inr (rt, q) \<and> kern q = kern p
    \<and> (\<forall>m \<in> set DEFERRED. installed h m \<longrightarrow> m \<in> set (loaded q))"
proof -
  have step: "\<exists>q'. py_import_from h m q = Inr q' \<and> grows q q'" if "m \<in> set STARTUP_MODULES" "grows p q" for m q
    using that read mods import_from_readable [of h q m] by (metis grows_def)
  obtain p1 where p1: "py_import_from h ''monkeyfs.patching'' p = Inr p1" "grows p p1"
    using step [of "''monkeyfs.patching''" p] by (auto simp: STARTUP_MODULES_def)
  obtain p2 where p2: "py_import_from h ''sandtrap.sandbox'' p1 = Inr p2" "grows p p2"
    using step [OF _ p1(2), of "''sandtrap.sandbox''"] grows_trans [OF p1(2)] by (auto simp: STARTUP_MODULES_def)
  obtain p3 where p3: "py_import_from h ''sandtrap.fs.remote'' p2 = Inr p3" "grows p p3"
    using step [OF _ p2(2), of "''sandtrap.fs.remote''"] grows_trans [OF p2(2)] by (auto simp: STARTUP_MODULES_def)
  obtain rt p4 where p4: "worker_root h (worker_filesystem wfs) p3 = Inr (rt, p4)" "grows p p4"
    using step [OF _ p3(2), of "''monkeyfs''"] grows_trans [OF p3(2)]
    by (auto simp: STARTUP_MODULES_def worker_root_def)
  obtain p5 where p5: "warm_deferred_imports h DEFERRED p4 = Inr p5" "grows p p5"
    "\<forall>m \<in> set DEFERRED. installed h m \<longrightarrow> m \<in> set (loaded p5)"
    using warm_deferred_total [of h p4 DEFERRED] p4(2) read grows_trans [OF p4(2)] by (auto simp: grows_def)
  obtain p6 where p6: "warm_rendering h render p5 = Inr p6" "grows p5 p6"
    using warm_rendering_total [of h p5 render] p5(2) read mods ren by (auto simp: grows_def STARTUP_MODULES_def)
  obtain p7 where p7: "py_import_from h ''sandtrap.process.platform'' p6 = Inr p7" "grows p6 p7"
    using step [OF _ grows_trans [OF p5(2) p6(2)], of "''sandtrap.process.platform''"] by (auto simp: STARTUP_MODULES_def)
  have "worker_prepare h ph wfs render p = Inr (rt, p7)"
    by (simp add: worker_prepare_def p1 p2 p3 p4 p5 p6 p7 inst)
  with p5 p6(2) p7(2) show ?thesis by (auto simp: grows_def)
qed

section \<open>Properties\<close>



section \<open>A concrete start\<close>

definition ex_rooted :: "nat options" where
  "ex_rooted = ex_options\<lparr>op_fs := IsolatedFs ''/srv'', op_render := RenderSpec \<lparr>per_print = 100, print_limit = 1000\<rparr>\<rparr>"

definition ex_rooted_sandbox :: "nat process_sandbox" where
  "ex_rooted_sandbox = \<lparr>pc_config = ex_strict, pc_state = new_psb, pc_policy = ex_sent,
     pc_handlers = [], pc_worker_fs = InheritedFs ''/srv'', pc_hook = False\<rparr>"

lemma ex_rooted_made: "process_init ex_process_host 1 Iso_auto ex_sent ex_rooted = Inr ex_rooted_sandbox"
proof -
  have "require_portable_policy ex_here ex_pk ex_sent ''forkserver'' = Inr ()" by code_simp
  moreover have "validate_echo (AStr ''none'') = Inr ()" by code_simp
  moreover have "choose_start_method ex_process_host None = Inr ''forkserver''" by code_simp
  moreover have "refuse_spool_inside_root id ''/tmp'' SpoolOn ''/srv'' = Inr ()" by code_simp
  ultimately show ?thesis
    by (simp add: process_init_def ex_process_host_def ex_options_def ex_rooted_def ex_rooted_sandbox_def
        validate_mode_def validate_render_prints_def check_spool_def bridge_fs_def ex_strict_def ex_cfg_def)
qed

lemma ex_sent_needs: "\<not> needs_network ex_sent" "\<not> needs_host_fs ex_sent"
  by code_simp+

lemma ex_startup: "m \<in> set STARTUP_MODULES \<Longrightarrow> installed Isolation.ex_host m \<and> exports Isolation.ex_host m"
  by (auto simp: STARTUP_MODULES_def Isolation.ex_host_def)

text \<open>The modules the concrete worker has imported when it is confined.\<close>

definition ex_prepared :: "(string list list \<times> string list list) proc" where
  "ex_prepared = ex_proc\<lparr>loaded := [''sandtrap.process.platform'', ''reprobate'', ''sandtrap.prints'',
     ''concurrent.futures.thread'', ''monkeyfs'', ''sandtrap.fs.remote'', ''sandtrap.sandbox'', ''monkeyfs.patching'']\<rparr>"

lemma ex_prepare:
  "worker_prepare Isolation.ex_host ex_process_host (InheritedFs ''/srv'') (op_render ex_rooted) ex_proc
     = Inr (Some ''/srv'', ex_prepared)"
  by (simp add: worker_prepare_def worker_root_def worker_filesystem_def DEFERRED_def warm_rendering_def
      require_reprobate_def py_import_from_def py_import_def Isolation.ex_host_def ex_proc_def ex_prepared_def
      ex_process_host_def ex_rooted_def)

lemma ex_worker_start:
  "\<exists>w. worker_start Isolation.ex_host ex_process_host (Inr ()) 0 ex_sent (InheritedFs ''/srv'') Iso_auto
      (Some ''/tmp/sandtrap-spool-x'') ex_rooted ex_proc = Inr w
    \<and> wm_status w = ex_status"
proof -
  obtain p' where iso: "worker_isolation Isolation.ex_host ex_sent Iso_auto (Some ''/srv'') (Some ''/tmp/sandtrap-spool-x'') ex_prepared
      = Inr (ex_status, p')"
    using ex_isolation_run [OF ex_sent_needs, of ex_prepared] by (auto simp: ex_prepared_def ex_proc_def)
  have keep: "set (loaded ex_prepared) \<subseteq> set (loaded p')" by (rule isolation_keeps_loaded [OF iso])
  then have imp: "''monkeyfs.patching'' \<in> set (loaded p')" "''reprobate'' \<in> set (loaded p')" "exports Isolation.ex_host m" for m
    by (auto simp: ex_prepared_def Isolation.ex_host_def)
  have "worker_sandbox Isolation.ex_host ex_process_host 0 ex_rooted (worker_filesystem (InheritedFs ''/srv'')) p' = Inr (new_sandbox 0)"
    using process_init_valid [OF ex_rooted_made]
    by (simp add: worker_sandbox_def sandbox_init_def py_import_from_hit py_import_hit require_reprobate_def imp
        validate_render_prints_def ex_process_host_def ex_rooted_def)
  then show ?thesis by (simp add: worker_start_def ex_prepare iso)
qed



end
