(* ===== verification/MemoryLimits.thy ===== *)
theory MemoryLimits
  imports Sandbox
begin

text \<open>
  Memory limits (\<open>sandtrap/resource_limits.py\<close>, \<open>Sandbox._memory_params\<close>) and calling
  a function under an execution's limits (\<open>Sandbox._call_in_context\<close>). What the
  system reads and accepts is an argument; the limit on the address space is the
  process's, so the last lemma looks at two executions that overlap.
\<close>

section \<open>The peak memory\<close>

record memory_host =
  mh_resource :: bool
  mh_platform :: string
  mh_maxrss :: int
  mh_readable :: "pyerr option"
  mh_accepts :: "int \<Rightarrow> pyerr option"

definition get_rss_bytes :: "memory_host \<Rightarrow> int res" where
  "get_rss_bytes h =
     (if \<not> mh_resource h then Inl (Exc RuntimeError ''Memory limits require the resource module (Unix only)'')
      else if mh_platform h = ''darwin'' then Inr (mh_maxrss h)
      else Inr (mh_maxrss h * 1024))"

definition memory_params :: "memory_host \<Rightarrow> policy \<Rightarrow> (int option \<times> int option) res" where
  "memory_params h pol =
     (case memory_limit pol of
        None \<Rightarrow> Inr (None, None)
      | Some mb \<Rightarrow> rbind (get_rss_bytes h) (\<lambda>rss. Inr (Some (int mb * 1024 * 1024), Some rss)))"

section \<open>The limit on the address space\<close>

text \<open>The soft limit of the process; \<open>None\<close> as a token: nothing was changed, nothing is put back.\<close>

definition tolerated :: "pyerr \<Rightarrow> bool" where
  "tolerated e = (exc_caught_by (err_class e) ValueError \<or> exc_caught_by (err_class e) OSError)"

definition limit_enter :: "memory_host \<Rightarrow> int \<Rightarrow> int \<Rightarrow> (int option \<times> int) res" where
  "limit_enter h mb soft =
     (if \<not> mh_resource h then Inr (None, soft)
      else rbind (get_rss_bytes h) (\<lambda>baseline.
        case mh_readable h of
          Some e \<Rightarrow> if tolerated e then Inr (None, soft) else Inl e
        | None \<Rightarrow>
            (let new_soft = baseline + mb * 1024 * 1024 in
             case mh_accepts h new_soft of
               Some e \<Rightarrow> if tolerated e then Inr (None, soft) else Inl e
             | None \<Rightarrow> Inr (Some soft, new_soft))))"

definition limit_exit :: "memory_host \<Rightarrow> int option \<Rightarrow> int \<Rightarrow> int res" where
  "limit_exit h token soft =
     (case token of
        None \<Rightarrow> Inr soft
      | Some old \<Rightarrow>
          (case mh_accepts h old of
             Some e \<Rightarrow> if tolerated e then Inr soft else Inl e
           | None \<Rightarrow> Inr old))"

definition memory_limit_context :: "memory_host \<Rightarrow> int \<Rightarrow> (int \<Rightarrow> 'r res \<times> int) \<Rightarrow> int \<Rightarrow> 'r res \<times> int" where
  "memory_limit_context h mb body soft =
     (case limit_enter h mb soft of
        Inl e \<Rightarrow> (Inl e, soft)
      | Inr (token, soft1) \<Rightarrow>
          (case body soft1 of
             (r, soft2) \<Rightarrow>
               (case limit_exit h token soft2 of Inl e \<Rightarrow> (Inl e, soft2) | Inr soft3 \<Rightarrow> (r, soft3))))"

section \<open>Calling back under fresh limits\<close>

definition call_in_context ::
  "memory_host \<Rightarrow> real \<Rightarrow> policy \<Rightarrow> 'f option \<Rightarrow> nat \<Rightarrow> (boxes \<Rightarrow> ('f, 's, 'r) code) \<Rightarrow> cancel_flag \<Rightarrow> boxes \<Rightarrow>
   'f ctx \<Rightarrow> 's \<Rightarrow> ('r res \<times> 'f ctx \<times> 's) res" where
  "call_in_context h now pol fs clk fn flag b c s =
     rbind (memory_params h pol) (\<lambda>(limit, rss).
       let b' = b\<lparr>tick_counter := 0, host_clock_box := (host_clock_box b)\<lparr>hc_start := Some now\<rparr>,
                 cancel_flag_box := Some flag, memory_limit_box := limit, start_rss_box := rss\<rparr>
       in Inr (sandbox_context pol fs clk (fn b') c s))"

section \<open>Laws\<close>

text \<open>
  A limit is in force exactly for its body: the code runs under the peak so far and
  its headroom, and afterwards, when the system accepts it, the limit is what it was.
\<close>

lemma memory_limit_restored:
  assumes "mh_resource h" "mh_readable h = None" "mh_accepts h = (\<lambda>_. None)" "get_rss_bytes h = Inr base"
  shows "memory_limit_context h mb body soft = (fst (body (base + mb * 1024 * 1024)), soft)"
  using assms by (simp add: memory_limit_context_def limit_enter_def limit_exit_def Let_def split: prod.splits)

text \<open>A limit that cannot be set leaves the process as it was, and the code runs.\<close>

lemma unsupported_limit_runs:
  assumes "mh_resource h" "mh_readable h = None" "get_rss_bytes h = Inr base"
    and "mh_accepts h (base + mb * 1024 * 1024) = Some e" "tolerated e"
  shows "memory_limit_context h mb body soft = body soft"
  using assms by (simp add: memory_limit_context_def limit_enter_def limit_exit_def Let_def split: prod.splits)

text \<open>
  Two executions that overlap and end in the order they began leave the limit of the
  first in force after both: each puts back what it found, and the second found the
  first's.
\<close>

lemma overlapping_limits_leave_one:
  assumes "mh_resource h" "mh_readable h = None" "mh_accepts h = (\<lambda>_. None)" "get_rss_bytes h = Inr base"
  shows "rbind (limit_enter h mb1 soft) (\<lambda>(t1, s1).
           rbind (limit_enter h mb2 s1) (\<lambda>(t2, s2).
             rbind (limit_exit h t1 s2) (\<lambda>s3. limit_exit h t2 s3)))
         = Inr (base + mb1 * 1024 * 1024)"
  using assms by (simp add: limit_enter_def limit_exit_def Let_def)

end
