(* ===== verification/Output.thy ===== *)
theory Output
  imports Sandbox Prints
begin

text \<open>
  What sandboxed code shows (\<open>print_fn\<close>, \<open>display_fn\<close> of \<open>Sandbox._build_namespace\<close> and
  the safe \<open>help\<close>): each goes through a checkpoint, then to the snapshots when they
  are kept, to the captured output, and to the renderer when there is one. The
  theorem says that the three channels stay in step.
\<close>

record 'v channels =
  ch_boxes :: boxes
  ch_prints :: "'v list list option"
  ch_out :: out_buffer
  ch_renderer :: "print_renderer option"

text \<open>What the printed values do: copying one, its \<open>str\<close> and its \<open>repr\<close>, and its rendering.\<close>

record 'v printing =
  pr_checkpoint :: "boxes \<Rightarrow> unit res \<times> boxes"
  pr_deepcopy :: "'v list \<Rightarrow> 'v list res"
  pr_str :: "'v \<Rightarrow> string res"
  pr_repr :: "'v \<Rightarrow> string res"
  pr_is_none :: "'v \<Rightarrow> bool"
  pr_render :: "'v \<Rightarrow> int \<Rightarrow> string"
  pr_rendering :: print_rendering
  pr_text :: "string \<Rightarrow> 'v"

definition snapshot :: "'v printing \<Rightarrow> 'v list \<Rightarrow> 'v list res" where
  "snapshot pr args =
     (case pr_deepcopy pr args of
        Inr c \<Rightarrow> Inr c
      | Inl e \<Rightarrow> if exc_caught_by (err_class e) Exception then Inr args else Inl e)"

text \<open>The common part: the text is written between the snapshot and the rendering.\<close>

definition show_values ::
  "'v printing \<Rightarrow> 'v list \<Rightarrow> (out_buffer \<Rightarrow> out_buffer res) \<Rightarrow> 'v channels \<Rightarrow> unit res \<times> 'v channels" where
  "show_values pr args emit ch =
     (case pr_checkpoint pr (ch_boxes ch) of
        (Inl e, b) \<Rightarrow> (Inl e, ch\<lparr>ch_boxes := b\<rparr>)
      | (Inr _, b) \<Rightarrow>
          (let ch = ch\<lparr>ch_boxes := b\<rparr> in
           case (case ch_prints ch of
                   None \<Rightarrow> Inr None
                 | Some ps \<Rightarrow> rbind (snapshot pr args) (\<lambda>c. Inr (Some (ps @ [c])))) of
             Inl e \<Rightarrow> (Inl e, ch)
           | Inr ps \<Rightarrow>
               (let ch = ch\<lparr>ch_prints := ps\<rparr> in
                case emit (ch_out ch) of
                  Inl e \<Rightarrow> (Inl e, ch)
                | Inr o' \<Rightarrow>
                    (Inr (), ch\<lparr>ch_out := o',
                                ch_renderer := map_option (renderer_append (pr_render pr) (pr_rendering pr) args)
                                  (ch_renderer ch)\<rparr>))))"

definition print_fn :: "'v printing \<Rightarrow> bool \<Rightarrow> string \<Rightarrow> string \<Rightarrow> 'v list \<Rightarrow> 'v channels \<Rightarrow> unit res \<times> 'v channels" where
  "print_fn pr has_file sep end_text args =
     show_values pr args (\<lambda>out.
       rbind (if has_file then Inr [] else rmap (pr_str pr) args) (\<lambda>ts. print_to buf_write has_file sep end_text ts out))"

definition display_fn :: "'v printing \<Rightarrow> 'v \<Rightarrow> 'v channels \<Rightarrow> unit res \<times> 'v channels" where
  "display_fn pr v ch =
     (if pr_is_none pr v then (Inr (), ch)
      else show_values pr [v] (\<lambda>out. rbind (pr_repr pr v) (\<lambda>t. print_to buf_write False '' '' [CHR 0x0A] [t] out)) ch)"

text \<open>What \<open>help\<close> was called with; \<open>doc\<close> is what \<open>pydoc\<close> renders for an object, or raises.\<close>

datatype help_arg = HelpNothing | HelpString | HelpOn "string res"

definition help_text :: "help_arg \<Rightarrow> string res" where
  "help_text a =
     (case a of
        HelpNothing \<Rightarrow>
          Inr (''Welcome to help!'' @ [CHR 0x0A, CHR 0x0A] @
               ''To get help on a function or object, call help(thing).'' @ [CHR 0x0A] @
               ''For example: help(sorted), help(int), help(my_function)'' @ [CHR 0x0A])
      | HelpString \<Rightarrow> Inl (Exc TypeError ''help() with a string argument is not supported in the sandbox'')
      | HelpOn doc \<Rightarrow> doc)"

definition help_fn :: "'v printing \<Rightarrow> help_arg \<Rightarrow> 'v channels \<Rightarrow> unit res \<times> 'v channels" where
  "help_fn pr a ch =
     (case rbind (help_text a) (\<lambda>text. rbind (buf_write (ch_out ch) text) (\<lambda>o'. Inr (text, o'))) of
        Inl e \<Rightarrow> (Inl e, ch)
      | Inr (text, o') \<Rightarrow>
          (case fanout_append (pr_render pr) (pr_rendering pr) [pr_text pr text] (ch_prints ch, ch_renderer ch) of
             (ps, r) \<Rightarrow> (Inr (), ch\<lparr>ch_out := o', ch_prints := ps, ch_renderer := r\<rparr>)))"

datatype 'v shown = ShowPrint bool string string "'v list" | ShowValue 'v | ShowHelp help_arg

fun show_one :: "'v printing \<Rightarrow> 'v shown \<Rightarrow> 'v channels \<Rightarrow> unit res \<times> 'v channels" where
  "show_one pr (ShowPrint has_file sep e args) ch = print_fn pr has_file sep e args ch"
| "show_one pr (ShowValue v) ch = display_fn pr v ch"
| "show_one pr (ShowHelp t) ch = help_fn pr t ch"

text \<open>Code that shows one thing after another and goes on after an exception it caught.\<close>

fun show_all :: "'v printing \<Rightarrow> 'v shown list \<Rightarrow> 'v channels \<Rightarrow> 'v channels" where
  "show_all pr [] ch = ch"
| "show_all pr (x # xs) ch = show_all pr xs (snd (show_one pr x ch))"

section \<open>The channels stay in step\<close>

text \<open>
  How many things were shown to the end, and the relation of the channels: the
  renderer counted each of them, the snapshots have each of them and at most those
  more whose printing failed after the snapshot.
\<close>

fun completed :: "'v printing \<Rightarrow> 'v shown list \<Rightarrow> 'v channels \<Rightarrow> nat" where
  "completed pr [] ch = 0"
| "completed pr (x # xs) ch =
     (case show_one pr x ch of
        (r, ch') \<Rightarrow>
          (if r = Inr () \<and> \<not> (\<exists>v. x = ShowValue v \<and> pr_is_none pr v) then 1 else 0) + completed pr xs ch')"

lemma show_counts:
  assumes "show_one pr x ch = (r, ch')" "ch_renderer ch = Some q" "ch_prints ch = Some ps"
  shows "\<exists>q' ps'. ch_renderer ch' = Some q' \<and> ch_prints ch' = Some ps'
    \<and> print_count q' = print_count q + (if r = Inr () \<and> \<not> (\<exists>v. x = ShowValue v \<and> pr_is_none pr v) then 1 else 0)
    \<and> length ps + (if r = Inr () \<and> \<not> (\<exists>v. x = ShowValue v \<and> pr_is_none pr v) then 1 else 0) \<le> length ps'
    \<and> length ps' \<le> Suc (length ps) \<and> take (length ps) ps' = ps"
  using assms
  by (cases x) (auto simp: print_fn_def display_fn_def help_fn_def show_values_def renderer_append_def fanout_append_def
      Let_def rbind_eq_Inr_iff split: sum.splits prod.splits if_splits)

lemma channels_agree:
  assumes "ch_renderer ch = Some q" "ch_prints ch = Some ps"
  shows "\<exists>q' ps'. ch_renderer (show_all pr xs ch) = Some q' \<and> ch_prints (show_all pr xs ch) = Some ps'
    \<and> print_count q' = print_count q + completed pr xs ch
    \<and> length ps + completed pr xs ch \<le> length ps' \<and> length ps' \<le> length ps + length xs"
  using assms
proof (induction xs arbitrary: ch q ps)
  case (Cons x xs)
  obtain r ch1 where s: "show_one pr x ch = (r, ch1)" by fastforce
  from show_counts [OF s Cons.prems] obtain q1 ps1 where one: "ch_renderer ch1 = Some q1" "ch_prints ch1 = Some ps1"
    "print_count q1 = print_count q + (if r = Inr () \<and> \<not> (\<exists>v. x = ShowValue v \<and> pr_is_none pr v) then 1 else 0)"
    "length ps + (if r = Inr () \<and> \<not> (\<exists>v. x = ShowValue v \<and> pr_is_none pr v) then 1 else 0) \<le> length ps1"
    "length ps1 \<le> Suc (length ps)"
    by blast
  from Cons.IH [OF one(1,2)] obtain q2 ps2 where "ch_renderer (show_all pr xs ch1) = Some q2"
    "ch_prints (show_all pr xs ch1) = Some ps2" "print_count q2 = print_count q1 + completed pr xs ch1"
    "length ps1 + completed pr xs ch1 \<le> length ps2" "length ps2 \<le> length ps1 + length xs"
    by blast
  with one s show ?case by auto
qed simp

end
